theory Spec2Isabelle
  imports Complex_Main
begin

section \<open>JavaScript strings\<close>

text \<open>
  A JavaScript string is modelled as a \<open>string\<close>: a list of code units, each below 256
  (the Latin-1 range of UTF-16). Indices are \<open>int\<close>, with \<open>-1\<close> for "not found", as
  \<open>indexOf\<close> and \<open>lastIndexOf\<close> return them.
\<close>

definition sq :: char where "sq = CHR 0x27"
definition dq :: char where "dq = CHR 0x22"
definition bslash :: char where "bslash = CHR 0x5C"
definition btick :: char where "btick = CHR 0x60"
definition nl :: char where "nl = CHR 0x0A"

definition code :: "char \<Rightarrow> nat" where
  "code c = of_char c"

definition inRange :: "char \<Rightarrow> char \<Rightarrow> char \<Rightarrow> bool" where
  "inRange lo hi c = (code lo \<le> code c \<and> code c \<le> code hi)"

definition isLineTerminator :: "char \<Rightarrow> bool" where
  "isLineTerminator c = (c = CHR 0x0A \<or> c = CHR 0x0D)"

definition isWhiteSpace :: "char \<Rightarrow> bool" where
  "isWhiteSpace c = (c = CHR 0x09 \<or> c = CHR 0x0A \<or> c = CHR 0x0B \<or> c = CHR 0x0C
                     \<or> c = CHR 0x0D \<or> c = CHR 0x20 \<or> c = CHR 0xA0)"

definition isWordChar :: "char \<Rightarrow> bool" where
  "isWordChar c = (inRange CHR ''a'' CHR ''z'' c \<or> inRange CHR ''A'' CHR ''Z'' c
                   \<or> inRange CHR ''0'' CHR ''9'' c \<or> c = CHR ''_'')"

definition toLowerChar :: "char \<Rightarrow> char" where
  "toLowerChar c =
     (if inRange CHR ''A'' CHR ''Z'' c \<or> (inRange CHR 0xC0 CHR 0xDE c \<and> c \<noteq> CHR 0xD7)
      then char_of (code c + 32) else c)"

definition toUpperChar :: "char \<Rightarrow> char" where
  "toUpperChar c =
     (if inRange CHR ''a'' CHR ''z'' c \<or> (inRange CHR 0xE0 CHR 0xFE c \<and> c \<noteq> CHR 0xF7)
      then char_of (code c - 32) else c)"

definition toLowerCase :: "string \<Rightarrow> string" where
  "toLowerCase s = map toLowerChar s"

definition trim :: "string \<Rightarrow> string" where
  "trim s = rev (dropWhile isWhiteSpace (rev (dropWhile isWhiteSpace s)))"

fun startsWith :: "string \<Rightarrow> string \<Rightarrow> bool" where
  "startsWith s [] = True"
| "startsWith [] (p # ps) = False"
| "startsWith (c # cs) (p # ps) = (c = p \<and> startsWith cs ps)"

definition endsWith :: "string \<Rightarrow> string \<Rightarrow> bool" where
  "endsWith s p = startsWith (rev s) (rev p)"

fun includesStr :: "string \<Rightarrow> string \<Rightarrow> bool" where
  "includesStr [] p = (p = [])"
| "includesStr (c # cs) p = (startsWith (c # cs) p \<or> includesStr cs p)"

fun indexFrom :: "char \<Rightarrow> string \<Rightarrow> int \<Rightarrow> int" where
  "indexFrom x [] i = -1"
| "indexFrom x (c # cs) i = (if c = x then i else indexFrom x cs (i + 1))"

definition indexOf :: "string \<Rightarrow> char \<Rightarrow> int" where
  "indexOf s x = indexFrom x s 0"

definition lastIndexOf :: "string \<Rightarrow> char \<Rightarrow> int" where
  "lastIndexOf s x =
     (let k = indexFrom x (rev s) 0 in if k < 0 then -1 else int (length s) - 1 - k)"

definition clampIdx :: "string \<Rightarrow> int \<Rightarrow> nat" where
  "clampIdx s i = (if i < 0 then 0 else min (nat i) (length s))"

definition substring :: "string \<Rightarrow> int \<Rightarrow> int \<Rightarrow> string" where
  "substring s a b =
     (let x = clampIdx s a; y = clampIdx s b
      in take (max x y - min x y) (drop (min x y) s))"

definition substringFrom :: "string \<Rightarrow> int \<Rightarrow> string" where
  "substringFrom s a = drop (clampIdx s a) s"

fun splitAcc :: "char \<Rightarrow> string \<Rightarrow> string \<Rightarrow> string list" where
  "splitAcc sep acc [] = [rev acc]"
| "splitAcc sep acc (c # cs) =
     (if c = sep then rev acc # splitAcc sep [] cs else splitAcc sep (c # acc) cs)"

definition split :: "string \<Rightarrow> char \<Rightarrow> string list" where
  "split s sep = splitAcc sep [] s"

fun join :: "string list \<Rightarrow> string \<Rightarrow> string" where
  "join [] sep = []"
| "join [x] sep = x"
| "join (x # y # ys) sep = x @ sep @ join (y # ys) sep"

definition pop :: "string list \<Rightarrow> string list" where
  "pop xs = butlast xs"

definition lastSegment :: "string \<Rightarrow> string" where
  "lastSegment p = last (split p CHR ''/'')"

fun digitsRev :: "nat \<Rightarrow> nat \<Rightarrow> string" where
  "digitsRev 0 n = []"
| "digitsRev (Suc fuel) n =
     char_of (48 + n mod 10) # (if n < 10 then [] else digitsRev fuel (n div 10))"

definition showNat :: "nat \<Rightarrow> string" where
  "showNat n = rev (digitsRev (Suc n) n)"

definition addUnique :: "'a \<Rightarrow> 'a list \<Rightarrow> 'a list" where
  "addUnique x xs = (if x \<in> set xs then xs else xs @ [x])"

section \<open>Regular expressions\<close>

text \<open>
  The regular expressions of the source are terms of \<open>rx\<close>, matched by backtracking in
  the priority order of ECMAScript: \<open>rmatch\<close> lists the states a pattern can end in, the
  preferred one first. A state holds the code unit before the position (for \<open>^\<close>), the
  unread text and the captures made so far. An iteration of a star that consumes nothing
  is rejected, as the ECMAScript matcher does.
\<close>

datatype cclass = CChar char | CRange char char | CSpace | CNotSpace | CWord

datatype rx = Eps | Lit char | Set "cclass list" | NSet "cclass list" | Dot
  | Seq rx rx | Alt rx rx | Star rx | StarLazy rx | Opt rx | Cap nat rx
  | Bol | Eol | Look rx

record flags =
  ignoreCase :: bool
  multiline :: bool

definition noFlags :: flags where
  "noFlags = \<lparr>ignoreCase = False, multiline = False\<rparr>"

definition flagI :: flags where
  "flagI = \<lparr>ignoreCase = True, multiline = False\<rparr>"

definition flagM :: flags where
  "flagM = \<lparr>ignoreCase = False, multiline = True\<rparr>"

definition flagIM :: flags where
  "flagIM = \<lparr>ignoreCase = True, multiline = True\<rparr>"

datatype mstate = MState (prev: "char option") (rest: string) (caps: "(nat \<times> string) list")

definition sameChar :: "flags \<Rightarrow> char \<Rightarrow> char \<Rightarrow> bool" where
  "sameChar fl a c = (if ignoreCase fl then toUpperChar a = toUpperChar c else a = c)"

fun inClass :: "flags \<Rightarrow> char \<Rightarrow> cclass \<Rightarrow> bool" where
  "inClass fl c (CChar a) = sameChar fl a c"
| "inClass fl c (CRange lo hi) =
     (if ignoreCase fl
      then inRange lo hi c \<or> inRange lo hi (toUpperChar c) \<or> inRange lo hi (toLowerChar c)
      else inRange lo hi c)"
| "inClass fl c CSpace = isWhiteSpace c"
| "inClass fl c CNotSpace = (\<not> isWhiteSpace c)"
| "inClass fl c CWord = isWordChar c"

definition step :: "(char \<Rightarrow> bool) \<Rightarrow> mstate \<Rightarrow> mstate list" where
  "step P st = (case rest st of [] \<Rightarrow> []
                | c # cs \<Rightarrow> if P c then [MState (Some c) cs (caps st)] else [])"

definition atLineStart :: "flags \<Rightarrow> mstate \<Rightarrow> bool" where
  "atLineStart fl st =
     (case prev st of None \<Rightarrow> True | Some c \<Rightarrow> multiline fl \<and> isLineTerminator c)"

definition atLineEnd :: "flags \<Rightarrow> mstate \<Rightarrow> bool" where
  "atLineEnd fl st =
     (case rest st of [] \<Rightarrow> True | c # cs \<Rightarrow> multiline fl \<and> isLineTerminator c)"

definition consumed :: "mstate \<Rightarrow> mstate \<Rightarrow> string" where
  "consumed st st' = take (length (rest st) - length (rest st')) (rest st)"

function rmatch :: "flags \<Rightarrow> rx \<Rightarrow> mstate \<Rightarrow> mstate list" where
  "rmatch fl Eps st = [st]"
| "rmatch fl (Lit a) st = step (sameChar fl a) st"
| "rmatch fl (Set cs) st = step (\<lambda>c. list_ex (inClass fl c) cs) st"
| "rmatch fl (NSet cs) st = step (\<lambda>c. \<not> list_ex (inClass fl c) cs) st"
| "rmatch fl Dot st = step (\<lambda>c. \<not> isLineTerminator c) st"
| "rmatch fl (Seq a b) st = concat (map (rmatch fl b) (rmatch fl a st))"
| "rmatch fl (Alt a b) st = rmatch fl a st @ rmatch fl b st"
| "rmatch fl (Star a) st =
     concat (map (\<lambda>st'. if length (rest st') < length (rest st)
                         then rmatch fl (Star a) st' else [])
                 (rmatch fl a st)) @ [st]"
| "rmatch fl (StarLazy a) st =
     st # concat (map (\<lambda>st'. if length (rest st') < length (rest st)
                              then rmatch fl (StarLazy a) st' else [])
                      (rmatch fl a st))"
| "rmatch fl (Opt a) st = rmatch fl a st @ [st]"
| "rmatch fl (Cap n a) st =
     map (\<lambda>st'. MState (prev st') (rest st') ((n, consumed st st') # caps st'))
         (rmatch fl a st)"
| "rmatch fl Bol st = (if atLineStart fl st then [st] else [])"
| "rmatch fl Eol st = (if atLineEnd fl st then [st] else [])"
| "rmatch fl (Look a) st = (if rmatch fl a st = [] then [] else [st])"
  by pat_completeness auto
termination
  by (relation "measures [\<lambda>(fl, r, st). size r, \<lambda>(fl, r, st). length (rest st)]") auto

fun lits :: "string \<Rightarrow> rx" where
  "lits [] = Eps"
| "lits [c] = Lit c"
| "lits (c # d # cs) = Seq (Lit c) (lits (d # cs))"

fun seqs :: "rx list \<Rightarrow> rx" where
  "seqs [] = Eps"
| "seqs [r] = r"
| "seqs (r # s # rs) = Seq r (seqs (s # rs))"

fun alts :: "rx list \<Rightarrow> rx" where
  "alts [] = Eps"
| "alts [r] = r"
| "alts (r # s # rs) = Alt r (alts (s # rs))"

definition OneOrMore :: "rx \<Rightarrow> rx" where
  "OneOrMore r = Seq r (Star r)"

definition OneOrMoreLazy :: "rx \<Rightarrow> rx" where
  "OneOrMoreLazy r = Seq r (StarLazy r)"

definition getCap :: "nat \<Rightarrow> (nat \<times> string) list \<Rightarrow> string" where
  "getCap n cs = (case map_of cs n of None \<Rightarrow> [] | Some s \<Rightarrow> s)"

text \<open>
  \<open>rsearch\<close> is one run of \<open>RegExp.prototype.exec\<close> from a position: the leftmost start
  at which the pattern matches, with the text skipped before it and the preferred end
  state.
\<close>

fun rsearch :: "flags \<Rightarrow> rx \<Rightarrow> char option \<Rightarrow> string \<Rightarrow> (string \<times> mstate) option" where
  "rsearch fl r p [] =
     (case rmatch fl r (MState p [] []) of [] \<Rightarrow> None | st # sts \<Rightarrow> Some ([], st))"
| "rsearch fl r p (c # cs) =
     (case rmatch fl r (MState p (c # cs) []) of
        st # sts \<Rightarrow> Some ([], st)
      | [] \<Rightarrow> (case rsearch fl r (Some c) cs of
                 None \<Rightarrow> None
               | Some (b, st) \<Rightarrow> Some (c # b, st)))"

definition matchedText :: "string \<Rightarrow> string \<Rightarrow> mstate \<Rightarrow> string" where
  "matchedText s b st = take (length s - length b - length (rest st)) (drop (length b) s)"

definition test :: "flags \<Rightarrow> rx \<Rightarrow> string \<Rightarrow> bool" where
  "test fl r s = (rsearch fl r None s \<noteq> None)"

text \<open>\<open>String.prototype.match\<close> with a regular expression that has no \<open>g\<close> flag.\<close>

definition matchFirst :: "flags \<Rightarrow> rx \<Rightarrow> string \<Rightarrow> (string \<times> (nat \<times> string) list) option" where
  "matchFirst fl r s =
     (case rsearch fl r None s of
        None \<Rightarrow> None
      | Some (b, st) \<Rightarrow> Some (matchedText s b st, caps st))"

text \<open>\<open>String.prototype.replace\<close> with a regular expression that has no \<open>g\<close> flag.\<close>

definition replaceFirst ::
  "flags \<Rightarrow> rx \<Rightarrow> (string \<Rightarrow> (nat \<times> string) list \<Rightarrow> string) \<Rightarrow> string \<Rightarrow> string" where
  "replaceFirst fl r repl s =
     (case rsearch fl r None s of
        None \<Rightarrow> s
      | Some (b, st) \<Rightarrow> b @ repl (matchedText s b st) (caps st) @ rest st)"

declare rmatch.simps [simp del]

lemma step_rest: "st' \<in> set (step P st) \<Longrightarrow> length (rest st') \<le> length (rest st)"
  by (cases "rest st") (auto simp: step_def split: if_splits)

lemma rmatch_rest_le:
  "st' \<in> set (rmatch fl r st) \<Longrightarrow> length (rest st') \<le> length (rest st)"
proof (induction fl r st arbitrary: st' rule: rmatch.induct)
  case (1 fl st)
  then show ?case by (simp add: rmatch.simps(1))
next
  case (2 fl a st)
  then show ?case by (simp add: rmatch.simps(2) step_rest)
next
  case (3 fl cs st)
  then show ?case by (simp add: rmatch.simps(3) step_rest)
next
  case (4 fl cs st)
  then show ?case by (simp add: rmatch.simps(4) step_rest)
next
  case (5 fl st)
  then show ?case by (simp add: rmatch.simps(5) step_rest)
next
  case (6 fl a b st)
  from "6.prems" obtain m where m: "m \<in> set (rmatch fl a st)" "st' \<in> set (rmatch fl b m)"
    by (auto simp: rmatch.simps(6))
  from "6.IH"(1)[OF m(1)] "6.IH"(2)[OF m(1) m(2)] show ?case by simp
next
  case (7 fl a b st)
  then show ?case by (auto simp: rmatch.simps(7))
next
  case (8 fl a st)
  from "8.prems" have "st' = st \<or> (\<exists>m \<in> set (rmatch fl a st).
      length (rest m) < length (rest st) \<and> st' \<in> set (rmatch fl (Star a) m))"
    by (subst (asm) rmatch.simps(8)) (auto split: if_splits)
  then show ?case
  proof
    assume "st' = st"
    then show ?thesis by simp
  next
    assume "\<exists>m \<in> set (rmatch fl a st).
      length (rest m) < length (rest st) \<and> st' \<in> set (rmatch fl (Star a) m)"
    then obtain m where m: "m \<in> set (rmatch fl a st)"
      "length (rest m) < length (rest st)" "st' \<in> set (rmatch fl (Star a) m)"
      by blast
    from "8.IH"(2)[OF m(1) m(2) m(3)] m(2) show ?thesis by simp
  qed
next
  case (9 fl a st)
  from "9.prems" have "st' = st \<or> (\<exists>m \<in> set (rmatch fl a st).
      length (rest m) < length (rest st) \<and> st' \<in> set (rmatch fl (StarLazy a) m))"
    by (subst (asm) rmatch.simps(9)) (auto split: if_splits)
  then show ?case
  proof
    assume "st' = st"
    then show ?thesis by simp
  next
    assume "\<exists>m \<in> set (rmatch fl a st).
      length (rest m) < length (rest st) \<and> st' \<in> set (rmatch fl (StarLazy a) m)"
    then obtain m where m: "m \<in> set (rmatch fl a st)"
      "length (rest m) < length (rest st)" "st' \<in> set (rmatch fl (StarLazy a) m)"
      by blast
    from "9.IH"(2)[OF m(1) m(2) m(3)] m(2) show ?thesis by simp
  qed
next
  case (10 fl a st)
  then show ?case by (auto simp: rmatch.simps(10))
next
  case (11 fl n a st)
  from "11.prems" obtain m where m: "m \<in> set (rmatch fl a st)" "rest st' = rest m"
    by (auto simp: rmatch.simps(11))
  from "11.IH"[OF m(1)] m(2) show ?case by simp
next
  case (12 fl st)
  then show ?case by (simp add: rmatch.simps(12) split: if_splits)
next
  case (13 fl st)
  then show ?case by (simp add: rmatch.simps(13) split: if_splits)
next
  case (14 fl a st)
  then show ?case by (simp add: rmatch.simps(14) split: if_splits)
qed

lemma rsearch_rest_le:
  "rsearch fl r p s = Some (b, st) \<Longrightarrow> length b + length (rest st) \<le> length s"
proof (induction s arbitrary: p b)
  case Nil
  then obtain sts where "rmatch fl r (MState p [] []) = st # sts" "b = []"
    by (auto split: list.splits)
  then have "st \<in> set (rmatch fl r (MState p [] []))" by simp
  from rmatch_rest_le[OF this] \<open>b = []\<close> show ?case by simp
next
  case (Cons c cs)
  show ?case
  proof (cases "rmatch fl r (MState p (c # cs) [])")
    case Nil
    with Cons.prems obtain b' where b': "rsearch fl r (Some c) cs = Some (b', st)" "b = c # b'"
      by (auto split: option.splits)
    from Cons.IH[OF b'(1)] b'(2) show ?thesis by simp
  next
    case (Cons st0 sts)
    with Cons.prems have "st = st0" "b = []" by auto
    with Cons have "st \<in> set (rmatch fl r (MState p (c # cs) []))" by simp
    from rmatch_rest_le[OF this] \<open>b = []\<close> show ?thesis by simp
  qed
qed

datatype piece = Keep string | Hit string "(nat \<times> string) list"

text \<open>
  \<open>scanAll\<close> is the loop of a regular expression with the \<open>g\<close> flag over a string:
  the successive matches, each search starting where the last match ended, one code unit
  further after an empty match.
\<close>

function scanAll :: "flags \<Rightarrow> rx \<Rightarrow> char option \<Rightarrow> string \<Rightarrow> piece list" where
  "scanAll fl r p s =
     (case rsearch fl r p s of
        None \<Rightarrow> [Keep s]
      | Some (b, st) \<Rightarrow>
          if length b + length (rest st) < length s
          then Keep b # Hit (matchedText s b st) (caps st) # scanAll fl r (prev st) (rest st)
          else (case rest st of
                  [] \<Rightarrow> [Keep b, Hit [] (caps st)]
                | c # cs \<Rightarrow> Keep b # Hit [] (caps st) # Keep [c] # scanAll fl r (Some c) cs))"
  by pat_completeness auto
termination
proof (relation "measure (\<lambda>(fl, r, p, s). length s)")
  show "wf (measure (\<lambda>(fl, r, p, s). length s))" by simp
next
  fix fl r p s x2 b st
  assume "rsearch fl r p s = Some x2" "(b, st) = x2"
    "length b + length (rest st) < length s"
  then show "((fl, r, prev st, rest st), (fl, r, p, s)) \<in> measure (\<lambda>(fl, r, p, s). length s)"
    by simp
next
  fix fl r p s x2 b st c cs
  assume a: "rsearch fl r p s = Some x2" "(b, st) = x2" "rest st = c # cs"
  then have "rsearch fl r p s = Some (b, st)" by simp
  from rsearch_rest_le[OF this] a(3)
  show "((fl, r, Some c, cs), (fl, r, p, s)) \<in> measure (\<lambda>(fl, r, p, s). length s)"
    by simp
qed

declare scanAll.simps [simp del]


fun hits :: "piece list \<Rightarrow> (string \<times> (nat \<times> string) list) list" where
  "hits [] = []"
| "hits (Keep s # ps) = hits ps"
| "hits (Hit m cs # ps) = (m, cs) # hits ps"

fun rebuild :: "(string \<Rightarrow> (nat \<times> string) list \<Rightarrow> string) \<Rightarrow> piece list \<Rightarrow> string" where
  "rebuild repl [] = []"
| "rebuild repl (Keep s # ps) = s @ rebuild repl ps"
| "rebuild repl (Hit m cs # ps) = repl m cs @ rebuild repl ps"

text \<open>\<open>String.prototype.replace\<close> and \<open>String.prototype.match\<close> with the \<open>g\<close> flag.\<close>

definition replaceAll ::
  "flags \<Rightarrow> rx \<Rightarrow> (string \<Rightarrow> (nat \<times> string) list \<Rightarrow> string) \<Rightarrow> string \<Rightarrow> string" where
  "replaceAll fl r repl s = rebuild repl (scanAll fl r None s)"

definition matchAll :: "flags \<Rightarrow> rx \<Rightarrow> string \<Rightarrow> (string \<times> (nat \<times> string) list) list" where
  "matchAll fl r s = hits (scanAll fl r None s)"


section \<open>Data model (types.ts)\<close>

text \<open>
  The interfaces of \<open>types.ts\<close>. An optional field is an \<open>option\<close>; a union of string
  literals is a datatype. Field names carry a prefix, since several interfaces share the
  names \<open>path\<close>, \<open>name\<close>, \<open>type\<close> and \<open>description\<close>, and the source's local
  variables reuse names of fields.
\<close>

record FileContext =
  fc_path :: string
  fc_content :: string
  fc_language :: "string option"
  fc_size :: "nat option"

datatype ModuleType = Component | Service | Utility | Model | Controller | View | Config
  | Test | Other

datatype Layer = Presentation | Business | Data | Infrastructure | OtherLayer

record Module =
  m_name :: string
  m_path :: string
  m_type :: ModuleType
  m_layer :: "Layer option"
  m_description :: "string option"
  m_exports :: "string list option"
  m_imports :: "string list option"

datatype RelType = Imports | Extends | Implements | Uses | Calls | Depends | Aggregates
  | Composes

datatype Strength = Weak | Medium | Strong

record Relationship =
  r_from :: string
  r_to :: string
  r_type :: RelType
  r_strength :: "Strength option"
  r_description :: "string option"

datatype PatternName = MVC | Layered | Microservices | EventDriven | ClientServer
  | Monolithic | Unknown

text \<open>
  A confidence is a JavaScript number that the code only compares and tests for zero; it
  is modelled as a rational.
\<close>

record ArchitecturalPattern =
  p_name :: PatternName
  p_confidence :: rat
  p_description :: string

record LayerGroup =
  l_name :: string
  l_modules :: "string list"

record ArchitectureAnalysis =
  a_modules :: "Module list"
  a_relationships :: "Relationship list"
  a_summary :: string
  a_pattern :: "ArchitecturalPattern option"
  a_layers :: "LayerGroup list option"
  a_entryPoints :: "string list option"
  a_coreComponents :: "string list option"
  a_raw :: "string option"

section \<open>FileSelector (fileSelector.ts)\<close>

type_synonym regexp = "flags \<times> rx"

definition testP :: "regexp \<Rightarrow> string \<Rightarrow> bool" where
  "testP p s = test (fst p) (snd p) s"

text \<open>The alternation \<open>(ts|tsx|js|jsx)\<close>, capture group \<open>n\<close>.\<close>

definition sourceExt :: "nat \<Rightarrow> rx" where
  "sourceExt n = Cap n (alts [lits ''ts'', lits ''tsx'', lits ''js'', lits ''jsx''])"

definition entryPointPatterns :: "regexp list" where
  "entryPointPatterns =
    [(flagI, seqs [Bol, Opt (Cap 1 (lits ''src/'')),
                   Cap 2 (alts [lits ''index'', lits ''main'', lits ''app'', lits ''server'',
                                lits ''entry'']),
                   Lit CHR ''.'', sourceExt 3, Eol]),
     (flagI, seqs [Bol, Opt (Cap 1 (lits ''src/'')),
                   Cap 2 (alts [lits ''index'', lits ''main'', lits ''app'', lits ''server'',
                                lits ''entry'']),
                   Lit CHR ''.'', sourceExt 3, Eol]),
     (noFlags, seqs [lits ''package'', Lit CHR ''.'', lits ''json'', Eol]),
     (flagI, seqs [Bol, Opt (Cap 1 (lits ''src/'')), lits ''app'', Lit CHR ''.'',
                   sourceExt 2, Eol]),
     (flagI, seqs [Bol, Opt (Cap 1 (lits ''src/'')), lits ''server'', Lit CHR ''.'',
                   sourceExt 2, Eol])]"

definition findEntryPoints :: "FileContext list \<Rightarrow> string list" where
  "findEntryPoints files =
     fold (\<lambda>file entryPoints.
             let fileName = lastSegment (fc_path file);
                 path = toLowerCase (fc_path file)
             in if list_ex (\<lambda>pattern. testP pattern fileName \<or> testP pattern path)
                           entryPointPatterns
                then addUnique (fc_path file) entryPoints else entryPoints)
          files []"

definition corePatterns :: "regexp list" where
  "corePatterns =
    [(flagI, seqs [Lit CHR ''/'', lits ''service'', Opt (Lit CHR ''s''), Lit CHR ''/'']),
     (flagI, seqs [Lit CHR ''/'', lits ''core'', Lit CHR ''/'']),
     (flagI, seqs [Lit CHR ''/'', lits ''util'', Opt (Lit CHR ''s''), Lit CHR ''/'']),
     (flagI, seqs [Lit CHR ''/'', lits ''model'', Opt (Lit CHR ''s''), Lit CHR ''/'']),
     (flagI, seqs [Lit CHR ''/'', lits ''lib'', Lit CHR ''/'']),
     (flagI, seqs [lits ''service'', Lit CHR ''.'', sourceExt 1, Eol]),
     (flagI, seqs [lits ''util'', Lit CHR ''.'', sourceExt 1, Eol])]"

definition findCoreFiles :: "FileContext list \<Rightarrow> string list" where
  "findCoreFiles files =
     fold (\<lambda>file coreFiles.
             let path = toLowerCase (fc_path file)
             in if list_ex (\<lambda>pattern. testP pattern path) corePatterns
                then addUnique (fc_path file) coreFiles else coreFiles)
          files []"

definition quoteChar :: rx where
  "quoteChar = Set [CChar sq, CChar dq]"

definition notQuote :: rx where
  "notQuote = NSet [CChar sq, CChar dq]"

definition spaces0 :: rx where
  "spaces0 = Star (Set [CSpace])"

definition spaces1 :: rx where
  "spaces1 = OneOrMore (Set [CSpace])"

text \<open>One import clause: \<open>\{[^}]*\}|\*\s+as\s+\w+|\w+\<close>.\<close>

definition importClause :: rx where
  "importClause =
     alts [seqs [Lit CHR ''{'', Star (NSet [CChar CHR ''}'']), Lit CHR ''}''],
           seqs [Lit CHR ''*'', spaces1, lits ''as'', spaces1, OneOrMore (Set [CWord])],
           OneOrMore (Set [CWord])]"

definition es6ImportRegex :: rx where
  "es6ImportRegex =
     seqs [lits ''import'', spaces1,
           Opt (seqs [importClause,
                      Star (seqs [spaces0, Lit CHR '','', spaces0, importClause]),
                      spaces1, lits ''from'', spaces1]),
           quoteChar, Cap 1 (OneOrMore notQuote), quoteChar]"

definition requireRegex :: rx where
  "requireRegex =
     seqs [lits ''require'', spaces0, Lit CHR ''('', spaces0,
           quoteChar, Cap 1 (OneOrMore notQuote), quoteChar, spaces0, Lit CHR '')'']"

text \<open>
  The two \<open>exec\<close> loops of \<open>extractImports\<close>; both patterns consume at least one code
  unit whenever they match, so each loop is the sequence of successive matches.
\<close>

definition extractImports :: "string \<Rightarrow> string \<Rightarrow> string list" where
  "extractImports content filePath =
     map (\<lambda>m. getCap 1 (snd m)) (matchAll noFlags es6ImportRegex content)
     @ map (\<lambda>m. getCap 1 (snd m)) (matchAll noFlags requireRegex content)"

definition stripSourceExt :: "string \<Rightarrow> string" where
  "stripSourceExt s =
     replaceFirst noFlags (seqs [Lit CHR ''.'', sourceExt 1, Eol]) (\<lambda>m cs. []) s"

definition resolveRelativePath :: "string \<Rightarrow> string \<Rightarrow> string" where
  "resolveRelativePath importPath fromDir =
     fold (\<lambda>part currentDir.
             if part = ''.'' then currentDir
             else if part = ''..''
             then substring currentDir 0 (lastIndexOf currentDir CHR ''/'')
             else if currentDir \<noteq> [] then currentDir @ ''/'' @ part else part)
          (split importPath CHR ''/'') fromDir"

definition resolveImport :: "string \<Rightarrow> string \<Rightarrow> FileContext list \<Rightarrow> string option" where
  "resolveImport importPath fromFile files =
     (let cleanImport = stripSourceExt importPath
      in if startsWith cleanImport ''.''
         then (let fromDir = substring fromFile 0 (lastIndexOf fromFile CHR ''/'');
                   resolved = resolveRelativePath cleanImport fromDir
               in map_option fc_path
                    (find (\<lambda>file. let filePathNoExt = stripSourceExt (fc_path file)
                                  in filePathNoExt = resolved
                                     \<or> endsWith filePathNoExt (''/'' @ resolved))
                          files))
         else (let importName = lastSegment cleanImport
               in map_option fc_path
                    (find (\<lambda>file. stripSourceExt (lastSegment (fc_path file)) = importName)
                          files)))"

record GraphNode =
  g_imports :: "string list"
  g_importedBy :: "string list"

definition initGraph :: "FileContext list \<Rightarrow> (string \<rightharpoonup> GraphNode)" where
  "initGraph files =
     fold (\<lambda>file graph. graph(fc_path file \<mapsto> \<lparr>g_imports = [], g_importedBy = []\<rparr>))
          files Map.empty"

definition addImport ::
  "FileContext list \<Rightarrow> FileContext \<Rightarrow> string \<Rightarrow> (string \<rightharpoonup> GraphNode) \<Rightarrow> (string \<rightharpoonup> GraphNode)" where
  "addImport files file imp graph =
     (case graph (fc_path file) of
        None \<Rightarrow> graph
      | Some node \<Rightarrow>
          (let graph1 = graph(fc_path file \<mapsto> node\<lparr>g_imports := addUnique imp (g_imports node)\<rparr>)
           in case resolveImport imp (fc_path file) files of
                None \<Rightarrow> graph1
              | Some targetFile \<Rightarrow>
                  if targetFile \<noteq> [] \<and> targetFile \<noteq> fc_path file
                  then (case graph1 targetFile of
                          None \<Rightarrow> graph1
                        | Some targetNode \<Rightarrow>
                            graph1(targetFile \<mapsto> targetNode\<lparr>g_importedBy :=
                                     addUnique (fc_path file) (g_importedBy targetNode)\<rparr>))
                  else graph1))"

definition buildImportGraph :: "FileContext list \<Rightarrow> (string \<rightharpoonup> GraphNode)" where
  "buildImportGraph files =
     fold (\<lambda>file graph.
             fold (addImport files file) (extractImports (fc_content file) (fc_path file)) graph)
          files (initGraph files)"

definition configPatterns :: "regexp list" where
  "configPatterns =
    [(flagI, seqs [lits ''config'', Lit CHR ''.'', sourceExt 1, Eol]),
     (flagI, seqs [Lit CHR ''.'', lits ''config'', Lit CHR ''.'', sourceExt 1, Eol]),
     (flagI, seqs [lits ''package'', Lit CHR ''.'', lits ''json'', Eol]),
     (flagI, seqs [lits ''tsconfig'', Lit CHR ''.'', lits ''json'', Eol]),
     (flagI, seqs [lits ''webpack'', Lit CHR ''.'', lits ''config'', Lit CHR ''.'',
                   sourceExt 1, Eol])]"

definition isConfigFile :: "string \<Rightarrow> bool" where
  "isConfigFile path = list_ex (\<lambda>pattern. testP pattern path) configPatterns"

definition isServiceFile :: "string \<Rightarrow> bool" where
  "isServiceFile path =
     (test flagI (seqs [lits ''service'', Lit CHR ''.'', sourceExt 1, Eol]) path
      \<or> test flagI (seqs [Lit CHR ''/'', lits ''service'', Opt (Lit CHR ''s''), Lit CHR ''/''])
              (toLowerCase path))"

definition isTestFile :: "string \<Rightarrow> bool" where
  "isTestFile path =
     (test flagI (seqs [lits ''test'', Lit CHR ''.'', sourceExt 1, Eol]) path
      \<or> test flagI (seqs [lits ''spec'', Lit CHR ''.'', sourceExt 1, Eol]) path
      \<or> test flagI (seqs [Lit CHR ''.'', lits ''test'', Lit CHR ''.'', sourceExt 1, Eol]) path
      \<or> test flagI (seqs [Lit CHR ''.'', lits ''spec'', Lit CHR ''.'', sourceExt 1, Eol]) path
      \<or> test flagI (seqs [Lit CHR ''/'', lits ''test'']) (toLowerCase path)
      \<or> test flagI (seqs [Lit CHR ''/'', lits ''spec'']) (toLowerCase path))"

definition nodeCount :: "(GraphNode \<Rightarrow> string list) \<Rightarrow> (string \<rightharpoonup> GraphNode) \<Rightarrow> string \<Rightarrow> int" where
  "nodeCount field graph path =
     (case graph path of None \<Rightarrow> 0 | Some node \<Rightarrow> int (length (field node)))"

definition scoreFile ::
  "string list \<Rightarrow> string list \<Rightarrow> (string \<rightharpoonup> GraphNode) \<Rightarrow> FileContext \<Rightarrow> int" where
  "scoreFile entryPoints coreFiles importGraph file =
     (if fc_path file \<in> set entryPoints then 100 else 0)
     + (if fc_path file \<in> set coreFiles then 80 else 0)
     + nodeCount g_importedBy importGraph (fc_path file) * 5
     + nodeCount g_imports importGraph (fc_path file) * 3
     + (if isConfigFile (fc_path file) then 50 else 0)
     + (if isServiceFile (fc_path file) then 30 else 0)
     - (if isTestFile (fc_path file) then 20 else 0)
     + (if includesStr (fc_path file) ''/src/'' \<or> includesStr (fc_path file) ''/lib/''
        then 10 else 0)"

definition fileScores :: "FileContext list \<Rightarrow> (string \<rightharpoonup> int)" where
  "fileScores files =
     (let entryPoints = findEntryPoints files;
          coreFiles = findCoreFiles files;
          importGraph = buildImportGraph files
      in fold (\<lambda>file scores.
                 scores(fc_path file \<mapsto> scoreFile entryPoints coreFiles importGraph file))
              files Map.empty)"

definition getScore :: "(string \<rightharpoonup> int) \<Rightarrow> FileContext \<Rightarrow> int" where
  "getScore scores file = (case scores (fc_path file) of None \<Rightarrow> 0 | Some s \<Rightarrow> s)"

text \<open>
  \<open>Array.prototype.sort\<close> is stable, and the comparator \<open>scoreB - scoreA\<close> orders by
  descending score: a stable sort on the negated score.
\<close>

definition sortedFiles :: "FileContext list \<Rightarrow> FileContext list" where
  "sortedFiles files = sort_key (\<lambda>file. - getScore (fileScores files) file) files"

definition pushEntryPoint ::
  "FileContext list \<Rightarrow> string \<Rightarrow> FileContext list \<times> string list
     \<Rightarrow> FileContext list \<times> string list" where
  "pushEntryPoint files path acc =
     (if path \<notin> set (snd acc)
      then (case find (\<lambda>f. fc_path f = path) files of
              None \<Rightarrow> acc
            | Some file \<Rightarrow> (fst acc @ [file], snd acc @ [path]))
      else acc)"

definition selectImportantFiles :: "FileContext list \<Rightarrow> nat \<Rightarrow> FileContext list" where
  "selectImportantFiles files maxFiles =
     (if length files \<le> maxFiles then files
      else (let entryPoints = findEntryPoints files;
                selected = take maxFiles (sortedFiles files);
                selectedPaths = map fc_path selected;
                selected' = fst (fold (pushEntryPoint files) entryPoints
                                      (selected, selectedPaths))
            in take maxFiles selected'))"


section \<open>OllamaClient: path heuristics and the fallback fragment (ollamaClient.ts)\<close>

text \<open>
  \<open>path.split('/').pop()?.replace(/\.[^/.]+$/, '') || path\<close>: the last path segment
  without its extension, or the whole path when that is empty.
\<close>

definition moduleName :: "string \<Rightarrow> string" where
  "moduleName path =
     (let n = replaceFirst noFlags
                (seqs [Lit CHR ''.'', OneOrMore (NSet [CChar CHR ''/'', CChar CHR ''.'']), Eol])
                (\<lambda>m cs. []) (lastSegment path)
      in if n \<noteq> [] then n else path)"

definition inferModuleType :: "string \<Rightarrow> ModuleType" where
  "inferModuleType path =
     (let lower = toLowerCase path
      in if includesStr lower ''test'' then Test
         else if includesStr lower ''controller'' then Controller
         else if includesStr lower ''service'' then Service
         else if includesStr lower ''model'' then Model
         else if includesStr lower ''view'' \<or> includesStr lower ''component'' then View
         else if includesStr lower ''util'' then Utility
         else if includesStr lower ''config'' then Config
         else if includesStr lower ''component'' then Component
         else Other)"

definition inferLayer :: "string \<Rightarrow> Layer" where
  "inferLayer path =
     (let lower = toLowerCase path
      in if includesStr lower ''view'' \<or> includesStr lower ''component''
            \<or> includesStr lower ''page'' \<or> includesStr lower ''ui''
         then Presentation
         else if includesStr lower ''service'' \<or> includesStr lower ''business''
                 \<or> includesStr lower ''logic''
         then Business
         else if includesStr lower ''model'' \<or> includesStr lower ''data''
                 \<or> includesStr lower ''db'' \<or> includesStr lower ''database''
         then Data
         else if includesStr lower ''config'' \<or> includesStr lower ''infrastructure''
                 \<or> includesStr lower ''infra''
         then Infrastructure
         else OtherLayer)"

text \<open>The pattern \<open>(?:\/\/|#|<!--)\s*(.+?)(?:\n|$)\<close> of \<open>inferDescription\<close>.\<close>

definition commentRegex :: rx where
  "commentRegex =
     seqs [alts [lits ''//'', Lit CHR ''#'', lits ''<!--''], spaces0,
           Cap 1 (OneOrMoreLazy Dot), alts [Lit nl, Eol]]"

definition inferDescription :: "string \<Rightarrow> string \<Rightarrow> string" where
  "inferDescription path content =
     (let lines = take 10 (split content nl)
      in case matchFirst noFlags commentRegex (join lines [nl]) of
           None \<Rightarrow> []
         | Some commentMatch \<Rightarrow> substring (trim (getCap 1 (snd commentMatch))) 0 100)"

definition fallbackModule :: "FileContext \<Rightarrow> Module" where
  "fallbackModule f =
     \<lparr>m_name = moduleName (fc_path f),
      m_path = fc_path f,
      m_type = inferModuleType (fc_path f),
      m_layer = Some (inferLayer (fc_path f)),
      m_description = Some (inferDescription (fc_path f) (fc_content f)),
      m_exports = None,
      m_imports = None\<rparr>"

definition createFallbackAnalysis :: "FileContext list \<Rightarrow> ArchitectureAnalysis" where
  "createFallbackAnalysis chunkFiles =
     \<lparr>a_modules = map fallbackModule chunkFiles,
      a_relationships = [],
      a_summary = ''Fallback analysis for '' @ showNat (length chunkFiles) @ '' files'',
      a_pattern = Some \<lparr>p_name = Unknown, p_confidence = 0,
                         p_description = ''Chunk analysis failed''\<rparr>,
      a_layers = Some [],
      a_entryPoints = Some [],
      a_coreComponents = Some [],
      a_raw = None\<rparr>"

section \<open>OllamaClient: the heuristic pattern classifier\<close>

text \<open>
  The ten flags that \<open>inferArchitecturalPattern\<close> sets in one pass over the modules.
  \<open>hasRoutes\<close> and \<open>hasFlask\<close> feed the Flask rule.
\<close>

record Signals =
  hasControllers :: bool
  hasViews :: bool
  hasModels :: bool
  hasServices :: bool
  hasLayers :: bool
  hasComponents :: bool
  hasRoutes :: bool
  hasFlask :: bool
  hasReact :: bool
  hasNext :: bool

definition noSignals :: Signals where
  "noSignals =
     \<lparr>hasControllers = False, hasViews = False, hasModels = False, hasServices = False,
      hasLayers = False, hasComponents = False, hasRoutes = False, hasFlask = False,
      hasReact = False, hasNext = False\<rparr>"

definition scanModule :: "Module \<Rightarrow> Signals \<Rightarrow> Signals" where
  "scanModule m s =
     (let path = toLowerCase (m_path m);
          name = toLowerCase (m_name m);
          type = m_type m
      in s\<lparr>hasControllers := hasControllers s \<or> type = Controller
                \<or> includesStr path ''controller'' \<or> includesStr name ''controller'',
            hasViews := hasViews s \<or> type = View \<or> includesStr path ''view''
                \<or> includesStr name ''view'' \<or> includesStr path ''component'',
            hasModels := hasModels s \<or> type = Model \<or> includesStr path ''model''
                \<or> includesStr name ''model'',
            hasServices := hasServices s \<or> type = Service \<or> includesStr path ''service''
                \<or> includesStr name ''service'',
            hasComponents := hasComponents s \<or> type = Component
                \<or> includesStr path ''component'',
            hasRoutes := hasRoutes s \<or> includesStr path ''route'' \<or> includesStr path ''api/'',
            hasLayers := hasLayers s \<or> (m_layer m \<noteq> None \<and> m_layer m \<noteq> Some OtherLayer),
            hasFlask := hasFlask s \<or> includesStr path ''flask'' \<or> includesStr path ''app.py''
                \<or> includesStr path ''main.py'',
            hasReact := hasReact s \<or> includesStr path ''react'' \<or> includesStr path ''.jsx''
                \<or> includesStr path ''.tsx'',
            hasNext := hasNext s \<or> includesStr path ''next'' \<or> includesStr path ''pages''
                \<or> includesStr path ''app/''\<rparr>)"

definition scanModules :: "Module list \<Rightarrow> Signals" where
  "scanModules ms = fold scanModule ms noSignals"

definition mkPattern :: "PatternName \<Rightarrow> rat \<Rightarrow> string \<Rightarrow> ArchitecturalPattern" where
  "mkPattern n c d = \<lparr>p_name = n, p_confidence = c, p_description = d\<rparr>"

text \<open>
  \<open>relationships.length > modules.length * 0.5\<close> is written without the fraction:
  twice the number of relationships exceeds the number of modules.
\<close>

definition inferArchitecturalPattern :: "ArchitectureAnalysis \<Rightarrow> ArchitecturalPattern" where
  "inferArchitecturalPattern analysis =
     (let ms = a_modules analysis;
          rels = a_relationships analysis;
          s = scanModules ms
      in if hasControllers s \<and> hasViews s \<and> hasModels s
         then mkPattern MVC (85 / 100)
                ''Detected Model-View-Controller pattern with clear separation of concerns''
         else if hasLayers s \<or> (hasServices s \<and> hasModels s \<and> hasViews s)
         then mkPattern Layered (75 / 100)
                ''Detected layered architecture with separation of concerns across multiple layers''
         else if hasNext s \<or> (hasReact s \<and> hasComponents s)
         then mkPattern Layered (7 / 10)
                ''Detected component-based architecture typical of React/Next.js applications''
         else if hasFlask s \<and> hasRoutes s
         then mkPattern Layered (7 / 10)
                ''Detected Flask-based web application with layered structure''
         else if hasServices s \<and> length ms > 5 \<and> 2 * length rels > length ms
         then mkPattern Microservices (6 / 10)
                ''Detected potential microservices architecture with multiple service modules''
         else if length ms > 3 \<and> (hasServices s \<or> hasModels s \<or> hasViews s)
         then mkPattern Layered (6 / 10)
                ''Detected layered architecture based on module types and structure''
         else mkPattern Unknown (3 / 10)
                ''Could not confidently determine architectural pattern from available information'')"

section \<open>OllamaClient: the merge engine\<close>

definition layerString :: "Layer \<Rightarrow> string" where
  "layerString l =
     (case l of Presentation \<Rightarrow> ''presentation'' | Business \<Rightarrow> ''business''
      | Data \<Rightarrow> ''data'' | Infrastructure \<Rightarrow> ''infrastructure'' | OtherLayer \<Rightarrow> ''other'')"

definition capitalize :: "string \<Rightarrow> string" where
  "capitalize name = (case name of [] \<Rightarrow> [] | c # cs \<Rightarrow> toUpperChar c # cs)"

fun pushTo :: "string \<Rightarrow> string \<Rightarrow> (string \<times> string list) list \<Rightarrow> (string \<times> string list) list" where
  "pushTo key v [] = [(key, [v])]"
| "pushTo key v ((k, vs) # kvs) =
     (if k = key then (k, vs @ [v]) # kvs else (k, vs) # pushTo key v kvs)"

definition groupByLayers :: "Module list \<Rightarrow> LayerGroup list" where
  "groupByLayers ms =
     map (\<lambda>entry. \<lparr>l_name = capitalize (fst entry), l_modules = snd entry\<rparr>)
         (fold (\<lambda>m layerMap.
                  pushTo (case m_layer m of None \<Rightarrow> ''other'' | Some l \<Rightarrow> layerString l)
                         (m_path m) layerMap)
               ms [])"

definition mergeWithAllFiles ::
  "Module list \<Rightarrow> FileContext list \<Rightarrow> FileContext list \<Rightarrow> Module list" where
  "mergeWithAllFiles analyzedModules allFiles selectedFiles =
     (let analyzedPaths = map m_path analyzedModules
      in fold (\<lambda>file allModules.
                 if fc_path file \<notin> set analyzedPaths
                 then allModules @ [fallbackModule file] else allModules)
              allFiles analyzedModules)"

definition resolveRelativePathC :: "string \<Rightarrow> string \<Rightarrow> string" where
  "resolveRelativePathC relativePath baseDir =
     (if startsWith relativePath ''./''
      then baseDir @ ''/'' @ substringFrom relativePath 2
      else if startsWith relativePath ''../''
      then join (pop (split baseDir CHR ''/'')) ''/'' @ ''/'' @ substringFrom relativePath 3
      else relativePath)"

text \<open>The replacement \<open>/\.(js|ts|tsx|jsx|py)$/\<close> of \<open>resolveImportPath\<close>.\<close>

definition stripScriptExt :: "string \<Rightarrow> string" where
  "stripScriptExt s =
     replaceFirst noFlags
       (seqs [Lit CHR ''.'',
              Cap 1 (alts [lits ''js'', lits ''ts'', lits ''tsx'', lits ''jsx'', lits ''py'']), Eol])
       (\<lambda>m cs. []) s"

definition resolveImportPath :: "string \<Rightarrow> string \<Rightarrow> FileContext list \<Rightarrow> string option" where
  "resolveImportPath importPath fromPath files =
     (let pathParts = pop (split fromPath CHR ''/'');
          relativePath = (if startsWith importPath ''./'' \<or> startsWith importPath ''../''
                          then resolveRelativePathC importPath (join pathParts ''/'')
                          else importPath)
      in case find (\<lambda>f. fc_path f = relativePath
                         \<or> endsWith (fc_path f) relativePath
                         \<or> includesStr (fc_path f) (stripScriptExt relativePath))
                   files of
           None \<Rightarrow> None
         | Some matchingFile \<Rightarrow>
             if fc_path matchingFile \<noteq> [] then Some (fc_path matchingFile) else None)"

definition relKey :: "string \<Rightarrow> string \<Rightarrow> string" where
  "relKey from to = from @ ''->'' @ to"

text \<open>
  The patterns \<open>(?:import|from|require)\s+['"]([^'"]+)['"]\<close> and
  \<open>['"]([^'"]+)['"]\<close> of \<open>inferAllRelationships\<close>.
\<close>

definition importStatementRegex :: rx where
  "importStatementRegex =
     seqs [alts [lits ''import'', lits ''from'', lits ''require''], spaces1,
           quoteChar, Cap 1 (OneOrMore notQuote), quoteChar]"

definition quotedRegex :: rx where
  "quotedRegex = seqs [quoteChar, Cap 1 (OneOrMore notQuote), quoteChar]"

definition importEdge :: "string \<Rightarrow> string \<Rightarrow> Relationship" where
  "importEdge from to =
     \<lparr>r_from = from, r_to = to, r_type = Imports, r_strength = Some Medium,
      r_description = Some (''Imports from '' @ to)\<rparr>"

definition addImportEdge ::
  "Module list \<Rightarrow> FileContext list \<Rightarrow> FileContext \<Rightarrow> string
     \<Rightarrow> Relationship list \<times> string list \<Rightarrow> Relationship list \<times> string list" where
  "addImportEdge allModules allFiles file imp acc =
     (case matchFirst noFlags quotedRegex imp of
        None \<Rightarrow> acc
      | Some m \<Rightarrow>
          (case resolveImportPath (getCap 1 (snd m)) (fc_path file) allFiles of
             None \<Rightarrow> acc
           | Some resolvedPath \<Rightarrow>
               if resolvedPath \<noteq> [] \<and> resolvedPath \<in> set (map m_path allModules)
                  \<and> resolvedPath \<noteq> fc_path file
               then (let key = relKey (fc_path file) resolvedPath
                     in if key \<notin> set (snd acc)
                        then (fst acc @ [importEdge (fc_path file) resolvedPath], snd acc @ [key])
                        else acc)
               else acc))"

definition fileImports :: "FileContext \<Rightarrow> string list" where
  "fileImports file =
     map fst (matchAll noFlags importStatementRegex (substring (fc_content file) 0 10000))"

definition inferAllRelationships ::
  "Module list \<Rightarrow> FileContext list \<Rightarrow> Relationship list \<Rightarrow> Relationship list" where
  "inferAllRelationships allModules allFiles existingRelationships =
     fst (fold (\<lambda>file acc. fold (addImportEdge allModules allFiles file) (fileImports file) acc)
               allFiles
               (existingRelationships,
                map (\<lambda>r. relKey (r_from r) (r_to r)) existingRelationships))"

definition mergeModules :: "ArchitectureAnalysis list \<Rightarrow> Module list" where
  "mergeModules chunkResults =
     fold (\<lambda>chunk moduleMap.
             fold (\<lambda>m mm. if m_path m \<notin> set (map m_path mm) then mm @ [m] else mm)
                  (a_modules chunk) moduleMap)
          chunkResults []"

definition addRelationship ::
  "Relationship \<Rightarrow> Relationship list \<times> string list \<Rightarrow> Relationship list \<times> string list" where
  "addRelationship rel acc =
     (let key = relKey (r_from rel) (r_to rel)
      in if key \<notin> set (snd acc) then (fst acc @ [rel], snd acc @ [key]) else acc)"

definition mergeRelationships :: "ArchitectureAnalysis list \<Rightarrow> Relationship list" where
  "mergeRelationships chunkResults =
     fst (fold (\<lambda>chunk acc. fold addRelationship (a_relationships chunk) acc)
               chunkResults ([], []))"

definition combinedSummary :: "ArchitectureAnalysis list \<Rightarrow> FileContext list \<Rightarrow> string" where
  "combinedSummary chunkResults allFiles =
     (let summaries = filter (\<lambda>s. s \<noteq> []) (map a_summary chunkResults)
      in if length summaries > 0 then join summaries '' ''
         else ''Analyzed '' @ showNat (length allFiles) @ '' files across ''
              @ showNat (length chunkResults) @ '' chunks'')"

definition candidatePatterns :: "ArchitectureAnalysis list \<Rightarrow> ArchitecturalPattern list" where
  "candidatePatterns chunkResults =
     concat (map (\<lambda>c. case a_pattern c of
                         None \<Rightarrow> []
                       | Some p \<Rightarrow> if p_name p \<noteq> Unknown then [p] else [])
                 chunkResults)"

definition betterPattern :: "ArchitecturalPattern \<Rightarrow> ArchitecturalPattern \<Rightarrow> ArchitecturalPattern" where
  "betterPattern best current =
     (if p_confidence current > p_confidence best then current else best)"

definition bestPattern :: "ArchitectureAnalysis list \<Rightarrow> ArchitecturalPattern" where
  "bestPattern chunkResults =
     (case candidatePatterns chunkResults of
        [] \<Rightarrow> mkPattern Unknown 0 ''Could not determine pattern''
      | p # ps \<Rightarrow> foldl betterPattern p ps)"

definition collectSet :: "(ArchitectureAnalysis \<Rightarrow> string list option) \<Rightarrow> ArchitectureAnalysis list \<Rightarrow> string list" where
  "collectSet field chunkResults =
     fold (\<lambda>chunk acc. case field chunk of None \<Rightarrow> acc | Some xs \<Rightarrow> fold addUnique xs acc)
          chunkResults []"

text \<open>
  \<open>mergeChunkResults\<close> also merges the fragments' layer groups into a local \<open>layers\<close>
  that it never reads again: the layers it returns are \<open>groupByLayers(allModules)\<close>. The
  unused local is left out.
\<close>

definition mergeChunkResults ::
  "ArchitectureAnalysis list \<Rightarrow> FileContext list \<Rightarrow> FileContext list \<Rightarrow> ArchitectureAnalysis" where
  "mergeChunkResults chunkResults allFiles selectedFiles =
     (let moduleMap = mergeModules chunkResults;
          rels = mergeRelationships chunkResults;
          allModules = mergeWithAllFiles moduleMap allFiles selectedFiles;
          allRelationships = inferAllRelationships allModules allFiles rels
      in \<lparr>a_modules = allModules,
          a_relationships = allRelationships,
          a_summary = combinedSummary chunkResults allFiles,
          a_pattern = Some (bestPattern chunkResults),
          a_layers = Some (groupByLayers allModules),
          a_entryPoints = Some (collectSet a_entryPoints chunkResults),
          a_coreComponents = Some (collectSet a_coreComponents chunkResults),
          a_raw = None\<rparr>)"


section \<open>OllamaClient: the fault-tolerant decoder\<close>

definition fence :: rx where
  "fence = seqs [Lit btick, Lit btick, Lit btick]"

text \<open>
  Lines 516 to 537: the markdown fences are removed (four replacements with the flags
  \<open>gim\<close>), then the text before the first \<open>{\<close> and after the last \<open>}\<close>. The index of
  the last brace is taken before the prefix is cut and used after it, as in the source.
\<close>

definition cleanResponse :: "string \<Rightarrow> string" where
  "cleanResponse fullResponse =
     (let c0 = trim fullResponse;
          c1 = replaceAll flagIM (seqs [Bol, fence, lits ''json'', spaces0]) (\<lambda>m cs. []) c0;
          c2 = replaceAll flagIM (seqs [Bol, fence, spaces0]) (\<lambda>m cs. []) c1;
          c3 = replaceAll flagIM (seqs [fence, Eol]) (\<lambda>m cs. []) c2;
          c4 = replaceAll flagIM (seqs [fence, lits ''json'', Eol]) (\<lambda>m cs. []) c3;
          c5 = trim c4;
          firstBraceIdx = indexOf c5 CHR ''{'';
          lastBraceIdx = lastIndexOf c5 CHR ''}'';
          c6 = (if firstBraceIdx > 0 then substringFrom c5 firstBraceIdx else c5);
          c7 = (if lastBraceIdx \<ge> 0 \<and> lastBraceIdx < int (length c6) - 1
                then substring c6 0 (lastBraceIdx + 1) else c6)
      in trim c7)"

text \<open>
  The loop of lines 550 to 579 over the code units from the first brace: the index of the
  brace that closes the first one, outside string literals, or \<open>-1\<close>.
\<close>

fun scanBraces :: "string \<Rightarrow> int \<Rightarrow> int \<Rightarrow> bool \<Rightarrow> bool \<Rightarrow> int" where
  "scanBraces [] i braceCount inString escapeNext = -1"
| "scanBraces (c # cs) i braceCount inString escapeNext =
     (if escapeNext then scanBraces cs (i + 1) braceCount inString False
      else if c = bslash then scanBraces cs (i + 1) braceCount inString True
      else if c = dq then scanBraces cs (i + 1) braceCount (\<not> inString) escapeNext
      else if \<not> inString
      then (if c = CHR ''{'' then scanBraces cs (i + 1) (braceCount + 1) inString escapeNext
            else if c = CHR ''}''
            then (if braceCount - 1 = 0 then i
                  else scanBraces cs (i + 1) (braceCount - 1) inString escapeNext)
            else scanBraces cs (i + 1) braceCount inString escapeNext)
      else scanBraces cs (i + 1) braceCount inString escapeNext)"

definition extractJson :: "string \<Rightarrow> string" where
  "extractJson cleanJson =
     (let firstBrace = indexOf cleanJson CHR ''{'';
          lastBrace = (if firstBrace \<noteq> -1
                       then scanBraces (substringFrom cleanJson firstBrace) firstBrace 0 False False
                       else -1);
          jsonString = (if firstBrace \<noteq> -1 \<and> lastBrace \<noteq> -1 \<and> lastBrace > firstBrace
                        then substring cleanJson firstBrace (lastBrace + 1) else cleanJson)
      in if \<not> startsWith (trim jsonString) ''{'' \<or> length (trim jsonString) < 10
         then (let firstBrace2 = indexOf cleanJson CHR ''{'';
                   lastBrace2 = lastIndexOf cleanJson CHR ''}''
               in if firstBrace2 \<noteq> -1 \<and> lastBrace2 \<noteq> -1 \<and> lastBrace2 > firstBrace2
                  then substring cleanJson firstBrace2 (lastBrace2 + 1) else jsonString)
         else jsonString)"

definition identStart :: rx where
  "identStart = Set [CRange CHR ''a'' CHR ''z'', CRange CHR ''A'' CHR ''Z'', CChar CHR ''_'']"

definition identChar :: rx where
  "identChar = Set [CRange CHR ''a'' CHR ''z'', CRange CHR ''A'' CHR ''Z'',
                    CRange CHR ''0'' CHR ''9'', CChar CHR ''_'']"

definition anyChar :: rx where
  "anyChar = Set [CSpace, CNotSpace]"

text \<open>
  Lines 599 to 606: trailing commas, unquoted keys, line comments and block comments.
\<close>

definition repairJson :: "string \<Rightarrow> string" where
  "repairJson jsonString =
     (let j1 = replaceAll noFlags
                 (seqs [Lit CHR '','',
                        Cap 1 (seqs [spaces0, Set [CChar CHR ''}'', CChar CHR '']'']])])
                 (\<lambda>m cs. getCap 1 cs) jsonString;
          j2 = replaceAll noFlags
                 (seqs [Cap 1 (seqs [Set [CChar CHR ''{'', CChar CHR '',''], spaces0]),
                        Cap 2 (seqs [identStart, Star identChar]), spaces0, Lit CHR '':''])
                 (\<lambda>m cs. getCap 1 cs @ [dq] @ getCap 2 cs @ [dq] @ '':'') j1;
          j3 = replaceAll flagM (seqs [lits ''//'', Star Dot, Eol]) (\<lambda>m cs. []) j2
      in replaceAll noFlags (seqs [lits ''/*'', StarLazy anyChar, lits ''*/'']) (\<lambda>m cs. []) j3)"

text \<open>
  The field patterns of the regex recovery:
  \<open>"modules"\s*:\s*\[([\s\S]*?)\](?=\s*[,}])\<close>, the same for \<open>relationships\<close>, and
  \<open>"summary"\s*:\s*"((?:[^"\\]|\\.)*)"\<close>.
\<close>

definition arrayField :: "string \<Rightarrow> rx" where
  "arrayField key =
     seqs [Lit dq, lits key, Lit dq, spaces0, Lit CHR '':'', spaces0, Lit CHR ''['',
           Cap 1 (StarLazy anyChar), Lit CHR '']'',
           Look (seqs [spaces0, Set [CChar CHR '','', CChar CHR ''}'']])]"

definition summaryField :: rx where
  "summaryField =
     seqs [Lit dq, lits ''summary'', Lit dq, spaces0, Lit CHR '':'', spaces0, Lit dq,
           Cap 1 (Star (Alt (NSet [CChar dq, CChar bslash]) (Seq (Lit bslash) Dot))), Lit dq]"

definition unescapeSummary :: "string \<Rightarrow> string" where
  "unescapeSummary s =
     replaceAll noFlags (seqs [Lit bslash, Lit CHR ''n'']) (\<lambda>m cs. [nl])
       (replaceAll noFlags (seqs [Lit bslash, Lit dq]) (\<lambda>m cs. [dq]) s)"

text \<open>
  The values that \<open>JSON.parse\<close> returns are dynamically typed, and so is the code that
  reads them (lines 613 to 742 and 759 to 765); the decoder is modelled over any type
  \<open>'j\<close> of parsed values and any behaviour of these four steps, each of which may
  raise. The fragment that a step returns is taken here at the type that the code
  declares for it, \<open>ArchitectureAnalysis\<close>; the values that it holds when the code runs,
  and what the merge does on them, are the subject of the section on the merge at run
  time.
  \<^item> \<open>jsonParse\<close>: \<open>JSON.parse\<close>, which raises a \<open>SyntaxError\<close> on malformed text;
  \<^item> \<open>normalizeParsed\<close>: lines 613 to 742, which turn a parsed value into a fragment
    and raise a \<open>TypeError\<close> where the value has not the shape they read;
  \<^item> \<open>recoverModules\<close>: the \<open>map\<close> of lines 759 to 765 over a recovered array;
  \<^item> \<open>recoverRelationships\<close>: the recovered relationship array, taken as it is.
\<close>

datatype error = SyntaxError | TypeError

record 'j Runtime =
  jsonParse :: "string \<Rightarrow> error + 'j"
  normalizeParsed :: "'j \<Rightarrow> FileContext list \<Rightarrow> error + ArchitectureAnalysis"
  recoverModules :: "'j \<Rightarrow> error + Module list"
  recoverRelationships :: "'j \<Rightarrow> Relationship list"

text \<open>The \<open>try\<close> block of lines 609 to 742.\<close>

definition cleanParse :: "'j Runtime \<Rightarrow> string \<Rightarrow> FileContext list \<Rightarrow> error + ArchitectureAnalysis" where
  "cleanParse rt jsonString files =
     (case jsonParse rt jsonString of
        Inl e \<Rightarrow> Inl e
      | Inr parsed \<Rightarrow> normalizeParsed rt parsed files)"

text \<open>
  The \<open>try\<close> block of lines 755 to 778, entered when the \<open>modules\<close> pattern matched
  with capture \<open>ms\<close>; the relationships are parsed in a \<open>try\<close> of their own.
\<close>

definition recoverFields ::
  "'j Runtime \<Rightarrow> string \<Rightarrow> string \<Rightarrow> error + ArchitectureAnalysis" where
  "recoverFields rt jsonString ms =
     (case jsonParse rt (''['' @ ms @ '']'') of
        Inl e \<Rightarrow> Inl e
      | Inr parsedModules \<Rightarrow>
          (case recoverModules rt parsedModules of
             Inl e \<Rightarrow> Inl e
           | Inr mods \<Rightarrow>
               Inr \<lparr>a_modules = mods,
                    a_relationships =
                      (case matchFirst noFlags (arrayField ''relationships'') jsonString of
                         None \<Rightarrow> []
                       | Some relationshipsMatch \<Rightarrow>
                           (case jsonParse rt (''['' @ getCap 1 (snd relationshipsMatch) @ '']'') of
                              Inl e \<Rightarrow> []
                            | Inr parsedRels \<Rightarrow> recoverRelationships rt parsedRels)),
                    a_summary =
                      (case matchFirst noFlags summaryField jsonString of
                         None \<Rightarrow> ''Chunk analysis completed''
                       | Some summaryMatch \<Rightarrow> unescapeSummary (getCap 1 (snd summaryMatch))),
                    a_pattern = Some (mkPattern Unknown (3 / 10) ''Partial recovery''),
                    a_layers = Some [],
                    a_entryPoints = Some [],
                    a_coreComponents = Some [],
                    a_raw = None\<rparr>))"

text \<open>
  \<open>parseOllamaResponse\<close>, with an exception that leaves it as \<open>Inl\<close>. The two
  \<open>catch\<close> clauses of the recovery (lines 779 and 783) fall through to the final
  fallback.
\<close>

definition parseOllamaResponse ::
  "'j Runtime \<Rightarrow> string \<Rightarrow> FileContext list \<Rightarrow> error + ArchitectureAnalysis" where
  "parseOllamaResponse rt fullResponse files =
     (if fullResponse = [] \<or> length (trim fullResponse) = 0
      then Inr (createFallbackAnalysis files)
      else (let jsonString = repairJson (extractJson (cleanResponse fullResponse))
            in case cleanParse rt jsonString files of
                 Inr analysis \<Rightarrow> Inr analysis
               | Inl parseError \<Rightarrow>
                   (case matchFirst noFlags (arrayField ''modules'') jsonString of
                      None \<Rightarrow> Inr (createFallbackAnalysis files)
                    | Some modulesMatch \<Rightarrow>
                        (case recoverFields rt jsonString (getCap 1 (snd modulesMatch)) of
                           Inr analysis \<Rightarrow> Inr analysis
                         | Inl e \<Rightarrow> Inr (createFallbackAnalysis files)))))"

section \<open>OllamaClient: chunk dispatch and \<open>analyze\<close>\<close>

text \<open>
  What one request to the inference service comes to: \<open>fetchJson\<close> raised (no
  connection, a timeout, a body that is not JSON), the status was not a success, reading
  the reply's text raised, or the reply's text. The service is a parameter: its two
  protocols, each a function of the chunk's index and files.
\<close>

datatype attempt = Threw | NotOk | Unreadable | Text string

record Service =
  chat :: "nat \<Rightarrow> FileContext list \<Rightarrow> attempt"
  generate :: "nat \<Rightarrow> FileContext list \<Rightarrow> attempt"

definition analyzeChunk ::
  "'j Runtime \<Rightarrow> Service \<Rightarrow> FileContext list \<Rightarrow> nat \<Rightarrow> ArchitectureAnalysis" where
  "analyzeChunk rt svc chunkFiles chunkIndex =
     (let response = (case chat svc chunkIndex chunkFiles of
                        Threw \<Rightarrow> generate svc chunkIndex chunkFiles
                      | r \<Rightarrow> r)
      in case response of
           Threw \<Rightarrow> createFallbackAnalysis chunkFiles
         | NotOk \<Rightarrow> createFallbackAnalysis chunkFiles
         | Unreadable \<Rightarrow> createFallbackAnalysis chunkFiles
         | Text fullResponse \<Rightarrow>
             if fullResponse = [] \<or> length (trim fullResponse) = 0
             then createFallbackAnalysis chunkFiles
             else (case parseOllamaResponse rt fullResponse chunkFiles of
                     Inl e \<Rightarrow> createFallbackAnalysis chunkFiles
                   | Inr analysis \<Rightarrow> analysis))"

definition chunkSize :: nat where
  "chunkSize = 5"

function chunksOf :: "FileContext list \<Rightarrow> FileContext list list" where
  "chunksOf fs = (if fs = [] then [] else take chunkSize fs # chunksOf (drop chunkSize fs))"
  by pat_completeness auto
termination
  by (relation "measure length") (auto simp: chunkSize_def)

declare chunksOf.simps [simp del]

text \<open>
  \<open>Math.min(10, Math.max(5, Math.floor(files.length * 0.10)))\<close>; the floor of a tenth
  of the length is the integer quotient.
\<close>

definition maxFilesFor :: "FileContext list \<Rightarrow> nat" where
  "maxFilesFor files = min 10 (max 5 (length files div 10))"

definition selectedFilesOf :: "FileContext list \<Rightarrow> FileContext list" where
  "selectedFilesOf files =
     (if length files > maxFilesFor files
      then selectImportantFiles files (maxFilesFor files) else files)"

definition analyze :: "'j Runtime \<Rightarrow> Service \<Rightarrow> FileContext list \<Rightarrow> ArchitectureAnalysis" where
  "analyze rt svc files =
     (let selectedFiles = selectedFilesOf files;
          chunks = chunksOf selectedFiles;
          chunkResults = map (\<lambda>ic. analyzeChunk rt svc (snd ic) (fst ic + 1))
                             (enumerate 0 chunks)
      in mergeChunkResults chunkResults files selectedFiles)"


section \<open>OllamaClient: the merge at run time\<close>

text \<open>
  TypeScript's types are erased when the code runs. The fragment that
  \<open>parseOllamaResponse\<close> returns is built from values of \<open>JSON.parse\<close> that are read
  with no check of their type (lines 625 to 631, 639 to 658, 695, 726 to 741 and 759 to
  772), and \<open>mergeChunkResults\<close>, typed over \<open>ArchitectureAnalysis[]\<close>, runs on them
  outside any \<open>try\<close>. This section models the merge over these values, with the
  exceptions that it raises.

  A value as \<open>JSON.parse\<close> builds it, or \<open>undefined\<close>. A number is given by the text
  that \<open>ToString\<close> gives for it: two numbers are the same value when their texts are
  equal, and zero is the text \<open>0\<close>. An object is the list of its properties, each name
  once.
\<close>

datatype jsval = JUndefined | JNull | JBool bool | JNum string | JStr string
  | JArr "jsval list" | JObj "(string \<times> jsval) list"

definition nullish :: "jsval \<Rightarrow> bool" where
  "nullish v = (v = JUndefined \<or> v = JNull)"

definition truthy :: "jsval \<Rightarrow> bool" where
  "truthy v = (\<not> nullish v \<and> v \<noteq> JBool False \<and> v \<noteq> JNum ''0'' \<and> v \<noteq> JStr [])"

text \<open>
  The read \<open>v.k\<close> of a property that no prototype defines (the merge reads \<open>from\<close>,
  \<open>to\<close>, \<open>name\<close> and \<open>confidence\<close>): the own property of an object, \<open>undefined\<close> on
  every other value; on \<open>null\<close> and \<open>undefined\<close> the read raises a \<open>TypeError\<close>.
\<close>

definition propOf :: "jsval \<Rightarrow> string \<Rightarrow> jsval" where
  "propOf v k = (case v of
                 JObj ps \<Rightarrow> (case map_of ps k of None \<Rightarrow> JUndefined | Some x \<Rightarrow> x)
               | _ \<Rightarrow> JUndefined)"

definition getProp :: "jsval \<Rightarrow> string \<Rightarrow> error + jsval" where
  "getProp v k = (if nullish v then Inl TypeError else Inr (propOf v k))"

definition bindE :: "error + 'a \<Rightarrow> ('a \<Rightarrow> error + 'b) \<Rightarrow> error + 'b" where
  "bindE r f = (case r of Inl e \<Rightarrow> Inl e | Inr x \<Rightarrow> f x)"

text \<open>
  \<open>ToString\<close>, as a template literal and \<open>Array.prototype.join\<close> apply it. An array is
  its elements joined by commas, where \<open>null\<close> and \<open>undefined\<close> give the empty string.
  An object is \<open>[object Object]\<close>, by \<open>Object.prototype.toString\<close>; an own property
  \<open>toString\<close> shadows that method with a value that cannot be called, and the conversion
  raises a \<open>TypeError\<close>.
\<close>

fun toStr :: "jsval \<Rightarrow> error + string"
  and elemStrs :: "jsval list \<Rightarrow> error + string list" where
  "toStr JUndefined = Inr ''undefined''"
| "toStr JNull = Inr ''null''"
| "toStr (JBool b) = Inr (if b then ''true'' else ''false'')"
| "toStr (JNum t) = Inr t"
| "toStr (JStr s) = Inr s"
| "toStr (JArr xs) = bindE (elemStrs xs) (\<lambda>ss. Inr (join ss '',''))"
| "toStr (JObj ps) =
     (if ''toString'' \<in> set (map fst ps) then Inl TypeError else Inr ''[object Object]'')"
| "elemStrs [] = Inr []"
| "elemStrs (x # xs) =
     bindE (if nullish x then Inr [] else toStr x)
       (\<lambda>s. bindE (elemStrs xs) (\<lambda>ss. Inr (s # ss)))"

text \<open>
  The comparison \<open>SameValueZero\<close> of the keys of a \<open>Map\<close> and the elements of a \<open>Set\<close>.
  Arrays and objects are compared by reference: every array and object that
  \<open>JSON.parse\<close> builds is a reference of its own, and no two keys that the merge compares
  are one reference.
\<close>

definition sameValueZero :: "jsval \<Rightarrow> jsval \<Rightarrow> bool" where
  "sameValueZero x y = (case x of JArr xs \<Rightarrow> False | JObj ps \<Rightarrow> False | _ \<Rightarrow> x = y)"

definition hasKey :: "jsval list \<Rightarrow> jsval \<Rightarrow> bool" where
  "hasKey keys k = list_ex (\<lambda>x. sameValueZero x k) keys"

text \<open>A \<open>forEach\<close>, a \<open>map\<close> and a \<open>reduce\<close> whose callback may raise.\<close>

fun forEachE :: "('a \<Rightarrow> 's \<Rightarrow> error + 's) \<Rightarrow> 'a list \<Rightarrow> 's \<Rightarrow> error + 's" where
  "forEachE f [] s = Inr s"
| "forEachE f (x # xs) s = bindE (f x s) (forEachE f xs)"

fun mapE :: "('a \<Rightarrow> error + 'b) \<Rightarrow> 'a list \<Rightarrow> error + 'b list" where
  "mapE f [] = Inr []"
| "mapE f (x # xs) = bindE (f x) (\<lambda>y. bindE (mapE f xs) (\<lambda>ys. Inr (y # ys)))"

fun reduceE :: "('a \<Rightarrow> 'a \<Rightarrow> error + 'a) \<Rightarrow> 'a \<Rightarrow> 'a list \<Rightarrow> error + 'a" where
  "reduceE f best [] = Inr best"
| "reduceE f best (current # others) = bindE (f best current) (\<lambda>b. reduceE f b others)"


text \<open>
  A module, a layer and an analysis at run time. Every fragment that
  \<open>parseOllamaResponse\<close> or \<open>createFallbackAnalysis\<close> returns has this shape:
  \<^item> \<open>modules\<close> is an array of objects built with the five properties (lines 490 to
    496, 617 to 631, 709 to 715 and 759 to 765), whose values are strings of the code or
    values of the reply;
  \<^item> \<open>relationships\<close> is an array (lines 638 to 659, 718 to 720, 766 to 772), of objects
    built by the normalization or of the reply's values as they are;
  \<^item> \<open>layers\<close> is an array of objects with a name and an array of modules
    (\<open>groupByLayers\<close>, \<open>normalizeLayers\<close>);
  \<^item> \<open>summary\<close>, \<open>pattern\<close>, \<open>entryPoints\<close> and \<open>coreComponents\<close> are the values of
    the reply where these are truthy, and the defaults of the code otherwise.
\<close>

record Module_rt =
  mr_name :: jsval
  mr_path :: jsval
  mr_type :: jsval
  mr_layer :: jsval
  mr_description :: jsval

record LayerGroup_rt =
  lr_name :: jsval
  lr_modules :: "jsval list"

record Analysis_rt =
  fr_modules :: "Module_rt list"
  fr_relationships :: "jsval list"
  fr_summary :: jsval
  fr_pattern :: jsval
  fr_layers :: "LayerGroup_rt list"
  fr_entryPoints :: jsval
  fr_coreComponents :: jsval

definition typeString :: "ModuleType \<Rightarrow> string" where
  "typeString t =
     (case t of Component \<Rightarrow> ''component'' | Service \<Rightarrow> ''service'' | Utility \<Rightarrow> ''utility''
      | Model \<Rightarrow> ''model'' | Controller \<Rightarrow> ''controller'' | View \<Rightarrow> ''view''
      | Config \<Rightarrow> ''config'' | Test \<Rightarrow> ''test'' | Other \<Rightarrow> ''other'')"

text \<open>The module of lines 490 to 496 and 1069 to 1075 for one file.\<close>

definition fallbackModule_rt :: "FileContext \<Rightarrow> Module_rt" where
  "fallbackModule_rt f =
     \<lparr>mr_name = JStr (moduleName (fc_path f)),
      mr_path = JStr (fc_path f),
      mr_type = JStr (typeString (inferModuleType (fc_path f))),
      mr_layer = JStr (layerString (inferLayer (fc_path f))),
      mr_description = JStr (inferDescription (fc_path f) (fc_content f))\<rparr>"

definition pattern_rt :: "string \<Rightarrow> string \<Rightarrow> string \<Rightarrow> jsval" where
  "pattern_rt name confidence description =
     JObj [(''name'', JStr name), (''confidence'', JNum confidence),
           (''description'', JStr description)]"

definition createFallbackAnalysis_rt :: "FileContext list \<Rightarrow> Analysis_rt" where
  "createFallbackAnalysis_rt chunkFiles =
     \<lparr>fr_modules = map fallbackModule_rt chunkFiles,
      fr_relationships = [],
      fr_summary = JStr (''Fallback analysis for '' @ showNat (length chunkFiles) @ '' files''),
      fr_pattern = pattern_rt ''Unknown'' ''0'' ''Chunk analysis failed'',
      fr_layers = [],
      fr_entryPoints = JArr [],
      fr_coreComponents = JArr []\<rparr>"

text \<open>Lines 406 to 413: the \<open>Map\<close> of the modules, as the list of its values.\<close>

definition mergeModules_rt :: "Analysis_rt list \<Rightarrow> Module_rt list" where
  "mergeModules_rt chunkResults =
     fold (\<lambda>chunk moduleMap.
             fold (\<lambda>m mm. if \<not> hasKey (map mr_path mm) (mr_path m) then mm @ [m] else mm)
                  (fr_modules chunk) moduleMap)
          chunkResults []"

text \<open>
  Lines 416 to 426. The key \<open>`${rel.from}->${rel.to}`\<close> raises where \<open>rel\<close> is \<open>null\<close>,
  and where \<open>ToString\<close> does.
\<close>

definition relKey_rt :: "jsval \<Rightarrow> error + string" where
  "relKey_rt rel =
     bindE (getProp rel ''from'') (\<lambda>from.
     bindE (toStr from) (\<lambda>f.
     bindE (getProp rel ''to'') (\<lambda>to.
     bindE (toStr to) (\<lambda>t. Inr (f @ ''->'' @ t)))))"

definition addRelationship_rt ::
  "jsval \<Rightarrow> jsval list \<times> string list \<Rightarrow> error + jsval list \<times> string list" where
  "addRelationship_rt rel acc =
     bindE (relKey_rt rel) (\<lambda>key.
       Inr (if key \<notin> set (snd acc) then (fst acc @ [rel], snd acc @ [key]) else acc))"

definition mergeRelationships_rt :: "Analysis_rt list \<Rightarrow> error + jsval list" where
  "mergeRelationships_rt chunkResults =
     bindE (forEachE (\<lambda>chunk. forEachE addRelationship_rt (fr_relationships chunk))
                     chunkResults ([], []))
           (\<lambda>acc. Inr (fst acc))"

text \<open>Lines 447 to 450.\<close>

definition combinedSummary_rt :: "Analysis_rt list \<Rightarrow> FileContext list \<Rightarrow> error + string" where
  "combinedSummary_rt chunkResults allFiles =
     (let summaries = filter truthy (map fr_summary chunkResults)
      in if length summaries > 0
         then bindE (elemStrs summaries) (\<lambda>ss. Inr (join ss '' ''))
         else Inr (''Analyzed '' @ showNat (length allFiles) @ '' files across ''
                   @ showNat (length chunkResults) @ '' chunks''))"

text \<open>
  Lines 453 to 458. The comparison \<open>>\<close> of two values converts them to primitives and to
  numbers; it is the parameter \<open>jsGreater\<close>, any function that may raise.
\<close>

definition candidatePatterns_rt :: "Analysis_rt list \<Rightarrow> jsval list" where
  "candidatePatterns_rt chunkResults =
     filter (\<lambda>p. truthy p \<and> propOf p ''name'' \<noteq> JStr ''Unknown'') (map fr_pattern chunkResults)"

definition confidenceOf :: "jsval \<Rightarrow> jsval" where
  "confidenceOf p =
     (let c = (if nullish p then JUndefined else propOf p ''confidence'')
      in if truthy c then c else JNum ''0'')"

definition betterPattern_rt ::
  "(jsval \<Rightarrow> jsval \<Rightarrow> error + bool) \<Rightarrow> jsval \<Rightarrow> jsval \<Rightarrow> error + jsval" where
  "betterPattern_rt jsGreater best current =
     bindE (jsGreater (confidenceOf current) (confidenceOf best))
           (\<lambda>b. Inr (if b then current else best))"

definition bestPattern_rt ::
  "(jsval \<Rightarrow> jsval \<Rightarrow> error + bool) \<Rightarrow> Analysis_rt list \<Rightarrow> error + jsval" where
  "bestPattern_rt jsGreater chunkResults =
     (case candidatePatterns_rt chunkResults of
        [] \<Rightarrow> Inr (pattern_rt ''Unknown'' ''0'' ''Could not determine pattern'')
      | p # ps \<Rightarrow> reduceE (betterPattern_rt jsGreater) p ps)"

text \<open>
  Lines 461 to 466. \<open>chunk.entryPoints?.forEach\<close> is skipped on \<open>null\<close> and
  \<open>undefined\<close>, runs over an array, and raises on every other value, which has no method
  \<open>forEach\<close>.
\<close>

definition arrayItems :: "jsval \<Rightarrow> error + jsval list" where
  "arrayItems v = (case v of JUndefined \<Rightarrow> Inr [] | JNull \<Rightarrow> Inr [] | JArr xs \<Rightarrow> Inr xs
                   | _ \<Rightarrow> Inl TypeError)"

definition addValue :: "jsval \<Rightarrow> jsval list \<Rightarrow> jsval list" where
  "addValue x s = (if hasKey s x then s else s @ [x])"

definition collectSets_rt :: "Analysis_rt list \<Rightarrow> error + jsval list \<times> jsval list" where
  "collectSets_rt chunkResults =
     forEachE (\<lambda>chunk acc.
                 bindE (arrayItems (fr_entryPoints chunk)) (\<lambda>eps.
                 bindE (arrayItems (fr_coreComponents chunk)) (\<lambda>ccs.
                   Inr (fold addValue eps (fst acc), fold addValue ccs (snd acc)))))
              chunkResults ([], [])"

text \<open>Lines 1061 to 1085.\<close>

definition mergeWithAllFiles_rt ::
  "Module_rt list \<Rightarrow> FileContext list \<Rightarrow> FileContext list \<Rightarrow> Module_rt list" where
  "mergeWithAllFiles_rt analyzedModules allFiles selectedFiles =
     (let analyzedPaths = map mr_path analyzedModules
      in fold (\<lambda>file allModules.
                 if \<not> hasKey analyzedPaths (JStr (fc_path file))
                 then allModules @ [fallbackModule_rt file] else allModules)
              allFiles analyzedModules)"

text \<open>Lines 1090 to 1124.\<close>

definition importEdge_rt :: "string \<Rightarrow> string \<Rightarrow> jsval" where
  "importEdge_rt from to =
     JObj [(''from'', JStr from), (''to'', JStr to), (''type'', JStr ''imports''),
           (''strength'', JStr ''medium''), (''description'', JStr (''Imports from '' @ to))]"

definition addImportEdge_rt ::
  "Module_rt list \<Rightarrow> FileContext list \<Rightarrow> FileContext \<Rightarrow> string
     \<Rightarrow> jsval list \<times> string list \<Rightarrow> jsval list \<times> string list" where
  "addImportEdge_rt allModules allFiles file imp acc =
     (case matchFirst noFlags quotedRegex imp of
        None \<Rightarrow> acc
      | Some m \<Rightarrow>
          (case resolveImportPath (getCap 1 (snd m)) (fc_path file) allFiles of
             None \<Rightarrow> acc
           | Some resolvedPath \<Rightarrow>
               if resolvedPath \<noteq> [] \<and> hasKey (map mr_path allModules) (JStr resolvedPath)
                  \<and> resolvedPath \<noteq> fc_path file
               then (let key = relKey (fc_path file) resolvedPath
                     in if key \<notin> set (snd acc)
                        then (fst acc @ [importEdge_rt (fc_path file) resolvedPath],
                              snd acc @ [key])
                        else acc)
               else acc))"

definition inferAllRelationships_rt ::
  "Module_rt list \<Rightarrow> FileContext list \<Rightarrow> jsval list \<Rightarrow> error + jsval list" where
  "inferAllRelationships_rt allModules allFiles existingRelationships =
     bindE (mapE relKey_rt existingRelationships) (\<lambda>existingRelKeys.
       Inr (fst (fold (\<lambda>file acc.
                         fold (addImportEdge_rt allModules allFiles file) (fileImports file) acc)
                      allFiles (existingRelationships, existingRelKeys))))"

text \<open>
  Lines 947 to 962. The key of the \<open>Map\<close> is \<open>m.layer || 'other'\<close>; \<open>name.charAt\<close>
  raises on a key that is not a string.
\<close>

fun pushTo_rt ::
  "jsval \<Rightarrow> jsval \<Rightarrow> (jsval \<times> jsval list) list \<Rightarrow> (jsval \<times> jsval list) list" where
  "pushTo_rt key v [] = [(key, [v])]"
| "pushTo_rt key v ((k, vs) # kvs) =
     (if sameValueZero k key then (k, vs @ [v]) # kvs else (k, vs) # pushTo_rt key v kvs)"

definition layerGroup_rt :: "jsval \<times> jsval list \<Rightarrow> error + LayerGroup_rt" where
  "layerGroup_rt entry =
     (case fst entry of
        JStr name \<Rightarrow> Inr \<lparr>lr_name = JStr (capitalize name), lr_modules = snd entry\<rparr>
      | _ \<Rightarrow> Inl TypeError)"

definition groupByLayers_rt :: "Module_rt list \<Rightarrow> error + LayerGroup_rt list" where
  "groupByLayers_rt modules =
     mapE layerGroup_rt
       (fold (\<lambda>m layerMap.
                pushTo_rt (if truthy (mr_layer m) then mr_layer m else JStr ''other'')
                          (mr_path m) layerMap)
             modules [])"

text \<open>
  \<open>mergeChunkResults\<close> at run time, with the exception that leaves it as \<open>Inl\<close>. The
  loop of lines 430 to 439 over the layers of the fragments fills a local that is never
  read again and raises nothing on arrays of layer objects; it is left out.
\<close>

definition mergeChunkResults_rt ::
  "(jsval \<Rightarrow> jsval \<Rightarrow> error + bool) \<Rightarrow> Analysis_rt list \<Rightarrow> FileContext list
     \<Rightarrow> FileContext list \<Rightarrow> error + Analysis_rt" where
  "mergeChunkResults_rt jsGreater chunkResults allFiles selectedFiles =
     (let moduleMap = mergeModules_rt chunkResults
      in bindE (mergeRelationships_rt chunkResults) (\<lambda>relationships.
         bindE (combinedSummary_rt chunkResults allFiles) (\<lambda>combinedSummary.
         bindE (bestPattern_rt jsGreater chunkResults) (\<lambda>bestPattern.
         bindE (collectSets_rt chunkResults) (\<lambda>sets.
           (let allModules = mergeWithAllFiles_rt moduleMap allFiles selectedFiles
            in bindE (inferAllRelationships_rt allModules allFiles relationships)
                 (\<lambda>allRelationships.
               bindE (groupByLayers_rt allModules) (\<lambda>layers.
                 Inr \<lparr>fr_modules = allModules,
                      fr_relationships = allRelationships,
                      fr_summary = JStr combinedSummary,
                      fr_pattern = bestPattern,
                      fr_layers = layers,
                      fr_entryPoints = JArr (fst sets),
                      fr_coreComponents = JArr (snd sets)\<rparr>))))))))"

text \<open>
  \<open>analyzeChunk\<close> and \<open>analyze\<close> at run time. The decoder is a parameter: any function
  of the reply and the chunk's files that returns a fragment of the shape above, or
  raises.
\<close>

definition analyzeChunk_rt ::
  "(string \<Rightarrow> FileContext list \<Rightarrow> error + Analysis_rt) \<Rightarrow> Service \<Rightarrow> FileContext list \<Rightarrow> nat
     \<Rightarrow> Analysis_rt" where
  "analyzeChunk_rt decoder svc chunkFiles chunkIndex =
     (let response = (case chat svc chunkIndex chunkFiles of
                        Threw \<Rightarrow> generate svc chunkIndex chunkFiles
                      | r \<Rightarrow> r)
      in case response of
           Threw \<Rightarrow> createFallbackAnalysis_rt chunkFiles
         | NotOk \<Rightarrow> createFallbackAnalysis_rt chunkFiles
         | Unreadable \<Rightarrow> createFallbackAnalysis_rt chunkFiles
         | Text fullResponse \<Rightarrow>
             if fullResponse = [] \<or> length (trim fullResponse) = 0
             then createFallbackAnalysis_rt chunkFiles
             else (case decoder fullResponse chunkFiles of
                     Inl e \<Rightarrow> createFallbackAnalysis_rt chunkFiles
                   | Inr analysis \<Rightarrow> analysis))"

definition analyze_rt ::
  "(jsval \<Rightarrow> jsval \<Rightarrow> error + bool) \<Rightarrow> (string \<Rightarrow> FileContext list \<Rightarrow> error + Analysis_rt)
     \<Rightarrow> Service \<Rightarrow> FileContext list \<Rightarrow> error + Analysis_rt" where
  "analyze_rt jsGreater decoder svc files =
     (let selectedFiles = selectedFilesOf files;
          chunks = chunksOf selectedFiles;
          chunkResults = map (\<lambda>ic. analyzeChunk_rt decoder svc (snd ic) (fst ic + 1))
                             (enumerate 0 chunks)
      in mergeChunkResults_rt jsGreater chunkResults files selectedFiles)"


section \<open>Example inputs\<close>

definition mkFile :: "string \<Rightarrow> string \<Rightarrow> FileContext" where
  "mkFile p c = \<lparr>fc_path = p, fc_content = c, fc_language = None, fc_size = None\<rparr>"

definition mkModule :: "string \<Rightarrow> string \<Rightarrow> ModuleType \<Rightarrow> Layer option \<Rightarrow> Module" where
  "mkModule n p ty l =
     \<lparr>m_name = n, m_path = p, m_type = ty, m_layer = l, m_description = None,
      m_exports = None, m_imports = None\<rparr>"

definition mkRel :: "string \<Rightarrow> string \<Rightarrow> RelType \<Rightarrow> Relationship" where
  "mkRel f t ty =
     \<lparr>r_from = f, r_to = t, r_type = ty, r_strength = None, r_description = None\<rparr>"

definition mkFragment ::
  "Module list \<Rightarrow> Relationship list \<Rightarrow> ArchitecturalPattern option \<Rightarrow> ArchitectureAnalysis" where
  "mkFragment ms rs p =
     \<lparr>a_modules = ms, a_relationships = rs, a_summary = [], a_pattern = p, a_layers = None,
      a_entryPoints = None, a_coreComponents = None, a_raw = None\<rparr>"

text \<open>A service whose two protocols both fail.\<close>

definition failingService :: Service where
  "failingService = \<lparr>chat = (\<lambda>i fs. Threw), generate = (\<lambda>i fs. Threw)\<rparr>"

text \<open>A runtime whose \<open>JSON.parse\<close> rejects every text, as it does prose.\<close>

definition rejectingRuntime :: "unit Runtime" where
  "rejectingRuntime =
     \<lparr>jsonParse = (\<lambda>s. Inl SyntaxError), normalizeParsed = (\<lambda>j fs. Inl TypeError),
      recoverModules = (\<lambda>j. Inl TypeError), recoverRelationships = (\<lambda>j. [])\<rparr>"

definition twoFiles :: "FileContext list" where
  "twoFiles = [mkFile ''a'' ''x'', mkFile ''b'' ''y'']"

section \<open>Relationship keys\<close>

lemma inferAllRelationships_no_files [simp]: "inferAllRelationships ms [] rels = rels"
  by (simp add: inferAllRelationships_def)

text \<open>
  C10: the deduplication key of a relationship is the string \<open>from + "->" + to\<close>, not the
  pair. The relationships from \<open>a->b\<close> to \<open>c\<close> and from \<open>a\<close> to \<open>b->c\<close> are different
  pairs with the same key, and the merge of a fragment that holds both keeps the first and
  drops the second.
\<close>

theorem relationship_key_collision:
  "(''a->b'', ''c'') \<noteq> (''a'', ''b->c'')
   \<and> relKey ''a->b'' ''c'' = relKey ''a'' ''b->c''
   \<and> a_relationships (mergeChunkResults
         [mkFragment [] [mkRel ''a->b'' ''c'' Uses, mkRel ''a'' ''b->c'' Calls] None] [] [])
       = [mkRel ''a->b'' ''c'' Uses]"
  by (simp add: relKey_def mergeChunkResults_def mergeRelationships_def addRelationship_def
      mkFragment_def mkRel_def Let_def)


section \<open>Pattern selection in the merge\<close>


lemma a_pattern_merge: "a_pattern (mergeChunkResults cs files sel) = Some (bestPattern cs)"
  by (simp add: mergeChunkResults_def Let_def)







section \<open>The rule order of the classifier\<close>

lemma fold_scanModule_hasControllers:
  "hasControllers (fold scanModule ms s) =
     (hasControllers s \<or> list_ex (\<lambda>m. m_type m = Controller
        \<or> includesStr (toLowerCase (m_path m)) ''controller''
        \<or> includesStr (toLowerCase (m_name m)) ''controller'') ms)"
  by (induction ms arbitrary: s) (auto simp: scanModule_def Let_def)

lemma fold_scanModule_hasViews:
  "hasViews (fold scanModule ms s) =
     (hasViews s \<or> list_ex (\<lambda>m. m_type m = View
        \<or> includesStr (toLowerCase (m_path m)) ''view''
        \<or> includesStr (toLowerCase (m_name m)) ''view''
        \<or> includesStr (toLowerCase (m_path m)) ''component'') ms)"
  by (induction ms arbitrary: s) (auto simp: scanModule_def Let_def)

lemma fold_scanModule_hasModels:
  "hasModels (fold scanModule ms s) =
     (hasModels s \<or> list_ex (\<lambda>m. m_type m = Model
        \<or> includesStr (toLowerCase (m_path m)) ''model''
        \<or> includesStr (toLowerCase (m_name m)) ''model'') ms)"
  by (induction ms arbitrary: s) (auto simp: scanModule_def Let_def)

lemma fold_scanModule_hasServices:
  "hasServices (fold scanModule ms s) =
     (hasServices s \<or> list_ex (\<lambda>m. m_type m = Service
        \<or> includesStr (toLowerCase (m_path m)) ''service''
        \<or> includesStr (toLowerCase (m_name m)) ''service'') ms)"
  by (induction ms arbitrary: s) (auto simp: scanModule_def Let_def)

lemma fold_scanModule_hasLayers:
  "hasLayers (fold scanModule ms s) =
     (hasLayers s \<or> list_ex (\<lambda>m. m_layer m \<noteq> None \<and> m_layer m \<noteq> Some OtherLayer) ms)"
  by (induction ms arbitrary: s) (auto simp: scanModule_def Let_def)

lemma fold_scanModule_hasComponents:
  "hasComponents (fold scanModule ms s) =
     (hasComponents s \<or> list_ex (\<lambda>m. m_type m = Component
        \<or> includesStr (toLowerCase (m_path m)) ''component'') ms)"
  by (induction ms arbitrary: s) (auto simp: scanModule_def Let_def)

lemma fold_scanModule_hasRoutes:
  "hasRoutes (fold scanModule ms s) =
     (hasRoutes s \<or> list_ex (\<lambda>m. includesStr (toLowerCase (m_path m)) ''route''
        \<or> includesStr (toLowerCase (m_path m)) ''api/'') ms)"
  by (induction ms arbitrary: s) (auto simp: scanModule_def Let_def)

lemma fold_scanModule_hasFlask:
  "hasFlask (fold scanModule ms s) =
     (hasFlask s \<or> list_ex (\<lambda>m. includesStr (toLowerCase (m_path m)) ''flask''
        \<or> includesStr (toLowerCase (m_path m)) ''app.py''
        \<or> includesStr (toLowerCase (m_path m)) ''main.py'') ms)"
  by (induction ms arbitrary: s) (auto simp: scanModule_def Let_def)

lemma fold_scanModule_hasReact:
  "hasReact (fold scanModule ms s) =
     (hasReact s \<or> list_ex (\<lambda>m. includesStr (toLowerCase (m_path m)) ''react''
        \<or> includesStr (toLowerCase (m_path m)) ''.jsx''
        \<or> includesStr (toLowerCase (m_path m)) ''.tsx'') ms)"
  by (induction ms arbitrary: s) (auto simp: scanModule_def Let_def)

lemma fold_scanModule_hasNext:
  "hasNext (fold scanModule ms s) =
     (hasNext s \<or> list_ex (\<lambda>m. includesStr (toLowerCase (m_path m)) ''next''
        \<or> includesStr (toLowerCase (m_path m)) ''pages''
        \<or> includesStr (toLowerCase (m_path m)) ''app/'') ms)"
  by (induction ms arbitrary: s) (auto simp: scanModule_def Let_def)

lemmas scanModules_flags =
  fold_scanModule_hasControllers fold_scanModule_hasViews fold_scanModule_hasModels
  fold_scanModule_hasServices fold_scanModule_hasLayers fold_scanModule_hasComponents
  fold_scanModule_hasRoutes fold_scanModule_hasFlask fold_scanModule_hasReact
  fold_scanModule_hasNext

text \<open>
  C7, as amended: the classifier is a chain of seven rules, the first that applies wins.
  MVC at 0.85 for controllers, views and models together; Layered at 0.75 for a module
  with a layer other than \<open>other\<close>, or services, models and views together; Layered at
  0.7 for component-based paths; Layered at 0.7 for a Flask application with routes;
  Microservices at 0.6 for a service among more than five modules with more
  relationships than half the modules; Layered at 0.6 for more than three modules with a
  service, a model or a view; Unknown at 0.3 otherwise. The flags are those of
  \<open>scanModules_flags\<close>.
\<close>

theorem classifier_rule_order:
  "(let s = scanModules (a_modules a);
        n = length (a_modules a);
        r = length (a_relationships a);
        mvc = (hasControllers s \<and> hasViews s \<and> hasModels s);
        layered = (hasLayers s \<or> (hasServices s \<and> hasModels s \<and> hasViews s));
        components = (hasNext s \<or> (hasReact s \<and> hasComponents s));
        flask = (hasFlask s \<and> hasRoutes s);
        micro = (hasServices s \<and> n > 5 \<and> 2 * r > n);
        structured = (n > 3 \<and> (hasServices s \<or> hasModels s \<or> hasViews s));
        p = inferArchitecturalPattern a
    in (mvc \<longrightarrow> p_name p = MVC \<and> p_confidence p = 85 / 100)
       \<and> (\<not> mvc \<and> layered \<longrightarrow> p_name p = Layered \<and> p_confidence p = 75 / 100)
       \<and> (\<not> mvc \<and> \<not> layered \<and> components \<longrightarrow> p_name p = Layered \<and> p_confidence p = 7 / 10)
       \<and> (\<not> mvc \<and> \<not> layered \<and> \<not> components \<and> flask \<longrightarrow>
             p_name p = Layered \<and> p_confidence p = 7 / 10)
       \<and> (\<not> mvc \<and> \<not> layered \<and> \<not> components \<and> \<not> flask \<and> micro \<longrightarrow>
             p_name p = Microservices \<and> p_confidence p = 6 / 10)
       \<and> (\<not> mvc \<and> \<not> layered \<and> \<not> components \<and> \<not> flask \<and> \<not> micro \<and> structured \<longrightarrow>
             p_name p = Layered \<and> p_confidence p = 6 / 10)
       \<and> (\<not> mvc \<and> \<not> layered \<and> \<not> components \<and> \<not> flask \<and> \<not> micro \<and> \<not> structured \<longrightarrow>
             p_name p = Unknown \<and> p_confidence p = 3 / 10))"
  unfolding Let_def inferArchitecturalPattern_def mkPattern_def
  by (intro conjI impI) simp_all

text \<open>
  C7 as stated fails on four service modules without layers or relationships: none of
  the four rules the claim names applies, and the result is Layered at 0.6, not Unknown
  at 0.3.
\<close>

definition fourServices :: ArchitectureAnalysis where
  "fourServices =
     mkFragment [mkModule ''a'' ''a'' Service None, mkModule ''b'' ''b'' Service None,
                 mkModule ''c'' ''c'' Service None, mkModule ''d'' ''d'' Service None] [] None"

lemmas str_eval = includesStr.simps startsWith.simps toLowerCase_def toLowerChar_def
  inRange_def code_def char_of_def

lemma scanModules_fourServices:
  "scanModules (a_modules fourServices) = noSignals\<lparr>hasServices := True\<rparr>"
  by (simp add: scanModules_def fourServices_def mkFragment_def mkModule_def scanModule_def
      noSignals_def Let_def str_eval)

theorem classifier_default_layered_counterexample:
  "\<not> (hasControllers (scanModules (a_modules fourServices))
       \<and> hasViews (scanModules (a_modules fourServices))
       \<and> hasModels (scanModules (a_modules fourServices)))
   \<and> \<not> hasLayers (scanModules (a_modules fourServices))
   \<and> \<not> (hasServices (scanModules (a_modules fourServices))
         \<and> hasModels (scanModules (a_modules fourServices))
         \<and> hasViews (scanModules (a_modules fourServices)))
   \<and> \<not> hasNext (scanModules (a_modules fourServices))
   \<and> \<not> hasComponents (scanModules (a_modules fourServices))
   \<and> \<not> 2 * length (a_relationships fourServices) > length (a_modules fourServices)
   \<and> p_name (inferArchitecturalPattern fourServices) = Layered
   \<and> p_confidence (inferArchitecturalPattern fourServices) = 6 / 10"
  by (simp add: inferArchitecturalPattern_def scanModules_fourServices noSignals_def Let_def
      mkPattern_def) (simp add: fourServices_def mkFragment_def)

definition mvcExample :: ArchitectureAnalysis where
  "mvcExample =
     mkFragment [mkModule ''UserController'' ''a.ts'' Controller None,
                 mkModule ''UserView'' ''b.ts'' View None,
                 mkModule ''User'' ''c.ts'' Model None] [] None"

theorem classifier_rule_order_witness:
  "hasControllers (scanModules (a_modules mvcExample))
   \<and> hasViews (scanModules (a_modules mvcExample))
   \<and> hasModels (scanModules (a_modules mvcExample))
   \<and> p_name (inferArchitecturalPattern mvcExample) = MVC
   \<and> p_confidence (inferArchitecturalPattern mvcExample) = 85 / 100"
proof -
  have s: "hasControllers (scanModules (a_modules mvcExample))
     \<and> hasViews (scanModules (a_modules mvcExample))
     \<and> hasModels (scanModules (a_modules mvcExample))"
    by (simp only: scanModules_def scanModules_flags)
       (simp add: mvcExample_def mkFragment_def mkModule_def)
  with classifier_rule_order[of mvcExample] show ?thesis
    by (simp add: Let_def)
qed


section \<open>Relationships of the merged graph\<close>

text \<open>
  First-write-wins, as the specification words it: \<open>firstPerKey key seen xs\<close> keeps an
  element of \<open>xs\<close> when its key is not in \<open>seen\<close> and no earlier element of \<open>xs\<close> has
  it.
\<close>

fun firstPerKey :: "('a \<Rightarrow> 'k) \<Rightarrow> 'k list \<Rightarrow> 'a list \<Rightarrow> 'a list" where
  "firstPerKey key seen [] = []"
| "firstPerKey key seen (x # xs) =
     (if key x \<in> set seen then firstPerKey key seen xs
      else x # firstPerKey key (seen @ [key x]) xs)"

definition relationshipKey :: "Relationship \<Rightarrow> string" where
  "relationshipKey r = relKey (r_from r) (r_to r)"

text \<open>
  The edges that \<open>inferAllRelationships\<close> offers, in the order of the files and of the
  import statements in each: one for every statement that resolves to the path of a
  module other than the importing file.
\<close>

definition importCandidate ::
  "Module list \<Rightarrow> FileContext list \<Rightarrow> FileContext \<Rightarrow> string \<Rightarrow> Relationship list" where
  "importCandidate allModules allFiles file imp =
     (case matchFirst noFlags quotedRegex imp of
        None \<Rightarrow> []
      | Some m \<Rightarrow>
          (case resolveImportPath (getCap 1 (snd m)) (fc_path file) allFiles of
             None \<Rightarrow> []
           | Some resolvedPath \<Rightarrow>
               if resolvedPath \<noteq> [] \<and> resolvedPath \<in> set (map m_path allModules)
                  \<and> resolvedPath \<noteq> fc_path file
               then [importEdge (fc_path file) resolvedPath] else []))"

definition importCandidates :: "Module list \<Rightarrow> FileContext list \<Rightarrow> Relationship list" where
  "importCandidates allModules allFiles =
     concat (map (\<lambda>file. concat (map (importCandidate allModules allFiles file) (fileImports file)))
                 allFiles)"

lemma firstPerKey_append:
  "firstPerKey key seen (xs @ ys) =
     firstPerKey key seen xs @ firstPerKey key (seen @ map key (firstPerKey key seen xs)) ys"
  by (induction xs arbitrary: seen) auto

lemma firstPerKey_keys:
  "distinct (map key (firstPerKey key seen xs))
   \<and> set (map key (firstPerKey key seen xs)) \<inter> set seen = {}"
proof (induction xs arbitrary: seen)
  case Nil
  show ?case by simp
next
  case (Cons x xs)
  show ?case
  proof (cases "key x \<in> set seen")
    case True
    with Cons.IH[of seen] show ?thesis by simp
  next
    case False
    with Cons.IH[of "seen @ [key x]"] show ?thesis by auto
  qed
qed

lemma firstPerKey_subset: "set (firstPerKey key seen xs) \<subseteq> set xs"
  by (induction xs arbitrary: seen) auto

lemma fold_addRelationship:
  "fold addRelationship rs (rels, ks) =
     (rels @ firstPerKey relationshipKey ks rs,
      ks @ map relationshipKey (firstPerKey relationshipKey ks rs))"
  by (induction rs arbitrary: rels ks)
     (auto simp: addRelationship_def relationshipKey_def Let_def)

lemma fold_chunks_addRelationship:
  "fold (\<lambda>chunk acc. fold addRelationship (a_relationships chunk) acc) cs (rels, ks) =
     (rels @ firstPerKey relationshipKey ks (concat (map a_relationships cs)),
      ks @ map relationshipKey (firstPerKey relationshipKey ks (concat (map a_relationships cs))))"
  by (induction cs arbitrary: rels ks) (simp_all add: fold_addRelationship firstPerKey_append)

lemma mergeRelationships_firstPerKey:
  "mergeRelationships cs = firstPerKey relationshipKey [] (concat (map a_relationships cs))"
  by (simp add: mergeRelationships_def fold_chunks_addRelationship)

lemma relationshipKey_importEdge [simp]: "relationshipKey (importEdge f t) = relKey f t"
  by (simp add: relationshipKey_def importEdge_def)

lemma addImportEdge_candidate:
  "addImportEdge ms fs file imp acc = fold addRelationship (importCandidate ms fs file imp) acc"
  by (cases acc)
     (auto simp: addImportEdge_def importCandidate_def addRelationship_def Let_def
                 relationshipKey_def importEdge_def
           split: option.splits)

lemma fold_addImportEdge:
  "fold (addImportEdge ms fs file) imps acc =
     fold addRelationship (concat (map (importCandidate ms fs file) imps)) acc"
  by (induction imps arbitrary: acc) (simp_all add: addImportEdge_candidate)

lemma fold_files_addImportEdge:
  "fold (\<lambda>file acc. fold (addImportEdge ms fs file) (fileImports file) acc) files acc =
     fold addRelationship
       (concat (map (\<lambda>file. concat (map (importCandidate ms fs file) (fileImports file))) files))
       acc"
  by (induction files arbitrary: acc) (simp_all add: fold_addImportEdge)

lemma inferAllRelationships_firstPerKey:
  "inferAllRelationships ms fs existing =
     existing @ firstPerKey relationshipKey (map relationshipKey existing) (importCandidates ms fs)"
proof -
  have e: "map (\<lambda>r. relKey (r_from r) (r_to r)) existing = map relationshipKey existing"
    by (simp add: relationshipKey_def)
  show ?thesis
    unfolding inferAllRelationships_def e fold_files_addImportEdge
    by (simp add: fold_addRelationship importCandidates_def)
qed

lemma a_relationships_merge:
  "a_relationships (mergeChunkResults cs files sel) =
     firstPerKey relationshipKey []
       (concat (map a_relationships cs)
        @ importCandidates (a_modules (mergeChunkResults cs files sel)) files)"
  by (simp add: mergeChunkResults_def Let_def inferAllRelationships_firstPerKey
      mergeRelationships_firstPerKey firstPerKey_append)

section \<open>Modules of the merged graph\<close>

definition countPath :: "string \<Rightarrow> Module list \<Rightarrow> nat" where
  "countPath p ms = length (filter (\<lambda>m. m_path m = p) ms)"

lemma fold_module_dedup:
  "fold (\<lambda>m mm. if m_path m \<notin> m_path ` set mm then mm @ [m] else mm) ms acc =
     acc @ firstPerKey m_path (map m_path acc) ms"
  by (induction ms arbitrary: acc) auto

lemma fold_chunks_modules:
  "fold (\<lambda>chunk moduleMap.
           fold (\<lambda>m mm. if m_path m \<notin> m_path ` set mm then mm @ [m] else mm)
                (a_modules chunk) moduleMap) cs acc =
     acc @ firstPerKey m_path (map m_path acc) (concat (map a_modules cs))"
  by (induction cs arbitrary: acc) (simp_all add: fold_module_dedup firstPerKey_append)

lemma mergeModules_firstPerKey:
  "mergeModules cs = firstPerKey m_path [] (concat (map a_modules cs))"
  by (simp add: mergeModules_def fold_chunks_modules)

lemma distinct_mergeModules: "distinct (map m_path (mergeModules cs))"
  using firstPerKey_keys[of m_path "[]"] by (simp add: mergeModules_firstPerKey)

lemma fold_backfill:
  "fold (\<lambda>file allModules. if fc_path file \<notin> A then allModules @ [fallbackModule file]
                            else allModules) fs acc =
     acc @ map fallbackModule (filter (\<lambda>f. fc_path f \<notin> A) fs)"
  by (induction fs arbitrary: acc) auto

lemma mergeWithAllFiles_eq:
  "mergeWithAllFiles analyzed allFiles sel =
     analyzed @ map fallbackModule (filter (\<lambda>f. fc_path f \<notin> set (map m_path analyzed)) allFiles)"
  by (simp add: mergeWithAllFiles_def Let_def fold_backfill)

lemma m_path_fallbackModule [simp]: "m_path (fallbackModule f) = fc_path f"
  by (simp add: fallbackModule_def)

lemma countPath_distinct:
  "distinct (map m_path ms) \<Longrightarrow> countPath p ms = (if p \<in> set (map m_path ms) then 1 else 0)"
proof (induction ms)
  case Nil
  show ?case by (simp add: countPath_def)
next
  case (Cons m ms)
  then show ?case by (auto simp: countPath_def)
qed

lemma countPath_append [simp]: "countPath p (xs @ ys) = countPath p xs + countPath p ys"
  by (simp add: countPath_def)

lemma countPath_backfill:
  "countPath p (map fallbackModule (filter (\<lambda>f. fc_path f \<notin> A) fs)) =
     (if p \<in> A then 0 else length (filter (\<lambda>f. fc_path f = p) fs))"
proof (induction fs)
  case Nil
  show ?case by (simp add: countPath_def)
next
  case (Cons f fs)
  then show ?case by (auto simp: countPath_def)
qed

lemma a_modules_merge:
  "a_modules (mergeChunkResults cs files sel) =
     mergeModules cs
     @ map fallbackModule (filter (\<lambda>f. fc_path f \<notin> set (map m_path (mergeModules cs))) files)"
  by (simp add: mergeChunkResults_def Let_def mergeWithAllFiles_eq)

lemma countPath_merge:
  "countPath p (a_modules (mergeChunkResults cs files sel)) =
     (if p \<in> set (map m_path (mergeModules cs)) then 1
      else length (filter (\<lambda>f. fc_path f = p) files))"
  by (simp add: a_modules_merge countPath_backfill countPath_distinct[OF distinct_mergeModules])

lemma count_distinct_path:
  "distinct (map fc_path fs) \<Longrightarrow> f \<in> set fs \<Longrightarrow> length (filter (\<lambda>g. fc_path g = fc_path f) fs) = 1"
proof (induction fs)
  case Nil
  then show ?case by simp
next
  case (Cons g gs)
  show ?case
  proof (cases "fc_path g = fc_path f")
    case True
    with Cons.prems have "fc_path f \<notin> fc_path ` set gs" by auto
    then have "filter (\<lambda>h. fc_path h = fc_path f) gs = []"
      by (force simp: filter_empty_conv image_iff)
    with True show ?thesis by simp
  next
    case False
    with Cons show ?thesis by auto
  qed
qed

lemma count_member_path:
  "f \<in> set fs \<Longrightarrow> 1 \<le> length (filter (\<lambda>g. fc_path g = fc_path f) fs)"
  by (induction fs) auto

lemma analyze_merge:
  "\<exists>cs. analyze rt svc files = mergeChunkResults cs files (selectedFilesOf files)"
  by (auto simp: analyze_def Let_def)

lemma chunksOf_short: "fs \<noteq> [] \<Longrightarrow> length fs \<le> 5 \<Longrightarrow> chunksOf fs = [fs]"
  by (subst chunksOf.simps) (simp add: chunkSize_def chunksOf.simps)

lemma selectedFilesOf_short: "length fs \<le> 5 \<Longrightarrow> selectedFilesOf fs = fs"
  by (simp add: selectedFilesOf_def maxFilesFor_def)

lemma analyze_short:
  "fs \<noteq> [] \<Longrightarrow> length fs \<le> 5 \<Longrightarrow>
     analyze rt svc fs = mergeChunkResults [analyzeChunk rt svc fs 1] fs fs"
  by (simp add: analyze_def selectedFilesOf_short chunksOf_short Let_def)

lemma analyzeChunk_failing:
  "analyzeChunk rt failingService fs i = createFallbackAnalysis fs"
  by (simp add: analyzeChunk_def failingService_def)


section \<open>How many files are analyzed\<close>

lemma fold_pushEntryPoint:
  "\<exists>extra. fst (fold (pushEntryPoint files) eps acc) = fst acc @ extra"
proof (induction eps arbitrary: acc)
  case Nil
  show ?case by simp
next
  case (Cons e eps)
  have "\<exists>x. fst (pushEntryPoint files e acc) = fst acc @ x"
    by (cases "find (\<lambda>f. fc_path f = e) files") (simp_all add: pushEntryPoint_def)
  then obtain x where x: "fst (pushEntryPoint files e acc) = fst acc @ x" by blast
  from Cons.IH[of "pushEntryPoint files e acc"] obtain y where
    "fst (fold (pushEntryPoint files) eps (pushEntryPoint files e acc))
       = fst (pushEntryPoint files e acc) @ y" by blast
  with x show ?case by simp
qed

lemma length_sortedFiles [simp]: "length (sortedFiles files) = length files"
  by (simp add: sortedFiles_def)

lemma set_sortedFiles [simp]: "set (sortedFiles files) = set files"
  by (simp add: sortedFiles_def)

text \<open>
  Past the size test, \<open>selectImportantFiles\<close> returns the first \<open>k\<close> files of the
  ranking: the entry points are pushed behind them, and the final \<open>slice(0, maxFiles)\<close>
  cuts them off again.
\<close>

lemma selectImportantFiles_top:
  "length files > k \<Longrightarrow> selectImportantFiles files k = take k (sortedFiles files)"
proof -
  assume k: "length files > k"
  obtain extra where
    e: "fst (fold (pushEntryPoint files) (findEntryPoints files)
               (take k (sortedFiles files), map fc_path (take k (sortedFiles files))))
        = take k (sortedFiles files) @ extra"
    using fold_pushEntryPoint[of files "findEntryPoints files"
        "(take k (sortedFiles files), map fc_path (take k (sortedFiles files)))"]
    by auto
  from k have "length (take k (sortedFiles files)) = k" by simp
  then have "take k (take k (sortedFiles files) @ extra) = take k (sortedFiles files)"
    by simp
  with k e show ?thesis by (simp add: selectImportantFiles_def Let_def)
qed


lemma set_selectImportantFiles: "set (selectImportantFiles files k) \<subseteq> set files"
proof (cases "length files \<le> k")
  case True
  then show ?thesis by (simp add: selectImportantFiles_def)
next
  case False
  then have "selectImportantFiles files k = take k (sortedFiles files)"
    by (simp add: selectImportantFiles_top)
  then show ?thesis using set_take_subset[of k "sortedFiles files"] by simp
qed


lemma concat_chunksOf: "concat (chunksOf fs) = fs"
proof (induction fs rule: chunksOf.induct)
  case (1 fs)
  show ?case
  proof (cases "fs = []")
    case True
    then show ?thesis by (subst chunksOf.simps) simp
  next
    case False
    with 1 have "concat (chunksOf (drop chunkSize fs)) = drop chunkSize fs" by simp
    with False show ?thesis by (subst chunksOf.simps) simp
  qed
qed







section \<open>Evaluation of the file selector\<close>

text \<open>
  The case mappings on the ASCII code units, as a table, and the rules that evaluate a
  regular expression on a given text.
\<close>

lemma toUpperChar_ascii:
  "toUpperChar (CHR 0x09) = CHR 0x09"
  "toUpperChar (CHR 0x0A) = CHR 0x0A"
  "toUpperChar (CHR 0x0D) = CHR 0x0D"
  "toUpperChar (CHR 0x20) = CHR 0x20"
  "toUpperChar (CHR 0x21) = CHR 0x21"
  "toUpperChar (CHR 0x22) = CHR 0x22"
  "toUpperChar (CHR 0x23) = CHR 0x23"
  "toUpperChar (CHR 0x24) = CHR 0x24"
  "toUpperChar (CHR 0x25) = CHR 0x25"
  "toUpperChar (CHR 0x26) = CHR 0x26"
  "toUpperChar (CHR 0x27) = CHR 0x27"
  "toUpperChar (CHR 0x28) = CHR 0x28"
  "toUpperChar (CHR 0x29) = CHR 0x29"
  "toUpperChar (CHR 0x2A) = CHR 0x2A"
  "toUpperChar (CHR 0x2B) = CHR 0x2B"
  "toUpperChar (CHR 0x2C) = CHR 0x2C"
  "toUpperChar (CHR 0x2D) = CHR 0x2D"
  "toUpperChar (CHR 0x2E) = CHR 0x2E"
  "toUpperChar (CHR 0x2F) = CHR 0x2F"
  "toUpperChar (CHR 0x30) = CHR 0x30"
  "toUpperChar (CHR 0x31) = CHR 0x31"
  "toUpperChar (CHR 0x32) = CHR 0x32"
  "toUpperChar (CHR 0x33) = CHR 0x33"
  "toUpperChar (CHR 0x34) = CHR 0x34"
  "toUpperChar (CHR 0x35) = CHR 0x35"
  "toUpperChar (CHR 0x36) = CHR 0x36"
  "toUpperChar (CHR 0x37) = CHR 0x37"
  "toUpperChar (CHR 0x38) = CHR 0x38"
  "toUpperChar (CHR 0x39) = CHR 0x39"
  "toUpperChar (CHR 0x3A) = CHR 0x3A"
  "toUpperChar (CHR 0x3B) = CHR 0x3B"
  "toUpperChar (CHR 0x3C) = CHR 0x3C"
  "toUpperChar (CHR 0x3D) = CHR 0x3D"
  "toUpperChar (CHR 0x3E) = CHR 0x3E"
  "toUpperChar (CHR 0x3F) = CHR 0x3F"
  "toUpperChar (CHR 0x40) = CHR 0x40"
  "toUpperChar (CHR 0x41) = CHR 0x41"
  "toUpperChar (CHR 0x42) = CHR 0x42"
  "toUpperChar (CHR 0x43) = CHR 0x43"
  "toUpperChar (CHR 0x44) = CHR 0x44"
  "toUpperChar (CHR 0x45) = CHR 0x45"
  "toUpperChar (CHR 0x46) = CHR 0x46"
  "toUpperChar (CHR 0x47) = CHR 0x47"
  "toUpperChar (CHR 0x48) = CHR 0x48"
  "toUpperChar (CHR 0x49) = CHR 0x49"
  "toUpperChar (CHR 0x4A) = CHR 0x4A"
  "toUpperChar (CHR 0x4B) = CHR 0x4B"
  "toUpperChar (CHR 0x4C) = CHR 0x4C"
  "toUpperChar (CHR 0x4D) = CHR 0x4D"
  "toUpperChar (CHR 0x4E) = CHR 0x4E"
  "toUpperChar (CHR 0x4F) = CHR 0x4F"
  "toUpperChar (CHR 0x50) = CHR 0x50"
  "toUpperChar (CHR 0x51) = CHR 0x51"
  "toUpperChar (CHR 0x52) = CHR 0x52"
  "toUpperChar (CHR 0x53) = CHR 0x53"
  "toUpperChar (CHR 0x54) = CHR 0x54"
  "toUpperChar (CHR 0x55) = CHR 0x55"
  "toUpperChar (CHR 0x56) = CHR 0x56"
  "toUpperChar (CHR 0x57) = CHR 0x57"
  "toUpperChar (CHR 0x58) = CHR 0x58"
  "toUpperChar (CHR 0x59) = CHR 0x59"
  "toUpperChar (CHR 0x5A) = CHR 0x5A"
  "toUpperChar (CHR 0x5B) = CHR 0x5B"
  "toUpperChar (CHR 0x5C) = CHR 0x5C"
  "toUpperChar (CHR 0x5D) = CHR 0x5D"
  "toUpperChar (CHR 0x5E) = CHR 0x5E"
  "toUpperChar (CHR 0x5F) = CHR 0x5F"
  "toUpperChar (CHR 0x60) = CHR 0x60"
  "toUpperChar (CHR 0x61) = CHR 0x41"
  "toUpperChar (CHR 0x62) = CHR 0x42"
  "toUpperChar (CHR 0x63) = CHR 0x43"
  "toUpperChar (CHR 0x64) = CHR 0x44"
  "toUpperChar (CHR 0x65) = CHR 0x45"
  "toUpperChar (CHR 0x66) = CHR 0x46"
  "toUpperChar (CHR 0x67) = CHR 0x47"
  "toUpperChar (CHR 0x68) = CHR 0x48"
  "toUpperChar (CHR 0x69) = CHR 0x49"
  "toUpperChar (CHR 0x6A) = CHR 0x4A"
  "toUpperChar (CHR 0x6B) = CHR 0x4B"
  "toUpperChar (CHR 0x6C) = CHR 0x4C"
  "toUpperChar (CHR 0x6D) = CHR 0x4D"
  "toUpperChar (CHR 0x6E) = CHR 0x4E"
  "toUpperChar (CHR 0x6F) = CHR 0x4F"
  "toUpperChar (CHR 0x70) = CHR 0x50"
  "toUpperChar (CHR 0x71) = CHR 0x51"
  "toUpperChar (CHR 0x72) = CHR 0x52"
  "toUpperChar (CHR 0x73) = CHR 0x53"
  "toUpperChar (CHR 0x74) = CHR 0x54"
  "toUpperChar (CHR 0x75) = CHR 0x55"
  "toUpperChar (CHR 0x76) = CHR 0x56"
  "toUpperChar (CHR 0x77) = CHR 0x57"
  "toUpperChar (CHR 0x78) = CHR 0x58"
  "toUpperChar (CHR 0x79) = CHR 0x59"
  "toUpperChar (CHR 0x7A) = CHR 0x5A"
  "toUpperChar (CHR 0x7B) = CHR 0x7B"
  "toUpperChar (CHR 0x7C) = CHR 0x7C"
  "toUpperChar (CHR 0x7D) = CHR 0x7D"
  "toUpperChar (CHR 0x7E) = CHR 0x7E"
  by (simp_all add: toUpperChar_def inRange_def code_def char_of_def bit_Suc_0_iff)

lemma toLowerChar_ascii:
  "toLowerChar (CHR 0x09) = CHR 0x09"
  "toLowerChar (CHR 0x0A) = CHR 0x0A"
  "toLowerChar (CHR 0x0D) = CHR 0x0D"
  "toLowerChar (CHR 0x20) = CHR 0x20"
  "toLowerChar (CHR 0x21) = CHR 0x21"
  "toLowerChar (CHR 0x22) = CHR 0x22"
  "toLowerChar (CHR 0x23) = CHR 0x23"
  "toLowerChar (CHR 0x24) = CHR 0x24"
  "toLowerChar (CHR 0x25) = CHR 0x25"
  "toLowerChar (CHR 0x26) = CHR 0x26"
  "toLowerChar (CHR 0x27) = CHR 0x27"
  "toLowerChar (CHR 0x28) = CHR 0x28"
  "toLowerChar (CHR 0x29) = CHR 0x29"
  "toLowerChar (CHR 0x2A) = CHR 0x2A"
  "toLowerChar (CHR 0x2B) = CHR 0x2B"
  "toLowerChar (CHR 0x2C) = CHR 0x2C"
  "toLowerChar (CHR 0x2D) = CHR 0x2D"
  "toLowerChar (CHR 0x2E) = CHR 0x2E"
  "toLowerChar (CHR 0x2F) = CHR 0x2F"
  "toLowerChar (CHR 0x30) = CHR 0x30"
  "toLowerChar (CHR 0x31) = CHR 0x31"
  "toLowerChar (CHR 0x32) = CHR 0x32"
  "toLowerChar (CHR 0x33) = CHR 0x33"
  "toLowerChar (CHR 0x34) = CHR 0x34"
  "toLowerChar (CHR 0x35) = CHR 0x35"
  "toLowerChar (CHR 0x36) = CHR 0x36"
  "toLowerChar (CHR 0x37) = CHR 0x37"
  "toLowerChar (CHR 0x38) = CHR 0x38"
  "toLowerChar (CHR 0x39) = CHR 0x39"
  "toLowerChar (CHR 0x3A) = CHR 0x3A"
  "toLowerChar (CHR 0x3B) = CHR 0x3B"
  "toLowerChar (CHR 0x3C) = CHR 0x3C"
  "toLowerChar (CHR 0x3D) = CHR 0x3D"
  "toLowerChar (CHR 0x3E) = CHR 0x3E"
  "toLowerChar (CHR 0x3F) = CHR 0x3F"
  "toLowerChar (CHR 0x40) = CHR 0x40"
  "toLowerChar (CHR 0x41) = CHR 0x61"
  "toLowerChar (CHR 0x42) = CHR 0x62"
  "toLowerChar (CHR 0x43) = CHR 0x63"
  "toLowerChar (CHR 0x44) = CHR 0x64"
  "toLowerChar (CHR 0x45) = CHR 0x65"
  "toLowerChar (CHR 0x46) = CHR 0x66"
  "toLowerChar (CHR 0x47) = CHR 0x67"
  "toLowerChar (CHR 0x48) = CHR 0x68"
  "toLowerChar (CHR 0x49) = CHR 0x69"
  "toLowerChar (CHR 0x4A) = CHR 0x6A"
  "toLowerChar (CHR 0x4B) = CHR 0x6B"
  "toLowerChar (CHR 0x4C) = CHR 0x6C"
  "toLowerChar (CHR 0x4D) = CHR 0x6D"
  "toLowerChar (CHR 0x4E) = CHR 0x6E"
  "toLowerChar (CHR 0x4F) = CHR 0x6F"
  "toLowerChar (CHR 0x50) = CHR 0x70"
  "toLowerChar (CHR 0x51) = CHR 0x71"
  "toLowerChar (CHR 0x52) = CHR 0x72"
  "toLowerChar (CHR 0x53) = CHR 0x73"
  "toLowerChar (CHR 0x54) = CHR 0x74"
  "toLowerChar (CHR 0x55) = CHR 0x75"
  "toLowerChar (CHR 0x56) = CHR 0x76"
  "toLowerChar (CHR 0x57) = CHR 0x77"
  "toLowerChar (CHR 0x58) = CHR 0x78"
  "toLowerChar (CHR 0x59) = CHR 0x79"
  "toLowerChar (CHR 0x5A) = CHR 0x7A"
  "toLowerChar (CHR 0x5B) = CHR 0x5B"
  "toLowerChar (CHR 0x5C) = CHR 0x5C"
  "toLowerChar (CHR 0x5D) = CHR 0x5D"
  "toLowerChar (CHR 0x5E) = CHR 0x5E"
  "toLowerChar (CHR 0x5F) = CHR 0x5F"
  "toLowerChar (CHR 0x60) = CHR 0x60"
  "toLowerChar (CHR 0x61) = CHR 0x61"
  "toLowerChar (CHR 0x62) = CHR 0x62"
  "toLowerChar (CHR 0x63) = CHR 0x63"
  "toLowerChar (CHR 0x64) = CHR 0x64"
  "toLowerChar (CHR 0x65) = CHR 0x65"
  "toLowerChar (CHR 0x66) = CHR 0x66"
  "toLowerChar (CHR 0x67) = CHR 0x67"
  "toLowerChar (CHR 0x68) = CHR 0x68"
  "toLowerChar (CHR 0x69) = CHR 0x69"
  "toLowerChar (CHR 0x6A) = CHR 0x6A"
  "toLowerChar (CHR 0x6B) = CHR 0x6B"
  "toLowerChar (CHR 0x6C) = CHR 0x6C"
  "toLowerChar (CHR 0x6D) = CHR 0x6D"
  "toLowerChar (CHR 0x6E) = CHR 0x6E"
  "toLowerChar (CHR 0x6F) = CHR 0x6F"
  "toLowerChar (CHR 0x70) = CHR 0x70"
  "toLowerChar (CHR 0x71) = CHR 0x71"
  "toLowerChar (CHR 0x72) = CHR 0x72"
  "toLowerChar (CHR 0x73) = CHR 0x73"
  "toLowerChar (CHR 0x74) = CHR 0x74"
  "toLowerChar (CHR 0x75) = CHR 0x75"
  "toLowerChar (CHR 0x76) = CHR 0x76"
  "toLowerChar (CHR 0x77) = CHR 0x77"
  "toLowerChar (CHR 0x78) = CHR 0x78"
  "toLowerChar (CHR 0x79) = CHR 0x79"
  "toLowerChar (CHR 0x7A) = CHR 0x7A"
  "toLowerChar (CHR 0x7B) = CHR 0x7B"
  "toLowerChar (CHR 0x7C) = CHR 0x7C"
  "toLowerChar (CHR 0x7D) = CHR 0x7D"
  "toLowerChar (CHR 0x7E) = CHR 0x7E"
  by (simp_all add: toLowerChar_def inRange_def code_def char_of_def bit_Suc_0_iff)


lemmas rx_eval = rmatch.simps step_def sameChar_def atLineStart_def atLineEnd_def
  consumed_def isWhiteSpace_def isLineTerminator_def noFlags_def flagI_def flagM_def flagIM_def
  OneOrMore_def OneOrMoreLazy_def test_def testP_def
  matchedText_def matchFirst_def replaceFirst_def getCap_def sourceExt_def toUpperChar_ascii
  sq_def dq_def bslash_def btick_def nl_def quoteChar_def notQuote_def spaces0_def spaces1_def
  scanAll.simps replaceAll_def matchAll_def

lemmas str_eval2 = endsWith_def toLowerCase_def toLowerChar_ascii lastSegment_def split_def
  substring_def substringFrom_def clampIdx_def indexOf_def lastIndexOf_def pop_def trim_def

text \<open>
  A corpus of six files: the entry point \<open>index.ts\<close> and five files under a
  \<open>service\<close> directory. \<open>analyze\<close> selects five of them.
\<close>

definition sixFiles :: "FileContext list" where
  "sixFiles = [mkFile ''index.ts'' [], mkFile ''x/service/a.ts'' [], mkFile ''x/service/b.ts'' [],
               mkFile ''x/service/c.ts'' [], mkFile ''x/service/d.ts'' [],
               mkFile ''x/service/e.ts'' []]"

text \<open>The tests that \<open>findEntryPoints\<close> and \<open>findCoreFiles\<close> make on one path.\<close>

definition isEntryPath :: "string \<Rightarrow> bool" where
  "isEntryPath p = list_ex (\<lambda>pattern. testP pattern (lastSegment p) \<or> testP pattern (toLowerCase p))
                           entryPointPatterns"

definition isCorePath :: "string \<Rightarrow> bool" where
  "isCorePath p = list_ex (\<lambda>pattern. testP pattern (toLowerCase p)) corePatterns"

lemma findEntryPoints_fold:
  "findEntryPoints files =
     fold (\<lambda>file eps. if isEntryPath (fc_path file) then addUnique (fc_path file) eps else eps)
          files []"
  by (simp add: findEntryPoints_def isEntryPath_def Let_def)

lemma findCoreFiles_fold:
  "findCoreFiles files =
     fold (\<lambda>file cs. if isCorePath (fc_path file) then addUnique (fc_path file) cs else cs)
          files []"
  by (simp add: findCoreFiles_def isCorePath_def Let_def)

lemma entry_paths:
  "isEntryPath ''index.ts''"
  "\<not> isEntryPath ''x/service/a.ts''"
  "\<not> isEntryPath ''x/service/b.ts''"
  "\<not> isEntryPath ''x/service/c.ts''"
  "\<not> isEntryPath ''x/service/d.ts''"
  "\<not> isEntryPath ''x/service/e.ts''"
  by (simp_all add: isEntryPath_def entryPointPatterns_def rx_eval str_eval2)

lemma core_paths:
  "\<not> isCorePath ''index.ts''"
  "isCorePath ''x/service/a.ts''"
  "isCorePath ''x/service/b.ts''"
  "isCorePath ''x/service/c.ts''"
  "isCorePath ''x/service/d.ts''"
  "isCorePath ''x/service/e.ts''"
  by (simp_all add: isCorePath_def corePatterns_def rx_eval str_eval2)

lemma config_paths:
  "\<not> isConfigFile ''index.ts''"
  "\<not> isConfigFile ''x/service/a.ts''"
  "\<not> isConfigFile ''x/service/b.ts''"
  "\<not> isConfigFile ''x/service/c.ts''"
  "\<not> isConfigFile ''x/service/d.ts''"
  "\<not> isConfigFile ''x/service/e.ts''"
  by (simp_all add: isConfigFile_def configPatterns_def rx_eval str_eval2)

lemma service_paths:
  "\<not> isServiceFile ''index.ts''"
  "isServiceFile ''x/service/a.ts''"
  "isServiceFile ''x/service/b.ts''"
  "isServiceFile ''x/service/c.ts''"
  "isServiceFile ''x/service/d.ts''"
  "isServiceFile ''x/service/e.ts''"
  by (simp_all add: isServiceFile_def rx_eval str_eval2)

lemma test_paths:
  "\<not> isTestFile ''index.ts''"
  "\<not> isTestFile ''x/service/a.ts''"
  "\<not> isTestFile ''x/service/b.ts''"
  "\<not> isTestFile ''x/service/c.ts''"
  "\<not> isTestFile ''x/service/d.ts''"
  "\<not> isTestFile ''x/service/e.ts''"
  by (simp_all add: isTestFile_def rx_eval str_eval2)

lemma src_paths:
  "\<not> includesStr ''index.ts'' ''/src/'' \<and> \<not> includesStr ''index.ts'' ''/lib/''"
  "\<not> includesStr ''x/service/a.ts'' ''/src/'' \<and> \<not> includesStr ''x/service/a.ts'' ''/lib/''"
  "\<not> includesStr ''x/service/b.ts'' ''/src/'' \<and> \<not> includesStr ''x/service/b.ts'' ''/lib/''"
  "\<not> includesStr ''x/service/c.ts'' ''/src/'' \<and> \<not> includesStr ''x/service/c.ts'' ''/lib/''"
  "\<not> includesStr ''x/service/d.ts'' ''/src/'' \<and> \<not> includesStr ''x/service/d.ts'' ''/lib/''"
  "\<not> includesStr ''x/service/e.ts'' ''/src/'' \<and> \<not> includesStr ''x/service/e.ts'' ''/lib/''"
  by (simp_all add: str_eval2)


lemma findEntryPoints_six: "findEntryPoints sixFiles = [''index.ts'']"
  by (simp add: findEntryPoints_fold sixFiles_def mkFile_def entry_paths addUnique_def)

lemma findCoreFiles_six:
  "findCoreFiles sixFiles = [''x/service/a.ts'', ''x/service/b.ts'', ''x/service/c.ts'',
                             ''x/service/d.ts'', ''x/service/e.ts'']"
  by (simp add: findCoreFiles_fold sixFiles_def mkFile_def core_paths addUnique_def)

lemma extractImports_empty: "extractImports [] p = []"
  by (simp add: extractImports_def es6ImportRegex_def requireRegex_def importClause_def rx_eval)

lemma fold_id: "(\<And>x. x \<in> set xs \<Longrightarrow> f x = id) \<Longrightarrow> fold f xs a = a"
  by (induction xs arbitrary: a) simp_all

lemma buildImportGraph_no_imports:
  assumes "\<And>f. f \<in> set fs \<Longrightarrow> extractImports (fc_content f) (fc_path f) = []"
  shows "buildImportGraph fs = initGraph fs"
  unfolding buildImportGraph_def
  by (rule fold_id) (simp add: assms id_def)

lemma initGraph_nodes:
  "fold (\<lambda>file graph. graph(fc_path file \<mapsto> \<lparr>g_imports = [], g_importedBy = []\<rparr>)) fs g p = Some n
   \<Longrightarrow> (\<And>q m. g q = Some m \<Longrightarrow> g_imports m = [] \<and> g_importedBy m = [])
   \<Longrightarrow> g_imports n = [] \<and> g_importedBy n = []"
proof (induction fs arbitrary: g)
  case Nil
  then show ?case by simp
next
  case (Cons f fs)
  show ?case
  proof (rule Cons.IH)
    show "fold (\<lambda>file graph. graph(fc_path file \<mapsto> \<lparr>g_imports = [], g_importedBy = []\<rparr>)) fs
            (g(fc_path f \<mapsto> \<lparr>g_imports = [], g_importedBy = []\<rparr>)) p = Some n"
      using Cons.prems(1) by (simp only: fold_simps o_apply)
  next
    fix q m
    assume "(g(fc_path f \<mapsto> \<lparr>g_imports = [], g_importedBy = []\<rparr>)) q = Some m"
    then show "g_imports m = [] \<and> g_importedBy m = []"
      using Cons.prems(2) by (auto split: if_splits)
  qed
qed

lemma nodeCount_initGraph [simp]:
  "nodeCount g_imports (initGraph fs) p = 0" "nodeCount g_importedBy (initGraph fs) p = 0"
proof -
  have "\<And>n. initGraph fs p = Some n \<Longrightarrow> g_imports n = [] \<and> g_importedBy n = []"
    unfolding initGraph_def by (rule initGraph_nodes) auto
  then show "nodeCount g_imports (initGraph fs) p = 0" "nodeCount g_importedBy (initGraph fs) p = 0"
    by (auto simp: nodeCount_def split: option.splits)
qed

lemma buildImportGraph_six: "buildImportGraph sixFiles = initGraph sixFiles"
  by (rule buildImportGraph_no_imports) (auto simp: sixFiles_def mkFile_def extractImports_empty)

lemma fileScores_six:
  "fileScores sixFiles =
     fold (\<lambda>file scores. scores(fc_path file \<mapsto>
             scoreFile [''index.ts''] (findCoreFiles sixFiles) (initGraph sixFiles) file))
          sixFiles Map.empty"
  by (simp only: fileScores_def Let_def findEntryPoints_six buildImportGraph_six)

lemma scoreFile_six:
  "scoreFile [''index.ts''] (findCoreFiles sixFiles) (initGraph sixFiles) (mkFile ''index.ts'' []) = 100"
  "scoreFile [''index.ts''] (findCoreFiles sixFiles) (initGraph sixFiles) (mkFile ''x/service/a.ts'' []) = 110"
  "scoreFile [''index.ts''] (findCoreFiles sixFiles) (initGraph sixFiles) (mkFile ''x/service/b.ts'' []) = 110"
  "scoreFile [''index.ts''] (findCoreFiles sixFiles) (initGraph sixFiles) (mkFile ''x/service/c.ts'' []) = 110"
  "scoreFile [''index.ts''] (findCoreFiles sixFiles) (initGraph sixFiles) (mkFile ''x/service/d.ts'' []) = 110"
  "scoreFile [''index.ts''] (findCoreFiles sixFiles) (initGraph sixFiles) (mkFile ''x/service/e.ts'' []) = 110"
  by (simp_all add: scoreFile_def findCoreFiles_six mkFile_def config_paths service_paths test_paths
      src_paths)

lemma getScore_six:
  "getScore (fileScores sixFiles) (mkFile ''index.ts'' []) = 100"
  "getScore (fileScores sixFiles) (mkFile ''x/service/a.ts'' []) = 110"
  "getScore (fileScores sixFiles) (mkFile ''x/service/b.ts'' []) = 110"
  "getScore (fileScores sixFiles) (mkFile ''x/service/c.ts'' []) = 110"
  "getScore (fileScores sixFiles) (mkFile ''x/service/d.ts'' []) = 110"
  "getScore (fileScores sixFiles) (mkFile ''x/service/e.ts'' []) = 110"
proof -
  have m: "fileScores sixFiles =
      [''index.ts'' \<mapsto> 100, ''x/service/a.ts'' \<mapsto> 110, ''x/service/b.ts'' \<mapsto> 110,
       ''x/service/c.ts'' \<mapsto> 110, ''x/service/d.ts'' \<mapsto> 110, ''x/service/e.ts'' \<mapsto> 110]"
    unfolding fileScores_six
    by (subst sixFiles_def) (simp add: scoreFile_six, simp add: mkFile_def)
  show "getScore (fileScores sixFiles) (mkFile ''index.ts'' []) = 100"
    "getScore (fileScores sixFiles) (mkFile ''x/service/a.ts'' []) = 110"
    "getScore (fileScores sixFiles) (mkFile ''x/service/b.ts'' []) = 110"
    "getScore (fileScores sixFiles) (mkFile ''x/service/c.ts'' []) = 110"
    "getScore (fileScores sixFiles) (mkFile ''x/service/d.ts'' []) = 110"
    "getScore (fileScores sixFiles) (mkFile ''x/service/e.ts'' []) = 110"
    unfolding m by (simp_all add: getScore_def mkFile_def)
qed

lemma sortedFiles_six:
  "sortedFiles sixFiles =
     [mkFile ''x/service/a.ts'' [], mkFile ''x/service/b.ts'' [], mkFile ''x/service/c.ts'' [],
      mkFile ''x/service/d.ts'' [], mkFile ''x/service/e.ts'' [], mkFile ''index.ts'' []]"
  unfolding sortedFiles_def
  by (subst (2) sixFiles_def) (simp add: getScore_six)

text \<open>
  C5 fails on the code: on the six files, \<open>index.ts\<close> is the one entry point detected and
  scores 100, each service file scores 110, and the selection of five is the five
  service files. The entry point is pushed behind them and cut off by the final
  \<open>slice(0, maxFiles)\<close>; no file is dropped to make room for it.
\<close>

theorem entry_point_dropped:
  "length sixFiles = 6
   \<and> selectedFilesOf sixFiles = selectImportantFiles sixFiles 5
   \<and> findEntryPoints sixFiles = [''index.ts'']
   \<and> map fc_path (selectImportantFiles sixFiles 5) =
       [''x/service/a.ts'', ''x/service/b.ts'', ''x/service/c.ts'', ''x/service/d.ts'',
        ''x/service/e.ts'']"
proof -
  have l: "length sixFiles = 6" by (simp add: sixFiles_def)
  then have s: "selectedFilesOf sixFiles = selectImportantFiles sixFiles 5"
    by (simp add: selectedFilesOf_def maxFilesFor_def)
  from l have "selectImportantFiles sixFiles 5 = take 5 (sortedFiles sixFiles)"
    by (simp add: selectImportantFiles_top)
  then have "map fc_path (selectImportantFiles sixFiles 5) =
       [''x/service/a.ts'', ''x/service/b.ts'', ''x/service/c.ts'', ''x/service/d.ts'',
        ''x/service/e.ts'']"
    by (simp add: sortedFiles_six mkFile_def)
  with l s findEntryPoints_six show ?thesis by simp
qed

section \<open>Import resolution\<close>

lemma stripSourceExt_examples:
  "stripSourceExt ''./util'' = ''./util''"
  "stripSourceExt ''./missing'' = ''./missing''"
  "stripSourceExt ''src/a.ts'' = ''src/a''"
  "stripSourceExt ''src/util.ts'' = ''src/util''"
  by (simp_all add: stripSourceExt_def rx_eval)

lemma resolveRelativePath_util: "resolveRelativePath ''./util'' ''src'' = ''src/util''"
  "resolveRelativePath ''./missing'' ''src'' = ''src/missing''"
  by (simp_all add: resolveRelativePath_def str_eval2)

lemma fromDir_a: "substring ''src/a.ts'' 0 (lastIndexOf ''src/a.ts'' CHR ''/'') = ''src''"
  by (simp add: str_eval2)

lemma find_path: "find P files = Some f \<Longrightarrow> f \<in> set files"
  by (induction files) (auto split: if_splits)

lemma resolveImport_in_corpus:
  "resolveImport imp fromFile files \<in> insert None (Some ` fc_path ` set files)"
proof (cases "resolveImport imp fromFile files")
  case None
  then show ?thesis by simp
next
  case (Some p)
  then obtain P where "map_option fc_path (find P files) = Some p"
    by (auto simp: resolveImport_def Let_def split: if_splits)
  then obtain f where "find P files = Some f" "p = fc_path f" by auto
  with find_path[of P files f] Some show ?thesis by auto
qed

lemma find_first: "find P files = Some f \<Longrightarrow> P f"
  by (induction files) (auto split: if_splits)

lemma find_exists: "f \<in> set files \<Longrightarrow> P f \<Longrightarrow> find P files \<noteq> None"
  by (induction files) auto

text \<open>
  C8: in a corpus that contains \<open>src/util.ts\<close>, and in which no other file's path
  without its source extension is \<open>src/util\<close> or ends with \<open>/src/util\<close>, the literal
  \<open>./util\<close> read in \<open>src/a.ts\<close> resolves to \<open>src/util.ts\<close>; the literal is what
  \<open>extractImports\<close> reads from the import statement. A literal that matches no file
  resolves to nothing, and every resolution, for any literal, importer and corpus, is
  the path of a file of the corpus.
\<close>

theorem import_resolution:
  assumes present: "g \<in> set files" "fc_path g = ''src/util.ts''"
    and only: "\<forall>f \<in> set files.
        stripSourceExt (fc_path f) = ''src/util'' \<or> endsWith (stripSourceExt (fc_path f)) ''/src/util''
        \<longrightarrow> fc_path f = ''src/util.ts''"
  shows "extractImports (''import {x} from '' @ [sq] @ ''./util'' @ [sq]) ''src/a.ts'' = [''./util'']
   \<and> resolveImport ''./util'' ''src/a.ts'' files = Some ''src/util.ts''
   \<and> resolveImport ''./missing'' ''src/a.ts'' [mkFile ''src/a.ts'' c1, mkFile ''src/util.ts'' c2]
       = None
   \<and> resolveImport imp fromFile corpus \<in> insert None (Some ` fc_path ` set corpus)"
proof (intro conjI)
  show "extractImports (''import {x} from '' @ [sq] @ ''./util'' @ [sq]) ''src/a.ts'' = [''./util'']"
    by (simp add: extractImports_def es6ImportRegex_def requireRegex_def importClause_def rx_eval
        isWordChar_def inRange_def code_def)
  define P where "P = (\<lambda>file::FileContext. stripSourceExt (fc_path file) = ''src/util''
                        \<or> endsWith (stripSourceExt (fc_path file)) (''/'' @ ''src/util''))"
  have r: "resolveImport ''./util'' ''src/a.ts'' files = map_option fc_path (find P files)"
    by (simp add: resolveImport_def Let_def stripSourceExt_examples resolveRelativePath_util
        fromDir_a P_def)
  from present have "P g" by (simp add: P_def stripSourceExt_examples)
  with present(1) obtain f where f: "find P files = Some f"
    using find_exists[of g files P] by auto
  from find_first[OF f] find_path[OF f] only have "fc_path f = ''src/util.ts''"
    by (auto simp: P_def)
  with r f show "resolveImport ''./util'' ''src/a.ts'' files = Some ''src/util.ts''" by simp
  show "resolveImport ''./missing'' ''src/a.ts'' [mkFile ''src/a.ts'' c1, mkFile ''src/util.ts'' c2]
       = None"
    by (simp add: resolveImport_def Let_def stripSourceExt_examples resolveRelativePath_util
        fromDir_a mkFile_def endsWith_def)
  show "resolveImport imp fromFile corpus \<in> insert None (Some ` fc_path ` set corpus)"
    by (rule resolveImport_in_corpus)
qed

text \<open>The import statement of the example, and the part of it that names the module.\<close>

definition importLine :: string where
  "importLine = ''import {x} from '' @ [sq] @ ''./util'' @ [sq]"

definition fromClause :: string where
  "fromClause = ''from '' @ [sq] @ ''./util'' @ [sq]"

definition utilCorpus :: "FileContext list" where
  "utilCorpus = [mkFile ''src/a.ts'' importLine, mkFile ''src/util.ts'' []]"

theorem import_resolution_witness:
  "resolveImport ''./util'' ''src/a.ts'' utilCorpus = Some ''src/util.ts''"
proof -
  have 1: "mkFile ''src/util.ts'' [] \<in> set utilCorpus" by (simp add: utilCorpus_def)
  have 2: "fc_path (mkFile ''src/util.ts'' []) = ''src/util.ts''" by (simp add: mkFile_def)
  have 3: "\<forall>f \<in> set utilCorpus.
        stripSourceExt (fc_path f) = ''src/util'' \<or> endsWith (stripSourceExt (fc_path f)) ''/src/util''
        \<longrightarrow> fc_path f = ''src/util.ts''"
    by (simp add: utilCorpus_def mkFile_def stripSourceExt_examples endsWith_def)
  from import_resolution[OF 1 2 3] show ?thesis by blast
qed


section \<open>Total failure of the service\<close>

lemma concat_fallback_modules:
  "concat (map (\<lambda>c. a_modules (createFallbackAnalysis c)) cs) = map fallbackModule (concat cs)"
  by (induction cs) (simp_all add: createFallbackAnalysis_def)

lemma candidatePatterns_fallback:
  "candidatePatterns (map createFallbackAnalysis cs) = []"
  by (induction cs) (simp_all add: candidatePatterns_def createFallbackAnalysis_def)

lemma relationships_fallback:
  "concat (map a_relationships (map createFallbackAnalysis cs)) = []"
  by (induction cs) (simp_all add: createFallbackAnalysis_def)

lemma map_snd_enumerate: "map (\<lambda>ic. f (snd ic)) (enumerate n xs) = map f xs"
  by (induction xs arbitrary: n) simp_all

lemma all_fallback_results:
  assumes "\<And>c i. analyzeChunk rt svc c i = createFallbackAnalysis c"
  shows "analyze rt svc files =
     mergeChunkResults (map createFallbackAnalysis (chunksOf (selectedFilesOf files)))
       files (selectedFilesOf files)"
  by (simp add: analyze_def Let_def assms map_snd_enumerate)

lemma mergeModules_fallback:
  "mergeModules (map createFallbackAnalysis cs) =
     firstPerKey m_path [] (map fallbackModule (concat cs))"
  by (simp add: mergeModules_firstPerKey comp_def concat_fallback_modules)

lemma resolveImportPath_in_corpus:
  "resolveImportPath imp fromPath fs = Some p \<Longrightarrow> p \<in> fc_path ` set fs"
proof -
  assume "resolveImportPath imp fromPath fs = Some p"
  then obtain P f where "find P fs = Some f" "p = fc_path f"
    by (auto simp: resolveImportPath_def Let_def split: option.splits if_splits)
  with find_path[of P fs f] show ?thesis by auto
qed

lemma importCandidate_props:
  assumes r: "r \<in> set (importCandidate ms fs file imp)"
  shows "r_type r = Imports \<and> r_from r = fc_path file \<and> r_to r \<in> fc_path ` set fs
     \<and> r_from r \<noteq> r_to r"
proof (cases "matchFirst noFlags quotedRegex imp")
  case None
  with r show ?thesis by (simp add: importCandidate_def)
next
  case (Some m)
  show ?thesis
  proof (cases "resolveImportPath (getCap 1 (snd m)) (fc_path file) fs")
    case None
    with Some r show ?thesis by (simp add: importCandidate_def)
  next
    case p: (Some p)
    from resolveImportPath_in_corpus[OF p] have "p \<in> fc_path ` set fs" .
    with Some p r show ?thesis
      by (auto simp: importCandidate_def importEdge_def split: if_splits)
  qed
qed

lemma importCandidates_props:
  "r \<in> set (importCandidates ms fs) \<Longrightarrow>
     r_type r = Imports \<and> r_from r \<in> fc_path ` set fs \<and> r_to r \<in> fc_path ` set fs
     \<and> r_from r \<noteq> r_to r"
  using importCandidate_props by (fastforce simp: importCandidates_def)

lemma importCandidates_none:
  "(\<And>f. f \<in> set fs \<Longrightarrow> fileImports f = []) \<Longrightarrow> importCandidates ms fs = []"
  by (simp add: importCandidates_def)

lemma set_firstPerKey_keys:
  "key ` set (firstPerKey key seen xs) = key ` set xs - set seen"
proof (induction xs arbitrary: seen)
  case Nil
  show ?case by simp
next
  case (Cons x xs)
  show ?case
  proof (cases "key x \<in> set seen")
    case True
    with Cons.IH[of seen] show ?thesis by auto
  next
    case False
    with Cons.IH[of "seen @ [key x]"] show ?thesis by auto
  qed
qed

lemma fallback_modules_subset:
  assumes "set sel \<subseteq> set files"
  shows "set (a_modules (mergeChunkResults (map createFallbackAnalysis (chunksOf sel)) files sel))
           \<subseteq> fallbackModule ` set files"
proof -
  have "set (mergeModules (map createFallbackAnalysis (chunksOf sel)))
          \<subseteq> set (map fallbackModule sel)"
    unfolding mergeModules_fallback concat_chunksOf by (rule firstPerKey_subset)
  also have "\<dots> = fallbackModule ` set sel" by simp
  also from assms have "\<dots> \<subseteq> fallbackModule ` set files" by (rule image_mono)
  finally have "set (mergeModules (map createFallbackAnalysis (chunksOf sel)))
          \<subseteq> fallbackModule ` set files" .
  then show ?thesis by (auto simp: a_modules_merge)
qed

lemma fallback_modules_distinct:
  assumes "distinct (map fc_path files)"
  shows "distinct (map m_path (a_modules (mergeChunkResults cs files sel)))"
proof -
  have 1: "distinct (map m_path (mergeModules cs))" by (rule distinct_mergeModules)
  have e: "map m_path (map fallbackModule (filter (\<lambda>f. fc_path f \<notin> set (map m_path (mergeModules cs))) files))
           = filter (\<lambda>p. p \<notin> set (map m_path (mergeModules cs))) (map fc_path files)"
    by (simp add: comp_def filter_map)
  from assms have 2: "distinct (filter (\<lambda>p. p \<notin> set (map m_path (mergeModules cs))) (map fc_path files))"
    by (rule distinct_filter)
  show ?thesis
    unfolding a_modules_merge map_append e using 1 2 by auto
qed

lemma fallback_modules_all:
  assumes d: "distinct (map fc_path files)" and s: "set sel \<subseteq> set files"
  shows "set (a_modules (mergeChunkResults (map createFallbackAnalysis (chunksOf sel)) files sel))
           = fallbackModule ` set files"
proof
  show "set (a_modules (mergeChunkResults (map createFallbackAnalysis (chunksOf sel)) files sel))
          \<subseteq> fallbackModule ` set files"
    using s by (rule fallback_modules_subset)
next
  let ?mm = "mergeModules (map createFallbackAnalysis (chunksOf sel))"
  show "fallbackModule ` set files
          \<subseteq> set (a_modules (mergeChunkResults (map createFallbackAnalysis (chunksOf sel)) files sel))"
  proof
    fix m
    assume "m \<in> fallbackModule ` set files"
    then obtain f where f: "f \<in> set files" "m = fallbackModule f" by auto
    show "m \<in> set (a_modules (mergeChunkResults (map createFallbackAnalysis (chunksOf sel)) files sel))"
    proof (cases "fc_path f \<in> set (map m_path ?mm)")
      case True
      then obtain m' where m': "m' \<in> set ?mm" "m_path m' = fc_path f" by auto
      have "set ?mm \<subseteq> set (map fallbackModule sel)"
        unfolding mergeModules_fallback concat_chunksOf by (rule firstPerKey_subset)
      with m'(1) obtain f' where f': "f' \<in> set sel" "m' = fallbackModule f'" by auto
      with m'(2) have "fc_path f' = fc_path f" by simp
      moreover from f'(1) s have "f' \<in> set files" by auto
      ultimately have "f' = f" using d f(1) by (auto simp: distinct_map dest: inj_onD)
      with f' m'(1) f(2) show ?thesis by (simp add: a_modules_merge)
    next
      case False
      with f show ?thesis by (simp add: a_modules_merge)
    qed
  qed
qed

lemma fallback_modules_length:
  assumes d: "distinct (map fc_path files)" and s: "set sel \<subseteq> set files"
  shows "length (a_modules (mergeChunkResults (map createFallbackAnalysis (chunksOf sel)) files sel))
           = length files"
proof -
  let ?ms = "a_modules (mergeChunkResults (map createFallbackAnalysis (chunksOf sel)) files sel)"
  have "set (map m_path ?ms) = set (map fc_path files)"
    using fallback_modules_all[OF d s] by (auto simp: image_image)
  moreover have "distinct (map m_path ?ms)" using d by (rule fallback_modules_distinct)
  ultimately have "length (map m_path ?ms) = length (map fc_path files)"
    using d by (metis distinct_card)
  then show ?thesis by simp
qed

lemma total_failure_merge:
  assumes fb: "\<And>c i. analyzeChunk rt svc c i = createFallbackAnalysis c"
  shows "analyze rt svc files =
     mergeChunkResults (map createFallbackAnalysis (chunksOf (selectedFilesOf files)))
       files (selectedFilesOf files)"
  using fb by (rule all_fallback_results)

lemma set_selectedFilesOf: "set (selectedFilesOf files) \<subseteq> set files"
  using set_selectImportantFiles by (simp add: selectedFilesOf_def)

lemma total_failure_relationships:
  assumes fb: "\<And>c i. analyzeChunk rt svc c i = createFallbackAnalysis c"
  shows "a_relationships (analyze rt svc files) =
       firstPerKey relationshipKey [] (importCandidates (a_modules (analyze rt svc files)) files)"
proof -
  have rf: "concat (map a_relationships
              (map createFallbackAnalysis (chunksOf (selectedFilesOf files)))) = []"
    by (rule relationships_fallback)
  show ?thesis
    unfolding total_failure_merge[OF fb]
    by (subst a_relationships_merge, subst rf, simp)
qed

lemma total_failure_modules:
  assumes fb: "\<And>c i. analyzeChunk rt svc c i = createFallbackAnalysis c"
    and d: "distinct (map fc_path files)"
  shows "set (a_modules (analyze rt svc files)) = fallbackModule ` set files"
    and "length (a_modules (analyze rt svc files)) = length files"
    and "distinct (map m_path (a_modules (analyze rt svc files)))"
  unfolding total_failure_merge[OF fb]
  using fallback_modules_all[OF d set_selectedFilesOf]
    fallback_modules_length[OF d set_selectedFilesOf] fallback_modules_distinct[OF d]
  by blast+

text \<open>
  C4, as amended: when every chunk comes to the fallback fragment, \<open>analyze\<close> returns a
  graph and raises nothing. Its pattern is Unknown with confidence 0. Every module is
  the heuristic module of an input file and every input path has a module; when the
  input paths are pairwise distinct there is exactly one module per input file. Its
  relationships are the edges of the import resolver, first per key: each is an
  \<open>imports\<close> edge between two different input paths, and there is none when no file
  holds an import statement.
\<close>

theorem total_failure_graph:
  assumes fb: "\<And>c i. analyzeChunk rt svc c i = createFallbackAnalysis c"
  shows "a_pattern (analyze rt svc files) = Some (mkPattern Unknown 0 ''Could not determine pattern'')
   \<and> a_relationships (analyze rt svc files) =
       firstPerKey relationshipKey [] (importCandidates (a_modules (analyze rt svc files)) files)
   \<and> (\<forall>r \<in> set (a_relationships (analyze rt svc files)).
         r_type r = Imports \<and> r_from r \<in> fc_path ` set files \<and> r_to r \<in> fc_path ` set files
         \<and> r_from r \<noteq> r_to r)
   \<and> ((\<forall>f \<in> set files. fileImports f = []) \<longrightarrow> a_relationships (analyze rt svc files) = [])
   \<and> set (a_modules (analyze rt svc files)) \<subseteq> fallbackModule ` set files
   \<and> (\<forall>f \<in> set files. 1 \<le> countPath (fc_path f) (a_modules (analyze rt svc files)))
   \<and> (distinct (map fc_path files) \<longrightarrow>
         length (a_modules (analyze rt svc files)) = length files
         \<and> set (a_modules (analyze rt svc files)) = fallbackModule ` set files
         \<and> distinct (map m_path (a_modules (analyze rt svc files))))"
proof -
  define sel where "sel = selectedFilesOf files"
  define cs where "cs = map createFallbackAnalysis (chunksOf sel)"
  have g: "analyze rt svc files = mergeChunkResults cs files sel"
    unfolding cs_def sel_def using fb by (rule all_fallback_results)
  have s: "set sel \<subseteq> set files"
    unfolding sel_def by (rule set_selectedFilesOf)
  have p: "a_pattern (analyze rt svc files) = Some (mkPattern Unknown 0 ''Could not determine pattern'')"
    unfolding g by (simp add: a_pattern_merge bestPattern_def cs_def candidatePatterns_fallback)
  have r: "a_relationships (analyze rt svc files) =
       firstPerKey relationshipKey [] (importCandidates (a_modules (analyze rt svc files)) files)"
    using fb by (rule total_failure_relationships)
  have rp: "\<forall>r \<in> set (a_relationships (analyze rt svc files)).
         r_type r = Imports \<and> r_from r \<in> fc_path ` set files \<and> r_to r \<in> fc_path ` set files
         \<and> r_from r \<noteq> r_to r"
  proof
    fix x
    assume "x \<in> set (a_relationships (analyze rt svc files))"
    with r have "x \<in> set (importCandidates (a_modules (analyze rt svc files)) files)"
      using firstPerKey_subset by fastforce
    then show "r_type x = Imports \<and> r_from x \<in> fc_path ` set files \<and> r_to x \<in> fc_path ` set files
         \<and> r_from x \<noteq> r_to x"
      by (rule importCandidates_props)
  qed
  have rn: "(\<forall>f \<in> set files. fileImports f = []) \<longrightarrow> a_relationships (analyze rt svc files) = []"
  proof
    assume "\<forall>f \<in> set files. fileImports f = []"
    then have "importCandidates (a_modules (analyze rt svc files)) files = []"
      by (simp add: importCandidates_none)
    with r show "a_relationships (analyze rt svc files) = []" by simp
  qed
  have ms: "set (a_modules (analyze rt svc files)) \<subseteq> fallbackModule ` set files"
    unfolding g cs_def using s by (rule fallback_modules_subset)
  have mc: "\<forall>f \<in> set files. 1 \<le> countPath (fc_path f) (a_modules (analyze rt svc files))"
    unfolding g countPath_merge using count_member_path by auto
  have md: "distinct (map fc_path files) \<longrightarrow>
         length (a_modules (analyze rt svc files)) = length files
         \<and> set (a_modules (analyze rt svc files)) = fallbackModule ` set files
         \<and> distinct (map m_path (a_modules (analyze rt svc files)))"
    using total_failure_modules[OF fb] by blast
  from p r rp rn ms mc md show ?thesis by blast
qed

lemma mkFile_sel: "fc_path (mkFile p c) = p" "fc_content (mkFile p c) = c"
  by (simp_all add: mkFile_def)

lemma fileImports_examples:
  "fileImports (mkFile ''src/a.ts'' importLine) = [fromClause]"
  "fileImports (mkFile ''src/util.ts'' []) = []"
  "fileImports (mkFile ''a'' ''x'') = []"
  "fileImports (mkFile ''b'' ''y'') = []"
  by (simp_all add: fileImports_def mkFile_def importStatementRegex_def importLine_def
      fromClause_def rx_eval str_eval2)

lemma quoted_util: "map_option snd (matchFirst noFlags quotedRegex fromClause) = Some [(1, ''./util'')]"
  by (simp add: quotedRegex_def fromClause_def rx_eval)

lemma resolveImportPath_util:
  "resolveImportPath ''./util'' ''src/a.ts'' utilCorpus = Some ''src/util.ts''"
  by (simp add: resolveImportPath_def resolveRelativePathC_def stripScriptExt_def utilCorpus_def
      mkFile_def Let_def rx_eval str_eval2)

text \<open>
  C4 as stated fails where a file imports another: with both protocols of the service
  failing on the corpus of \<open>src/a.ts\<close> and \<open>src/util.ts\<close>, the graph has one
  relationship, the edge that the import resolver adds, not zero.
\<close>

theorem total_failure_import_edge_counterexample:
  "a_relationships (analyze rejectingRuntime failingService utilCorpus)
     = [importEdge ''src/a.ts'' ''src/util.ts'']"
proof -
  have fb: "\<And>c i. analyzeChunk rejectingRuntime failingService c i
              = createFallbackAnalysis c"
    by (rule analyzeChunk_failing)
  have d: "distinct (map fc_path utilCorpus)" by (simp add: utilCorpus_def mkFile_def)
  have mp: "m_path ` set (a_modules (analyze rejectingRuntime failingService utilCorpus))
             = {''src/a.ts'', ''src/util.ts''}"
    using total_failure_modules(1)[OF fb d] by (simp add: utilCorpus_def mkFile_def image_image)
  have c: "importCandidates (a_modules (analyze rejectingRuntime failingService utilCorpus))
             utilCorpus = [importEdge ''src/a.ts'' ''src/util.ts'']"
    unfolding importCandidates_def
    by (subst (3) utilCorpus_def)
       (use quoted_util in \<open>auto simp: fileImports_examples importCandidate_def
          resolveImportPath_util mp mkFile_sel getCap_def\<close>)
  show ?thesis
    unfolding total_failure_relationships[OF fb] c by simp
qed

theorem total_failure_graph_witness:
  "a_pattern (analyze rejectingRuntime failingService twoFiles)
     = Some (mkPattern Unknown 0 ''Could not determine pattern'')
   \<and> a_relationships (analyze rejectingRuntime failingService twoFiles) = []
   \<and> length (a_modules (analyze rejectingRuntime failingService twoFiles)) = 2"
proof -
  have fb: "\<And>c i. analyzeChunk rejectingRuntime failingService c i
              = createFallbackAnalysis c"
    by (rule analyzeChunk_failing)
  have d: "distinct (map fc_path twoFiles)" by (simp add: twoFiles_def mkFile_def)
  have n: "\<forall>f \<in> set twoFiles. fileImports f = []"
    by (simp add: twoFiles_def fileImports_examples)
  have l: "length twoFiles = 2" by (simp add: twoFiles_def)
  note t = total_failure_graph[OF fb, of twoFiles]
  from t have p: "a_pattern (analyze rejectingRuntime failingService twoFiles)
     = Some (mkPattern Unknown 0 ''Could not determine pattern'')"
    by (rule conjunct1)
  from t n have r: "a_relationships (analyze rejectingRuntime failingService twoFiles) = []"
    by blast
  from t d have "length (a_modules (analyze rejectingRuntime failingService twoFiles))
      = length twoFiles"
    by blast
  with l p r show ?thesis by simp
qed


section \<open>The decoder never raises\<close>

text \<open>The test \<open>!fullResponse || fullResponse.trim().length === 0\<close>.\<close>

definition blank :: "string \<Rightarrow> bool" where
  "blank s = (s = [] \<or> length (trim s) = 0)"

lemma createFallbackAnalysis_fields:
  "a_modules (createFallbackAnalysis files) = map fallbackModule files"
  "a_relationships (createFallbackAnalysis files) = []"
  "a_pattern (createFallbackAnalysis files) = Some (mkPattern Unknown 0 ''Chunk analysis failed'')"
  by (simp_all add: createFallbackAnalysis_def mkPattern_def)

text \<open>
  C2: for every response text, every batch of files and every behaviour of \<open>JSON.parse\<close>
  and of the code that reads its result, \<open>parseOllamaResponse\<close> returns a fragment and
  raises nothing. A blank response gives the fallback fragment. Otherwise the text is
  cleaned, the balanced object is cut out and repaired, and the result is the fragment
  of the parse when it succeeds; when it raises, the fragment recovered from the
  \<open>modules\<close> field found by the pattern, when that succeeds; and in every other case the
  fallback fragment, with one heuristic module for each file of the batch, no
  relationship and the pattern Unknown at confidence 0.
\<close>

theorem decoder_never_raises:
  "(\<exists>a. parseOllamaResponse rt fullResponse files = Inr a)
   \<and> (blank fullResponse \<longrightarrow>
        parseOllamaResponse rt fullResponse files = Inr (createFallbackAnalysis files))
   \<and> (\<not> blank fullResponse \<longrightarrow>
        (let jsonString = repairJson (extractJson (cleanResponse fullResponse))
         in (\<forall>a. cleanParse rt jsonString files = Inr a \<longrightarrow>
                  parseOllamaResponse rt fullResponse files = Inr a)
            \<and> (\<forall>e. cleanParse rt jsonString files = Inl e \<longrightarrow>
                  (case matchFirst noFlags (arrayField ''modules'') jsonString of
                     None \<Rightarrow> parseOllamaResponse rt fullResponse files
                              = Inr (createFallbackAnalysis files)
                   | Some m \<Rightarrow>
                       (\<forall>a. recoverFields rt jsonString (getCap 1 (snd m)) = Inr a \<longrightarrow>
                            parseOllamaResponse rt fullResponse files = Inr a)
                       \<and> (\<forall>e'. recoverFields rt jsonString (getCap 1 (snd m)) = Inl e' \<longrightarrow>
                            parseOllamaResponse rt fullResponse files
                              = Inr (createFallbackAnalysis files))))))
   \<and> a_modules (createFallbackAnalysis files) = map fallbackModule files
   \<and> a_relationships (createFallbackAnalysis files) = []
   \<and> a_pattern (createFallbackAnalysis files) = Some (mkPattern Unknown 0 ''Chunk analysis failed'')"
proof (intro conjI)
  show "\<exists>a. parseOllamaResponse rt fullResponse files = Inr a"
    by (auto simp: parseOllamaResponse_def Let_def split: sum.splits option.splits)
  show "blank fullResponse \<longrightarrow>
        parseOllamaResponse rt fullResponse files = Inr (createFallbackAnalysis files)"
    by (auto simp: parseOllamaResponse_def blank_def)
  show "\<not> blank fullResponse \<longrightarrow>
        (let jsonString = repairJson (extractJson (cleanResponse fullResponse))
         in (\<forall>a. cleanParse rt jsonString files = Inr a \<longrightarrow>
                  parseOllamaResponse rt fullResponse files = Inr a)
            \<and> (\<forall>e. cleanParse rt jsonString files = Inl e \<longrightarrow>
                  (case matchFirst noFlags (arrayField ''modules'') jsonString of
                     None \<Rightarrow> parseOllamaResponse rt fullResponse files
                              = Inr (createFallbackAnalysis files)
                   | Some m \<Rightarrow>
                       (\<forall>a. recoverFields rt jsonString (getCap 1 (snd m)) = Inr a \<longrightarrow>
                            parseOllamaResponse rt fullResponse files = Inr a)
                       \<and> (\<forall>e'. recoverFields rt jsonString (getCap 1 (snd m)) = Inl e' \<longrightarrow>
                            parseOllamaResponse rt fullResponse files
                              = Inr (createFallbackAnalysis files)))))"
    by (auto simp: parseOllamaResponse_def blank_def Let_def split: sum.splits option.splits)
qed (simp_all add: createFallbackAnalysis_fields)

lemma prose_json: "repairJson (extractJson (cleanResponse ''no'')) = ''no''"
  by (simp add: cleanResponse_def extractJson_def repairJson_def fence_def identStart_def
      identChar_def anyChar_def Let_def rx_eval str_eval2)

lemma prose_no_modules: "matchFirst noFlags (arrayField ''modules'') ''no'' = None"
  by (simp add: arrayField_def anyChar_def rx_eval)

theorem decoder_never_raises_witness:
  "parseOllamaResponse rejectingRuntime ''no'' twoFiles = Inr (createFallbackAnalysis twoFiles)"
proof -
  have b: "\<not> blank ''no''" by (simp add: blank_def trim_def isWhiteSpace_def)
  have c: "cleanParse rejectingRuntime ''no'' twoFiles = Inl SyntaxError"
    by (simp add: cleanParse_def rejectingRuntime_def)
  from decoder_never_raises[of rejectingRuntime "''no''" twoFiles] b c
  show ?thesis by (simp add: prose_json prose_no_modules Let_def)
qed


section \<open>The merge at run time: when it returns\<close>

lemma bindE_simps [simp]:
  "bindE (Inr x) f = f x"
  "bindE (Inl e) f = Inl e"
  by (simp_all add: bindE_def)

lemma bindE_Inr: "bindE r f = Inr y \<longleftrightarrow> (\<exists>x. r = Inr x \<and> f x = Inr y)"
  by (cases r) simp_all

lemma hasKey_JStr: "hasKey ks (JStr p) \<longleftrightarrow> JStr p \<in> set ks"
  by (induction ks) (auto simp: hasKey_def sameValueZero_def split: jsval.splits)

definition countPath_rt :: "string \<Rightarrow> Module_rt list \<Rightarrow> nat" where
  "countPath_rt p ms = length (filter (\<lambda>m. mr_path m = JStr p) ms)"

lemma countPath_rt_append [simp]:
  "countPath_rt p (xs @ ys) = countPath_rt p xs + countPath_rt p ys"
  by (simp add: countPath_rt_def)

lemma countPath_rt_zero: "countPath_rt p ms = 0 \<longleftrightarrow> JStr p \<notin> set (map mr_path ms)"
  by (force simp: countPath_rt_def filter_empty_conv image_iff)

lemma fold_module_rt_once:
  "(\<And>p. countPath_rt p acc \<le> 1) \<Longrightarrow>
     countPath_rt p
       (fold (\<lambda>m mm. if \<not> hasKey (map mr_path mm) (mr_path m) then mm @ [m] else mm) ms acc) \<le> 1"
proof (induction ms arbitrary: acc p)
  case Nil
  then show ?case by simp
next
  case (Cons m ms)
  show ?case
  proof (cases "hasKey (map mr_path acc) (mr_path m)")
    case True
    with Cons show ?thesis by simp
  next
    case False
    have "\<And>q. countPath_rt q (acc @ [m]) \<le> 1"
    proof -
      fix q
      show "countPath_rt q (acc @ [m]) \<le> 1"
      proof (cases "mr_path m = JStr q")
        case True
        with False have "JStr q \<notin> set (map mr_path acc)" by (simp add: hasKey_JStr)
        then have "countPath_rt q acc = 0" by (simp add: countPath_rt_zero)
        with True show ?thesis by (simp add: countPath_rt_def)
      next
        case F: False
        with Cons.prems[of q] show ?thesis by (simp add: countPath_rt_def)
      qed
    qed
    from Cons.IH[OF this] False show ?thesis by simp
  qed
qed

lemma fold_chunks_module_rt_once:
  "(\<And>p. countPath_rt p acc \<le> 1) \<Longrightarrow>
     countPath_rt p
       (fold (\<lambda>chunk moduleMap.
                fold (\<lambda>m mm. if \<not> hasKey (map mr_path mm) (mr_path m) then mm @ [m] else mm)
                     (fr_modules chunk) moduleMap) cs acc) \<le> 1"
proof (induction cs arbitrary: acc p)
  case Nil
  then show ?case by simp
next
  case (Cons c cs)
  show ?case
    unfolding fold_simps o_apply
    by (rule Cons.IH) (rule fold_module_rt_once, rule Cons.prems)
qed

lemma mergeModules_rt_once: "countPath_rt p (mergeModules_rt cs) \<le> 1"
  unfolding mergeModules_rt_def
  by (rule fold_chunks_module_rt_once) (simp add: countPath_rt_def)

lemma fold_backfill_rt:
  "fold (\<lambda>file allModules. if \<not> hasKey A (JStr (fc_path file))
                            then allModules @ [fallbackModule_rt file] else allModules) fs acc =
     acc @ map fallbackModule_rt (filter (\<lambda>f. JStr (fc_path f) \<notin> set A) fs)"
  by (induction fs arbitrary: acc) (auto simp: hasKey_JStr)

lemma mergeWithAllFiles_rt_eq:
  "mergeWithAllFiles_rt analyzed allFiles sel =
     analyzed @ map fallbackModule_rt
                  (filter (\<lambda>f. JStr (fc_path f) \<notin> set (map mr_path analyzed)) allFiles)"
  by (simp add: mergeWithAllFiles_rt_def Let_def fold_backfill_rt)

lemma mr_path_fallbackModule_rt [simp]: "mr_path (fallbackModule_rt f) = JStr (fc_path f)"
  by (simp add: fallbackModule_rt_def)

lemma countPath_rt_backfill:
  "countPath_rt p (map fallbackModule_rt (filter (\<lambda>f. JStr (fc_path f) \<notin> A) fs)) =
     (if JStr p \<in> A then 0 else length (filter (\<lambda>f. fc_path f = p) fs))"
proof (induction fs)
  case Nil
  show ?case by (simp add: countPath_rt_def)
next
  case (Cons f fs)
  then show ?case by (auto simp: countPath_rt_def)
qed

lemma countPath_rt_all:
  "countPath_rt p (mergeWithAllFiles_rt (mergeModules_rt cs) files sel) =
     (if JStr p \<in> set (map mr_path (mergeModules_rt cs)) then 1
      else length (filter (\<lambda>f. fc_path f = p) files))"
proof (cases "JStr p \<in> set (map mr_path (mergeModules_rt cs))")
  case True
  then have "countPath_rt p (mergeModules_rt cs) \<noteq> 0" by (simp add: countPath_rt_zero)
  with mergeModules_rt_once[of p cs] have "countPath_rt p (mergeModules_rt cs) = 1" by simp
  with True show ?thesis by (simp add: mergeWithAllFiles_rt_eq countPath_rt_backfill)
next
  case False
  then have "countPath_rt p (mergeModules_rt cs) = 0" by (simp add: countPath_rt_zero)
  with False show ?thesis by (simp add: mergeWithAllFiles_rt_eq countPath_rt_backfill)
qed

lemma fr_modules_merge_rt:
  "mergeChunkResults_rt jsGreater cs files sel = Inr g \<Longrightarrow>
     fr_modules g = mergeWithAllFiles_rt (mergeModules_rt cs) files sel"
  by (auto simp: mergeChunkResults_rt_def Let_def bindE_Inr)

lemma analyze_rt_merge:
  "\<exists>cs. analyze_rt jsGreater decoder svc files
         = mergeChunkResults_rt jsGreater cs files (selectedFilesOf files)"
  by (auto simp: analyze_rt_def Let_def)

lemma elemStrs_strings:
  "(\<And>v. v \<in> set vs \<Longrightarrow> \<exists>s. v = JStr s) \<Longrightarrow> \<exists>ss. elemStrs vs = Inr ss"
proof (induction vs)
  case Nil
  show ?case by simp
next
  case (Cons v vs)
  from Cons.prems obtain s where v: "v = JStr s" by auto
  from Cons obtain ss where "elemStrs vs = Inr ss" by auto
  with v show ?case by (simp add: nullish_def)
qed

lemma combinedSummary_rt_strings:
  assumes "\<And>c. c \<in> set cs \<Longrightarrow> \<exists>s. fr_summary c = JStr s"
  shows "\<exists>s. combinedSummary_rt cs files = Inr s"
proof -
  have "\<And>v. v \<in> set (filter truthy (map fr_summary cs)) \<Longrightarrow> \<exists>s. v = JStr s"
    using assms by auto
  then obtain ss where "elemStrs (filter truthy (map fr_summary cs)) = Inr ss"
    using elemStrs_strings by blast
  then show ?thesis by (simp add: combinedSummary_rt_def Let_def)
qed

lemma bestPattern_rt_unknown:
  assumes "\<And>c. c \<in> set cs \<Longrightarrow> propOf (fr_pattern c) ''name'' = JStr ''Unknown''"
  shows "bestPattern_rt jsGreater cs = Inr (pattern_rt ''Unknown'' ''0'' ''Could not determine pattern'')"
proof -
  have "candidatePatterns_rt cs = []"
    using assms by (auto simp: candidatePatterns_rt_def filter_empty_conv)
  then show ?thesis by (simp add: bestPattern_rt_def)
qed

lemma collectSets_rt_empty:
  "(\<And>c. c \<in> set cs \<Longrightarrow> fr_entryPoints c = JArr [] \<and> fr_coreComponents c = JArr []) \<Longrightarrow>
     forEachE (\<lambda>chunk acc.
                 bindE (arrayItems (fr_entryPoints chunk)) (\<lambda>eps.
                 bindE (arrayItems (fr_coreComponents chunk)) (\<lambda>ccs.
                   Inr (fold addValue eps (fst acc), fold addValue ccs (snd acc)))))
              cs acc = Inr acc"
  by (induction cs arbitrary: acc) (simp_all add: arrayItems_def)

lemma pushTo_rt_keys: "fst ` set (pushTo_rt key v lm) \<subseteq> insert key (fst ` set lm)"
proof (induction lm)
  case Nil
  show ?case by simp
next
  case (Cons e lm)
  obtain k vs where e: "e = (k, vs)" by (cases e)
  show ?case
  proof (cases "sameValueZero k key")
    case True
    with e show ?thesis by auto
  next
    case False
    with e Cons show ?thesis by auto
  qed
qed

lemma fold_pushTo_rt_strings:
  "(\<And>m. m \<in> set ms \<Longrightarrow> \<exists>s. mr_layer m = JStr s) \<Longrightarrow>
   (\<And>k. k \<in> fst ` set lm \<Longrightarrow> \<exists>s. k = JStr s) \<Longrightarrow>
   k \<in> fst ` set (fold (\<lambda>m layerMap.
                        pushTo_rt (if truthy (mr_layer m) then mr_layer m else JStr ''other'')
                                  (mr_path m) layerMap) ms lm) \<Longrightarrow>
   \<exists>s. k = JStr s"
proof (induction ms arbitrary: lm)
  case Nil
  then show ?case by simp
next
  case (Cons m ms)
  show ?case
  proof (rule Cons.IH)
    show "\<And>m'. m' \<in> set ms \<Longrightarrow> \<exists>s. mr_layer m' = JStr s" using Cons.prems(1) by simp
    show "k \<in> fst ` set (fold (\<lambda>m layerMap.
                        pushTo_rt (if truthy (mr_layer m) then mr_layer m else JStr ''other'')
                                  (mr_path m) layerMap) ms
                 (pushTo_rt (if truthy (mr_layer m) then mr_layer m else JStr ''other'')
                            (mr_path m) lm))"
      using Cons.prems(3) by simp
  next
    fix k'
    assume "k' \<in> fst ` set (pushTo_rt (if truthy (mr_layer m) then mr_layer m else JStr ''other'')
                                       (mr_path m) lm)"
    with pushTo_rt_keys
    have "k' \<in> insert (if truthy (mr_layer m) then mr_layer m else JStr ''other'') (fst ` set lm)"
      by blast
    moreover from Cons.prems(1) obtain s where "mr_layer m = JStr s" by auto
    ultimately show "\<exists>s. k' = JStr s" using Cons.prems(2) by (auto split: if_splits)
  qed
qed

lemma mapE_layerGroup_rt:
  "(\<And>k. k \<in> fst ` set lm \<Longrightarrow> \<exists>s. k = JStr s) \<Longrightarrow> \<exists>ls. mapE layerGroup_rt lm = Inr ls"
proof (induction lm)
  case Nil
  show ?case by simp
next
  case (Cons e lm)
  from Cons.prems obtain s where "fst e = JStr s" by auto
  then have "\<exists>l. layerGroup_rt e = Inr l" by (simp add: layerGroup_rt_def)
  moreover from Cons obtain ls where "mapE layerGroup_rt lm = Inr ls" by auto
  ultimately show ?case by auto
qed

lemma groupByLayers_rt_strings:
  assumes "\<And>m. m \<in> set ms \<Longrightarrow> \<exists>s. mr_layer m = JStr s"
  shows "\<exists>ls. groupByLayers_rt ms = Inr ls"
  unfolding groupByLayers_rt_def
  by (rule mapE_layerGroup_rt) (rule fold_pushTo_rt_strings[OF assms, of _ "[]"], auto)

lemma fold_module_rt_subset:
  "set (fold (\<lambda>m mm. if \<not> hasKey (map mr_path mm) (mr_path m) then mm @ [m] else mm) ms acc)
     \<subseteq> set acc \<union> set ms"
proof (induction ms arbitrary: acc)
  case Nil
  show ?case by simp
next
  case (Cons m ms)
  show ?case
  proof (cases "hasKey (map mr_path acc) (mr_path m)")
    case True
    with Cons.IH[of acc] show ?thesis by auto
  next
    case False
    with Cons.IH[of "acc @ [m]"] show ?thesis by auto
  qed
qed

lemma mergeModules_rt_subset: "set (mergeModules_rt cs) \<subseteq> (\<Union>c \<in> set cs. set (fr_modules c))"
proof -
  have "\<And>acc. set (fold (\<lambda>chunk moduleMap.
             fold (\<lambda>m mm. if \<not> hasKey (map mr_path mm) (mr_path m) then mm @ [m] else mm)
                  (fr_modules chunk) moduleMap) cs acc)
          \<subseteq> set acc \<union> (\<Union>c \<in> set cs. set (fr_modules c))"
  proof (induction cs)
    case Nil
    show ?case by simp
  next
    case (Cons c cs)
    show ?case
      using Cons.IH[of "fold (\<lambda>m mm. if \<not> hasKey (map mr_path mm) (mr_path m) then mm @ [m] else mm)
                  (fr_modules c) acc"] fold_module_rt_subset[of "fr_modules c" acc]
      by auto
  qed
  from this[of "[]"] show ?thesis by (simp add: mergeModules_rt_def)
qed

lemma mr_layer_fallbackModule_rt: "\<exists>s. mr_layer (fallbackModule_rt f) = JStr s"
  by (simp add: fallbackModule_rt_def)


text \<open>
  The key of a relationship as the amended claim words it: the text of its \<open>from\<close>,
  the two characters \<open>->\<close>, and the text of its \<open>to\<close>.
\<close>

definition textOf :: "jsval \<Rightarrow> string" where
  "textOf v = (case toStr v of Inl e \<Rightarrow> [] | Inr s \<Rightarrow> s)"

definition relationshipKey_rt :: "jsval \<Rightarrow> string" where
  "relationshipKey_rt r = textOf (propOf r ''from'') @ ''->'' @ textOf (propOf r ''to'')"

text \<open>
  The edges that \<open>inferAllRelationships\<close> offers, in the order of the files and of the
  import statements in each.
\<close>

definition importCandidate_rt ::
  "Module_rt list \<Rightarrow> FileContext list \<Rightarrow> FileContext \<Rightarrow> string \<Rightarrow> jsval list" where
  "importCandidate_rt allModules allFiles file imp =
     (case matchFirst noFlags quotedRegex imp of
        None \<Rightarrow> []
      | Some m \<Rightarrow>
          (case resolveImportPath (getCap 1 (snd m)) (fc_path file) allFiles of
             None \<Rightarrow> []
           | Some resolvedPath \<Rightarrow>
               if resolvedPath \<noteq> [] \<and> JStr resolvedPath \<in> set (map mr_path allModules)
                  \<and> resolvedPath \<noteq> fc_path file
               then [importEdge_rt (fc_path file) resolvedPath] else []))"

definition importCandidates_rt :: "Module_rt list \<Rightarrow> FileContext list \<Rightarrow> jsval list" where
  "importCandidates_rt allModules allFiles =
     concat (map (\<lambda>file. concat (map (importCandidate_rt allModules allFiles file)
                                     (fileImports file)))
                 allFiles)"

lemma relKey_rt_key: "relKey_rt r = Inr k \<Longrightarrow> k = relationshipKey_rt r"
  by (auto simp: relKey_rt_def relationshipKey_rt_def getProp_def textOf_def bindE_Inr
      split: if_splits)

lemma relKey_rt_importEdge [simp]: "relKey_rt (importEdge_rt f t) = Inr (relKey f t)"
  by (simp add: relKey_rt_def importEdge_rt_def getProp_def nullish_def propOf_def relKey_def)

lemma relationshipKey_rt_importEdge [simp]: "relationshipKey_rt (importEdge_rt f t) = relKey f t"
  using relKey_rt_key[OF relKey_rt_importEdge] by simp

definition keyed :: "jsval \<Rightarrow> bool" where
  "keyed r = (relKey_rt r = Inr (relationshipKey_rt r))"

lemma keyed_iff: "keyed r \<longleftrightarrow> (\<exists>k. relKey_rt r = Inr k)"
  using relKey_rt_key by (auto simp: keyed_def)

lemma addRelationship_rt_keyed:
  "keyed r \<Longrightarrow>
     addRelationship_rt r acc =
       Inr (if relationshipKey_rt r \<notin> set (snd acc)
            then (fst acc @ [r], snd acc @ [relationshipKey_rt r]) else acc)"
  by (simp add: addRelationship_rt_def keyed_def)

lemma addRelationship_rt_Inr: "addRelationship_rt r acc = Inr acc' \<Longrightarrow> keyed r"
  by (auto simp: addRelationship_rt_def bindE_Inr keyed_iff)

lemma forEachE_addRelationship_rt:
  "forEachE addRelationship_rt rs (rels, ks) = Inr acc \<longleftrightarrow>
     (\<forall>r \<in> set rs. keyed r)
     \<and> acc = (rels @ firstPerKey relationshipKey_rt ks rs,
              ks @ map relationshipKey_rt (firstPerKey relationshipKey_rt ks rs))"
proof (induction rs arbitrary: rels ks)
  case Nil
  show ?case by auto
next
  case (Cons r rs)
  show ?case
  proof (cases "keyed r")
    case True
    show ?thesis
      by (simp add: addRelationship_rt_keyed[OF True] Cons.IH True)
  next
    case False
    then have "\<And>a. addRelationship_rt r (rels, ks) \<noteq> Inr a"
      using addRelationship_rt_Inr by blast
    then have "forEachE addRelationship_rt (r # rs) (rels, ks) \<noteq> Inr acc"
      by (auto simp: bindE_Inr)
    with False show ?thesis by simp
  qed
qed

lemma forEachE_chunks_addRelationship_rt:
  "forEachE (\<lambda>chunk. forEachE addRelationship_rt (fr_relationships chunk)) cs (rels, ks) = Inr acc
   \<longleftrightarrow>
     (\<forall>r \<in> set (concat (map fr_relationships cs)). keyed r)
     \<and> acc = (rels @ firstPerKey relationshipKey_rt ks (concat (map fr_relationships cs)),
              ks @ map relationshipKey_rt
                     (firstPerKey relationshipKey_rt ks (concat (map fr_relationships cs))))"
proof (induction cs arbitrary: rels ks)
  case Nil
  show ?case by auto
next
  case (Cons c cs)
  show ?case
    by (auto simp: bindE_Inr forEachE_addRelationship_rt Cons.IH firstPerKey_append)
qed

lemma mergeRelationships_rt_Inr:
  "mergeRelationships_rt cs = Inr rels \<longleftrightarrow>
     (\<forall>r \<in> set (concat (map fr_relationships cs)). keyed r)
     \<and> rels = firstPerKey relationshipKey_rt [] (concat (map fr_relationships cs))"
  by (auto simp: mergeRelationships_rt_def bindE_Inr forEachE_chunks_addRelationship_rt)

lemma mapE_relKey_rt:
  "(\<forall>r \<in> set rs. keyed r) \<Longrightarrow> mapE relKey_rt rs = Inr (map relationshipKey_rt rs)"
  by (induction rs) (simp_all add: keyed_def)

lemma mapE_relKey_rt_Inr: "mapE relKey_rt rs = Inr ks \<Longrightarrow> \<forall>r \<in> set rs. keyed r"
  by (induction rs arbitrary: ks) (auto simp: bindE_Inr keyed_iff)

definition addKeyed :: "jsval \<Rightarrow> jsval list \<times> string list \<Rightarrow> jsval list \<times> string list" where
  "addKeyed r acc =
     (if relationshipKey_rt r \<notin> set (snd acc)
      then (fst acc @ [r], snd acc @ [relationshipKey_rt r]) else acc)"

lemma fold_addKeyed:
  "fold addKeyed rs (rels, ks) =
     (rels @ firstPerKey relationshipKey_rt ks rs,
      ks @ map relationshipKey_rt (firstPerKey relationshipKey_rt ks rs))"
  by (induction rs arbitrary: rels ks) (auto simp: addKeyed_def)

lemma addImportEdge_rt_candidate:
  "addImportEdge_rt ms fs file imp acc = fold addKeyed (importCandidate_rt ms fs file imp) acc"
  by (cases acc)
     (auto simp: addImportEdge_rt_def importCandidate_rt_def addKeyed_def Let_def hasKey_JStr
           split: option.splits)

lemma fold_addImportEdge_rt:
  "fold (addImportEdge_rt ms fs file) imps acc =
     fold addKeyed (concat (map (importCandidate_rt ms fs file) imps)) acc"
  by (induction imps arbitrary: acc) (simp_all add: addImportEdge_rt_candidate)

lemma fold_files_addImportEdge_rt:
  "fold (\<lambda>file acc. fold (addImportEdge_rt ms fs file) (fileImports file) acc) files acc =
     fold addKeyed
       (concat (map (\<lambda>file. concat (map (importCandidate_rt ms fs file) (fileImports file))) files))
       acc"
  by (induction files arbitrary: acc) (simp_all add: fold_addImportEdge_rt)

lemma inferAllRelationships_rt_Inr:
  "inferAllRelationships_rt ms fs existing = Inr rels \<longleftrightarrow>
     (\<forall>r \<in> set existing. keyed r)
     \<and> rels = existing @ firstPerKey relationshipKey_rt (map relationshipKey_rt existing)
                          (importCandidates_rt ms fs)"
proof (cases "\<forall>r \<in> set existing. keyed r")
  case True
  then show ?thesis
    by (auto simp: inferAllRelationships_rt_def mapE_relKey_rt fold_files_addImportEdge_rt
        fold_addKeyed importCandidates_rt_def)
next
  case False
  then have "\<And>ks. mapE relKey_rt existing \<noteq> Inr ks" using mapE_relKey_rt_Inr by blast
  with False show ?thesis by (auto simp: inferAllRelationships_rt_def bindE_Inr)
qed

lemma fr_relationships_merge_rt:
  assumes "mergeChunkResults_rt jsGreater cs files sel = Inr g"
  shows "(\<forall>r \<in> set (concat (map fr_relationships cs)). keyed r)
         \<and> fr_relationships g =
             firstPerKey relationshipKey_rt []
               (concat (map fr_relationships cs) @ importCandidates_rt (fr_modules g) files)"
proof -
  from assms obtain rels all where
    r: "mergeRelationships_rt cs = Inr rels"
    and m: "fr_modules g = mergeWithAllFiles_rt (mergeModules_rt cs) files sel"
    and a: "inferAllRelationships_rt (mergeWithAllFiles_rt (mergeModules_rt cs) files sel) files rels
              = Inr all"
    and g: "fr_relationships g = all"
    by (auto simp: mergeChunkResults_rt_def Let_def bindE_Inr)
  from r have k: "\<forall>r \<in> set (concat (map fr_relationships cs)). keyed r"
    and e: "rels = firstPerKey relationshipKey_rt [] (concat (map fr_relationships cs))"
    by (simp_all add: mergeRelationships_rt_Inr)
  from a have "all = rels @ firstPerKey relationshipKey_rt (map relationshipKey_rt rels)
                          (importCandidates_rt (fr_modules g) files)"
    by (simp add: inferAllRelationships_rt_Inr m)
  with e g have "fr_relationships g =
             firstPerKey relationshipKey_rt []
               (concat (map fr_relationships cs) @ importCandidates_rt (fr_modules g) files)"
    by (simp add: firstPerKey_append)
  with k show ?thesis by simp
qed

lemma keyed_importCandidates_rt: "\<forall>r \<in> set (importCandidates_rt ms fs). keyed r"
  by (auto simp: importCandidates_rt_def importCandidate_rt_def keyed_def split: option.splits)

lemma distinct_map_of_image:
  "distinct (map (\<lambda>x. f (g x)) xs) \<Longrightarrow> distinct (map g xs)"
  by (induction xs) auto

lemma distinct_pairs_of_keys_rt:
  assumes "distinct (map relationshipKey_rt rs)"
  shows "distinct (map (\<lambda>r. (propOf r ''from'', propOf r ''to'')) rs)"
proof (rule distinct_map_of_image)
  show "distinct (map (\<lambda>r. (\<lambda>p. textOf (fst p) @ ''->'' @ textOf (snd p))
                              (propOf r ''from'', propOf r ''to'')) rs)"
    using assms by (simp add: relationshipKey_rt_def[abs_def])
qed


text \<open>
  The merge returns when every relationship of the fragments has a key, no fragment has
  a pattern other than Unknown or an entry in the two sets, and every summary and every
  layer is a string.
\<close>

lemma mergeChunkResults_rt_returns:
  assumes "\<And>c. c \<in> set cs \<Longrightarrow>
             (\<forall>r \<in> set (fr_relationships c). keyed r) \<and> (\<exists>s. fr_summary c = JStr s)
             \<and> propOf (fr_pattern c) ''name'' = JStr ''Unknown''
             \<and> fr_entryPoints c = JArr [] \<and> fr_coreComponents c = JArr []
             \<and> (\<forall>m \<in> set (fr_modules c). \<exists>s. mr_layer m = JStr s)"
  shows "\<exists>g. mergeChunkResults_rt jsGreater cs files sel = Inr g"
proof -
  have k: "\<forall>r \<in> set (concat (map fr_relationships cs)). keyed r"
    using assms by auto
  then have r: "mergeRelationships_rt cs =
      Inr (firstPerKey relationshipKey_rt [] (concat (map fr_relationships cs)))"
    by (simp add: mergeRelationships_rt_Inr)
  from k firstPerKey_subset[of relationshipKey_rt "[]" "concat (map fr_relationships cs)"]
  have "\<forall>r \<in> set (firstPerKey relationshipKey_rt [] (concat (map fr_relationships cs))). keyed r"
    by auto
  then obtain all where a: "inferAllRelationships_rt
      (mergeWithAllFiles_rt (mergeModules_rt cs) files sel) files
      (firstPerKey relationshipKey_rt [] (concat (map fr_relationships cs))) = Inr all"
    by (simp add: inferAllRelationships_rt_Inr)
  obtain s where s: "combinedSummary_rt cs files = Inr s"
    using combinedSummary_rt_strings[of cs files] assms by blast
  have p: "bestPattern_rt jsGreater cs = Inr (pattern_rt ''Unknown'' ''0'' ''Could not determine pattern'')"
    by (rule bestPattern_rt_unknown) (simp add: assms)
  have c: "collectSets_rt cs = Inr ([], [])"
    unfolding collectSets_rt_def by (rule collectSets_rt_empty) (simp add: assms)
  have "\<And>m. m \<in> set (mergeWithAllFiles_rt (mergeModules_rt cs) files sel) \<Longrightarrow> \<exists>s. mr_layer m = JStr s"
  proof -
    fix m
    assume "m \<in> set (mergeWithAllFiles_rt (mergeModules_rt cs) files sel)"
    then consider "m \<in> set (mergeModules_rt cs)" | f where "m = fallbackModule_rt f"
      by (auto simp: mergeWithAllFiles_rt_eq)
    then show "\<exists>s. mr_layer m = JStr s"
    proof cases
      case 1
      with mergeModules_rt_subset obtain c where "c \<in> set cs" "m \<in> set (fr_modules c)" by blast
      with assms show ?thesis by blast
    next
      case 2
      then show ?thesis by (simp add: mr_layer_fallbackModule_rt)
    qed
  qed
  then obtain ls where l: "groupByLayers_rt (mergeWithAllFiles_rt (mergeModules_rt cs) files sel) = Inr ls"
    using groupByLayers_rt_strings by blast
  show ?thesis
    by (simp add: mergeChunkResults_rt_def Let_def r s p c l a)
qed


lemma fallback_rt_fields:
  "fr_relationships (createFallbackAnalysis_rt fs) = []"
  "\<exists>s. fr_summary (createFallbackAnalysis_rt fs) = JStr s"
  "propOf (fr_pattern (createFallbackAnalysis_rt fs)) ''name'' = JStr ''Unknown''"
  "fr_entryPoints (createFallbackAnalysis_rt fs) = JArr []"
  "fr_coreComponents (createFallbackAnalysis_rt fs) = JArr []"
  "\<forall>m \<in> set (fr_modules (createFallbackAnalysis_rt fs)). \<exists>s. mr_layer m = JStr s"
  by (auto simp: createFallbackAnalysis_rt_def pattern_rt_def propOf_def fallbackModule_rt_def)

lemma analyze_rt_total_failure:
  assumes "\<And>c i. analyzeChunk_rt decoder svc c i = createFallbackAnalysis_rt c"
  shows "\<exists>g. analyze_rt jsGreater decoder svc files = Inr g"
  unfolding analyze_rt_def Let_def
  by (rule mergeChunkResults_rt_returns) (auto simp: assms fallback_rt_fields)


text \<open>
  A comparison and a decoder that raise whenever they are called; where every request to
  the service fails, neither is called.
\<close>

definition raisingGreater :: "jsval \<Rightarrow> jsval \<Rightarrow> error + bool" where
  "raisingGreater a b = Inl TypeError"

definition raisingDecoder :: "string \<Rightarrow> FileContext list \<Rightarrow> error + Analysis_rt" where
  "raisingDecoder fullResponse files = Inl SyntaxError"

text \<open>
  The number of modules with a given path in the graph that \<open>analyze\<close> returned.
\<close>

definition modulesWithPath :: "string \<Rightarrow> error + Analysis_rt \<Rightarrow> error + nat" where
  "modulesWithPath p r = (case r of Inl e \<Rightarrow> Inl e | Inr g \<Rightarrow> Inr (countPath_rt p (fr_modules g)))"


text \<open>
  A module and a relationship as a reply writes them, and the fragment that the recovery
  of lines 758 to 778 returns for a reply that is not valid JSON, whose \<open>modules\<close> field
  holds the given modules with all their properties, whose \<open>relationships\<close> field holds
  the given values, and which has no \<open>summary\<close> field.
\<close>

definition replyModule :: "string \<Rightarrow> jsval \<Rightarrow> Module_rt" where
  "replyModule path layer =
     \<lparr>mr_name = JStr path, mr_path = JStr path, mr_type = JStr ''other'', mr_layer = layer,
      mr_description = JStr ''module''\<rparr>"

definition replyRelationship :: "string \<Rightarrow> string \<Rightarrow> string \<Rightarrow> jsval" where
  "replyRelationship from to type =
     JObj [(''from'', JStr from), (''to'', JStr to), (''type'', JStr type)]"

definition recoveredFragment :: "Module_rt list \<Rightarrow> jsval list \<Rightarrow> Analysis_rt" where
  "recoveredFragment modules relationships =
     \<lparr>fr_modules = modules,
      fr_relationships = relationships,
      fr_summary = JStr ''Chunk analysis completed'',
      fr_pattern = pattern_rt ''Unknown'' ''0.3'' ''Partial recovery'',
      fr_layers = [],
      fr_entryPoints = JArr [],
      fr_coreComponents = JArr []\<rparr>"

definition relationshipsOf :: "error + Analysis_rt \<Rightarrow> error + jsval list" where
  "relationshipsOf r = (case r of Inl e \<Rightarrow> Inl e | Inr g \<Rightarrow> Inr (fr_relationships g))"

lemma relKey_rt_replyRelationship [simp]: "relKey_rt (replyRelationship f t ty) = Inr (relKey f t)"
  by (simp add: relKey_rt_def replyRelationship_def getProp_def nullish_def propOf_def relKey_def)

lemma relationshipKey_rt_replyRelationship [simp]:
  "relationshipKey_rt (replyRelationship f t ty) = relKey f t"
  using relKey_rt_key[OF relKey_rt_replyRelationship] by simp

lemma keyed_replyRelationship [simp]: "keyed (replyRelationship f t ty)"
  by (simp add: keyed_def)

lemma recoveredFragment_returns:
  assumes "\<forall>r \<in> set rels. keyed r" and "\<forall>m \<in> set ms. \<exists>s. mr_layer m = JStr s"
  shows "\<exists>g. mergeChunkResults_rt jsGreater [recoveredFragment ms rels] files sel = Inr g"
proof (rule mergeChunkResults_rt_returns)
  fix c
  assume "c \<in> set [recoveredFragment ms rels]"
  then have c: "c = recoveredFragment ms rels" by simp
  show "(\<forall>r \<in> set (fr_relationships c). keyed r) \<and> (\<exists>s. fr_summary c = JStr s)
             \<and> propOf (fr_pattern c) ''name'' = JStr ''Unknown''
             \<and> fr_entryPoints c = JArr [] \<and> fr_coreComponents c = JArr []
             \<and> (\<forall>m \<in> set (fr_modules c). \<exists>s. mr_layer m = JStr s)"
    unfolding c recoveredFragment_def using assms by (simp add: pattern_rt_def propOf_def)
qed

lemma importCandidates_rt_none:
  "\<forall>f \<in> set files. fileImports f = [] \<Longrightarrow> importCandidates_rt ms files = []"
  by (simp add: importCandidates_rt_def)

text \<open>
  The merge raises on fragments that the decoder can return: where a relationship
  recovered by the pattern is \<open>null\<close> (lines 766 to 772, then line 420), where the entry
  points or the core components of a reply are a string (lines 726 to 741, then lines 464
  and 465), and where the layer of a module is a number (lines 630 and 763, then line
  959).
\<close>

lemma merge_raises_on_null_relationship:
  assumes "c \<in> set cs" and "JNull \<in> set (fr_relationships c)"
  shows "\<exists>e. mergeChunkResults_rt jsGreater cs files sel = Inl e"
proof -
  have "\<not> keyed JNull" by (simp add: keyed_iff relKey_rt_def getProp_def nullish_def)
  with assms have "\<not> (\<forall>r \<in> set (concat (map fr_relationships cs)). keyed r)" by auto
  then have "\<And>rels. mergeRelationships_rt cs \<noteq> Inr rels" by (simp add: mergeRelationships_rt_Inr)
  then have "\<And>g. mergeChunkResults_rt jsGreater cs files sel \<noteq> Inr g"
    by (auto simp: mergeChunkResults_rt_def Let_def bindE_Inr)
  then show ?thesis by (cases "mergeChunkResults_rt jsGreater cs files sel") auto
qed

lemma collectSets_rt_raises:
  "c \<in> set cs \<Longrightarrow> fr_entryPoints c = JStr s \<or> fr_coreComponents c = JStr s \<Longrightarrow>
     forEachE (\<lambda>chunk acc.
                 bindE (arrayItems (fr_entryPoints chunk)) (\<lambda>eps.
                 bindE (arrayItems (fr_coreComponents chunk)) (\<lambda>ccs.
                   Inr (fold addValue eps (fst acc), fold addValue ccs (snd acc)))))
              cs acc \<noteq> Inr acc'"
proof (induction cs arbitrary: acc)
  case Nil
  then show ?case by simp
next
  case (Cons d cs)
  show ?case
  proof (cases "c = d")
    case True
    with Cons.prems(2) show ?thesis by (auto simp: bindE_Inr arrayItems_def)
  next
    case False
    with Cons.prems have "c \<in> set cs" by simp
    from Cons.IH[OF this Cons.prems(2)] show ?thesis by (auto simp: bindE_Inr)
  qed
qed

lemma merge_raises_on_string_entryPoints:
  assumes "c \<in> set cs" and "fr_entryPoints c = JStr s \<or> fr_coreComponents c = JStr s"
  shows "\<exists>e. mergeChunkResults_rt jsGreater cs files sel = Inl e"
proof -
  have "\<And>sets. collectSets_rt cs \<noteq> Inr sets"
    unfolding collectSets_rt_def by (rule collectSets_rt_raises[OF assms])
  then have "\<And>g. mergeChunkResults_rt jsGreater cs files sel \<noteq> Inr g"
    by (auto simp: mergeChunkResults_rt_def Let_def bindE_Inr)
  then show ?thesis by (cases "mergeChunkResults_rt jsGreater cs files sel") auto
qed

lemma merge_raises_on_number_layer:
  "mergeChunkResults_rt jsGreater [recoveredFragment [replyModule ''a'' (JNum ''5'')] []]
     [mkFile ''a'' ''x''] [mkFile ''a'' ''x'']
   = Inl TypeError"
proof -
  let ?c = "recoveredFragment [replyModule ''a'' (JNum ''5'')] []"
  have r: "mergeRelationships_rt [?c] = Inr []"
    by (simp add: mergeRelationships_rt_def recoveredFragment_def)
  have s: "combinedSummary_rt [?c] [mkFile ''a'' ''x''] = Inr ''Chunk analysis completed''"
    by (simp add: combinedSummary_rt_def recoveredFragment_def truthy_def nullish_def)
  have p: "bestPattern_rt jsGreater [?c] = Inr (pattern_rt ''Unknown'' ''0'' ''Could not determine pattern'')"
    by (rule bestPattern_rt_unknown) (simp add: recoveredFragment_def pattern_rt_def propOf_def)
  have c: "collectSets_rt [?c] = Inr ([], [])"
    by (simp add: collectSets_rt_def arrayItems_def recoveredFragment_def)
  have m: "mergeWithAllFiles_rt (mergeModules_rt [?c]) [mkFile ''a'' ''x''] [mkFile ''a'' ''x'']
             = [replyModule ''a'' (JNum ''5'')]"
    by (simp add: mergeWithAllFiles_rt_eq mergeModules_rt_def recoveredFragment_def hasKey_def
        replyModule_def mkFile_def)
  have i: "inferAllRelationships_rt [replyModule ''a'' (JNum ''5'')] [mkFile ''a'' ''x''] []
             = Inr []"
    by (simp add: inferAllRelationships_rt_def fileImports_examples)
  have l: "groupByLayers_rt [replyModule ''a'' (JNum ''5'')] = Inl TypeError"
    by (simp add: groupByLayers_rt_def replyModule_def truthy_def nullish_def layerGroup_rt_def)
  show ?thesis
    by (simp add: mergeChunkResults_rt_def Let_def r s p c m i l)
qed

section \<open>Relationships of the graph at run time\<close>

text \<open>
  C3, as amended: whenever the merge returns a graph, the key that it computed for each
  relationship of the graph is the string \<open>from->to\<close>; the relationships of the graph are
  those of the fragments in chunk order followed by the edges of the import resolver, of
  which the first for each key stays and every later one is dropped; no two
  relationships of the graph have the same key, and so no two have the same \<open>(from, to)\<close>
  pair. The merge raises a \<open>TypeError\<close> where a key cannot be computed, which the claim
  as amended covers no more than by its condition.
\<close>

theorem merged_relationships_first_per_key:
  "mergeChunkResults_rt jsGreater cs files sel = Inr g \<Longrightarrow>
     fr_relationships g =
       firstPerKey relationshipKey_rt []
         (concat (map fr_relationships cs) @ importCandidates_rt (fr_modules g) files)
     \<and> (\<forall>r \<in> set (fr_relationships g). relKey_rt r = Inr (relationshipKey_rt r))
     \<and> distinct (map relationshipKey_rt (fr_relationships g))
     \<and> distinct (map (\<lambda>r. (propOf r ''from'', propOf r ''to'')) (fr_relationships g))"
proof -
  assume g: "mergeChunkResults_rt jsGreater cs files sel = Inr g"
  note f = fr_relationships_merge_rt[OF g]
  from f have e: "fr_relationships g =
       firstPerKey relationshipKey_rt []
         (concat (map fr_relationships cs) @ importCandidates_rt (fr_modules g) files)"
    by (rule conjunct2)
  from f keyed_importCandidates_rt
  have "\<forall>r \<in> set (concat (map fr_relationships cs) @ importCandidates_rt (fr_modules g) files).
          keyed r"
    by auto
  then have k: "\<forall>r \<in> set (fr_relationships g). relKey_rt r = Inr (relationshipKey_rt r)"
    unfolding e
    using firstPerKey_subset[of relationshipKey_rt "[]"
        "concat (map fr_relationships cs) @ importCandidates_rt (fr_modules g) files"]
    by (auto simp: keyed_def)
  have d: "distinct (map relationshipKey_rt (fr_relationships g))"
    unfolding e
    using firstPerKey_keys[of relationshipKey_rt "[]"
        "concat (map fr_relationships cs) @ importCandidates_rt (fr_modules g) files"]
    by simp
  from e k d distinct_pairs_of_keys_rt[OF d] show ?thesis by (intro conjI)
qed

text \<open>
  C3 as stated fails where two relationships with different \<open>(from, to)\<close> pairs have the
  same string: of the relationships from \<open>core->api\<close> to \<open>db\<close> and from \<open>core\<close> to
  \<open>api->db\<close> in one fragment, the merge keeps the first and drops the second, which is
  the first record seen for its pair.
\<close>

theorem first_of_pair_dropped_counterexample:
  "relationshipsOf
     (mergeChunkResults_rt raisingGreater
        [recoveredFragment [replyModule ''a'' (JStr ''other'')]
           [replyRelationship ''core->api'' ''db'' ''uses'',
            replyRelationship ''core'' ''api->db'' ''calls'']]
        twoFiles twoFiles)
     = Inr [replyRelationship ''core->api'' ''db'' ''uses'']
   \<and> (propOf (replyRelationship ''core'' ''api->db'' ''calls'') ''from'',
       propOf (replyRelationship ''core'' ''api->db'' ''calls'') ''to'')
     \<noteq> (propOf (replyRelationship ''core->api'' ''db'' ''uses'') ''from'',
         propOf (replyRelationship ''core->api'' ''db'' ''uses'') ''to'')"
proof
  obtain g where g: "mergeChunkResults_rt raisingGreater
        [recoveredFragment [replyModule ''a'' (JStr ''other'')]
           [replyRelationship ''core->api'' ''db'' ''uses'',
            replyRelationship ''core'' ''api->db'' ''calls'']]
        twoFiles twoFiles = Inr g"
    using recoveredFragment_returns[of "[replyRelationship ''core->api'' ''db'' ''uses'',
            replyRelationship ''core'' ''api->db'' ''calls'']"
          "[replyModule ''a'' (JStr ''other'')]" raisingGreater twoFiles twoFiles]
    by (auto simp: replyModule_def)
  have n: "importCandidates_rt (fr_modules g) twoFiles = []"
    by (rule importCandidates_rt_none) (simp add: twoFiles_def fileImports_examples)
  from fr_relationships_merge_rt[OF g]
  have "fr_relationships g = [replyRelationship ''core->api'' ''db'' ''uses'']"
    by (simp add: n recoveredFragment_def relKey_def)
  with g show "relationshipsOf
     (mergeChunkResults_rt raisingGreater
        [recoveredFragment [replyModule ''a'' (JStr ''other'')]
           [replyRelationship ''core->api'' ''db'' ''uses'',
            replyRelationship ''core'' ''api->db'' ''calls'']]
        twoFiles twoFiles)
     = Inr [replyRelationship ''core->api'' ''db'' ''uses'']"
    by (simp add: relationshipsOf_def)
  show "(propOf (replyRelationship ''core'' ''api->db'' ''calls'') ''from'',
       propOf (replyRelationship ''core'' ''api->db'' ''calls'') ''to'')
     \<noteq> (propOf (replyRelationship ''core->api'' ''db'' ''uses'') ''from'',
         propOf (replyRelationship ''core->api'' ''db'' ''uses'') ''to'')"
    by (simp add: propOf_def replyRelationship_def)
qed

text \<open>
  On the corpus of \<open>src/a.ts\<close> and \<open>src/util.ts\<close>, a recovered fragment relates the first
  file to the second; the edge that the import resolver offers for the import has the
  same key and is dropped.
\<close>

theorem merged_relationships_first_per_key_witness:
  "relationshipsOf
     (mergeChunkResults_rt raisingGreater
        [recoveredFragment [replyModule ''src/a.ts'' (JStr ''other'')]
           [replyRelationship ''src/a.ts'' ''src/util.ts'' ''uses'']]
        utilCorpus utilCorpus)
     = Inr [replyRelationship ''src/a.ts'' ''src/util.ts'' ''uses'']"
proof -
  obtain g where g: "mergeChunkResults_rt raisingGreater
        [recoveredFragment [replyModule ''src/a.ts'' (JStr ''other'')]
           [replyRelationship ''src/a.ts'' ''src/util.ts'' ''uses'']]
        utilCorpus utilCorpus = Inr g"
    using recoveredFragment_returns[of "[replyRelationship ''src/a.ts'' ''src/util.ts'' ''uses'']"
        "[replyModule ''src/a.ts'' (JStr ''other'')]" raisingGreater utilCorpus utilCorpus]
    by (auto simp: replyModule_def)
  have m: "mr_path ` set (fr_modules g) = {JStr ''src/a.ts'', JStr ''src/util.ts''}"
    unfolding fr_modules_merge_rt[OF g]
    by (auto simp: mergeWithAllFiles_rt_eq mergeModules_rt_def recoveredFragment_def
        replyModule_def utilCorpus_def mkFile_def hasKey_def)
  have c: "importCandidates_rt (fr_modules g) utilCorpus = [importEdge_rt ''src/a.ts'' ''src/util.ts'']"
    unfolding importCandidates_rt_def
    by (subst (2) utilCorpus_def)
       (use quoted_util in \<open>auto simp: fileImports_examples importCandidate_rt_def
          resolveImportPath_util m mkFile_sel getCap_def\<close>)
  from merged_relationships_first_per_key[OF g]
  have "fr_relationships g =
       firstPerKey relationshipKey_rt []
         (concat (map fr_relationships
            [recoveredFragment [replyModule ''src/a.ts'' (JStr ''other'')]
               [replyRelationship ''src/a.ts'' ''src/util.ts'' ''uses'']])
          @ importCandidates_rt (fr_modules g) utilCorpus)"
    by (rule conjunct1)
  then have "fr_relationships g = [replyRelationship ''src/a.ts'' ''src/util.ts'' ''uses'']"
    by (simp add: c recoveredFragment_def)
  with g show ?thesis by (simp add: relationshipsOf_def)
qed

section \<open>Modules of the graph at run time\<close>

text \<open>
  C1, as amended: for every corpus, every service and every fragment that the decoder
  returns for the replies, whenever \<open>analyze\<close> returns a graph, each input file's path is
  the path of at least one module of the graph, and of exactly one when the paths of the
  input files are pairwise distinct. It returns a graph at least when every chunk falls
  back; the merge raises a \<open>TypeError\<close> on some of the fragments that the decoder can
  return, which the claim as amended covers no more than by its condition.
\<close>

theorem one_module_per_input_path:
  "f \<in> set files \<Longrightarrow>
     (\<forall>g. analyze_rt jsGreater decoder svc files = Inr g \<longrightarrow>
        1 \<le> countPath_rt (fc_path f) (fr_modules g)
        \<and> (distinct (map fc_path files) \<longrightarrow> countPath_rt (fc_path f) (fr_modules g) = 1))
     \<and> ((\<forall>c i. analyzeChunk_rt decoder svc c i = createFallbackAnalysis_rt c) \<longrightarrow>
          (\<exists>g. analyze_rt jsGreater decoder svc files = Inr g))"
proof (intro conjI allI impI)
  fix g
  assume f: "f \<in> set files" and g: "analyze_rt jsGreater decoder svc files = Inr g"
  obtain cs where "analyze_rt jsGreater decoder svc files
         = mergeChunkResults_rt jsGreater cs files (selectedFilesOf files)"
    using analyze_rt_merge by blast
  with g have m: "fr_modules g = mergeWithAllFiles_rt (mergeModules_rt cs) files (selectedFilesOf files)"
    by (simp add: fr_modules_merge_rt)
  show "1 \<le> countPath_rt (fc_path f) (fr_modules g)"
    unfolding m countPath_rt_all using count_member_path[OF f] by simp
  assume "distinct (map fc_path files)"
  then show "countPath_rt (fc_path f) (fr_modules g) = 1"
    unfolding m countPath_rt_all using count_distinct_path[of files f] f by simp
next
  assume "\<forall>c i. analyzeChunk_rt decoder svc c i = createFallbackAnalysis_rt c"
  then show "\<exists>g. analyze_rt jsGreater decoder svc files = Inr g"
    by (simp add: analyze_rt_total_failure)
qed

lemma analyzeChunk_rt_failing:
  "analyzeChunk_rt decoder failingService fs i = createFallbackAnalysis_rt fs"
  by (simp add: analyzeChunk_rt_def failingService_def)

text \<open>
  A corpus of seven files: five files under a \<open>service\<close> directory and two files with
  the path \<open>notes.md\<close>. \<open>analyze\<close> selects the five service files.
\<close>

definition sevenFiles :: "FileContext list" where
  "sevenFiles = [mkFile ''x/service/a.ts'' [], mkFile ''x/service/b.ts'' [],
                 mkFile ''x/service/c.ts'' [], mkFile ''x/service/d.ts'' [],
                 mkFile ''x/service/e.ts'' [], mkFile ''notes.md'' ''1'', mkFile ''notes.md'' ''2'']"

lemma extractImports_digits:
  "extractImports ''1'' p = []" "extractImports ''2'' p = []"
  by (simp_all add: extractImports_def es6ImportRegex_def requireRegex_def importClause_def rx_eval)

lemma notes_path:
  "\<not> isEntryPath ''notes.md''" "\<not> isCorePath ''notes.md''" "\<not> isConfigFile ''notes.md''"
  "\<not> isServiceFile ''notes.md''" "\<not> isTestFile ''notes.md''"
  "\<not> includesStr ''notes.md'' ''/src/'' \<and> \<not> includesStr ''notes.md'' ''/lib/''"
  by (simp_all add: isEntryPath_def entryPointPatterns_def isCorePath_def corePatterns_def
      isConfigFile_def configPatterns_def isServiceFile_def isTestFile_def rx_eval str_eval2)

lemma findEntryPoints_seven: "findEntryPoints sevenFiles = []"
  by (simp add: findEntryPoints_fold sevenFiles_def mkFile_def entry_paths notes_path addUnique_def)

lemma findCoreFiles_seven:
  "findCoreFiles sevenFiles = [''x/service/a.ts'', ''x/service/b.ts'', ''x/service/c.ts'',
                               ''x/service/d.ts'', ''x/service/e.ts'']"
  by (simp add: findCoreFiles_fold sevenFiles_def mkFile_def core_paths notes_path addUnique_def)

lemma buildImportGraph_seven: "buildImportGraph sevenFiles = initGraph sevenFiles"
  by (rule buildImportGraph_no_imports)
     (auto simp: sevenFiles_def mkFile_def extractImports_empty extractImports_digits)

lemma scoreFile_seven:
  "scoreFile [] (findCoreFiles sevenFiles) (initGraph sevenFiles) (mkFile ''notes.md'' c) = 0"
  "scoreFile [] (findCoreFiles sevenFiles) (initGraph sevenFiles) (mkFile ''x/service/a.ts'' []) = 110"
  "scoreFile [] (findCoreFiles sevenFiles) (initGraph sevenFiles) (mkFile ''x/service/b.ts'' []) = 110"
  "scoreFile [] (findCoreFiles sevenFiles) (initGraph sevenFiles) (mkFile ''x/service/c.ts'' []) = 110"
  "scoreFile [] (findCoreFiles sevenFiles) (initGraph sevenFiles) (mkFile ''x/service/d.ts'' []) = 110"
  "scoreFile [] (findCoreFiles sevenFiles) (initGraph sevenFiles) (mkFile ''x/service/e.ts'' []) = 110"
  by (simp_all add: scoreFile_def findCoreFiles_seven mkFile_def config_paths service_paths test_paths
      src_paths notes_path)

lemma getScore_seven:
  "getScore (fileScores sevenFiles) (mkFile ''notes.md'' c) = 0"
  "getScore (fileScores sevenFiles) (mkFile ''x/service/a.ts'' []) = 110"
  "getScore (fileScores sevenFiles) (mkFile ''x/service/b.ts'' []) = 110"
  "getScore (fileScores sevenFiles) (mkFile ''x/service/c.ts'' []) = 110"
  "getScore (fileScores sevenFiles) (mkFile ''x/service/d.ts'' []) = 110"
  "getScore (fileScores sevenFiles) (mkFile ''x/service/e.ts'' []) = 110"
proof -
  have f: "fileScores sevenFiles =
     fold (\<lambda>file scores. scores(fc_path file \<mapsto>
             scoreFile [] (findCoreFiles sevenFiles) (initGraph sevenFiles) file))
          sevenFiles Map.empty"
    by (simp only: fileScores_def Let_def findEntryPoints_seven buildImportGraph_seven)
  have m: "fileScores sevenFiles =
      [''x/service/a.ts'' \<mapsto> 110, ''x/service/b.ts'' \<mapsto> 110,
       ''x/service/c.ts'' \<mapsto> 110, ''x/service/d.ts'' \<mapsto> 110, ''x/service/e.ts'' \<mapsto> 110,
       ''notes.md'' \<mapsto> 0]"
    unfolding f
    by (subst sevenFiles_def) (simp add: scoreFile_seven, simp add: mkFile_def)
  show "getScore (fileScores sevenFiles) (mkFile ''notes.md'' c) = 0"
    "getScore (fileScores sevenFiles) (mkFile ''x/service/a.ts'' []) = 110"
    "getScore (fileScores sevenFiles) (mkFile ''x/service/b.ts'' []) = 110"
    "getScore (fileScores sevenFiles) (mkFile ''x/service/c.ts'' []) = 110"
    "getScore (fileScores sevenFiles) (mkFile ''x/service/d.ts'' []) = 110"
    "getScore (fileScores sevenFiles) (mkFile ''x/service/e.ts'' []) = 110"
    unfolding m by (simp_all add: getScore_def mkFile_def)
qed

lemma sortedFiles_seven:
  "sortedFiles sevenFiles =
     [mkFile ''x/service/a.ts'' [], mkFile ''x/service/b.ts'' [], mkFile ''x/service/c.ts'' [],
      mkFile ''x/service/d.ts'' [], mkFile ''x/service/e.ts'' [], mkFile ''notes.md'' ''1'',
      mkFile ''notes.md'' ''2'']"
  unfolding sortedFiles_def
  by (subst (2) sevenFiles_def) (simp add: getScore_seven)

definition fiveServices :: "FileContext list" where
  "fiveServices = [mkFile ''x/service/a.ts'' [], mkFile ''x/service/b.ts'' [],
                   mkFile ''x/service/c.ts'' [], mkFile ''x/service/d.ts'' [],
                   mkFile ''x/service/e.ts'' []]"

lemma selectedFilesOf_seven: "selectedFilesOf sevenFiles = fiveServices"
proof -
  have l: "length sevenFiles = 7" by (simp add: sevenFiles_def)
  then have "selectedFilesOf sevenFiles = selectImportantFiles sevenFiles 5"
    by (simp add: selectedFilesOf_def maxFilesFor_def)
  with l show ?thesis by (simp add: selectImportantFiles_top sortedFiles_seven fiveServices_def)
qed

text \<open>
  C1 as stated fails on the seven files when every request to the service fails: the two
  files with the path \<open>notes.md\<close> are not among the five selected, the backfill adds a
  module for each of them, and the path has two modules in the graph.
\<close>

theorem duplicate_path_counterexample:
  "modulesWithPath ''notes.md'' (analyze_rt raisingGreater raisingDecoder failingService sevenFiles)
     = Inr 2"
proof -
  obtain g where g: "analyze_rt raisingGreater raisingDecoder failingService sevenFiles = Inr g"
    using analyze_rt_total_failure[of raisingDecoder failingService raisingGreater sevenFiles]
      analyzeChunk_rt_failing by blast
  have c: "chunksOf fiveServices = [fiveServices]"
    by (rule chunksOf_short) (simp_all add: fiveServices_def)
  have a: "analyze_rt raisingGreater raisingDecoder failingService sevenFiles
        = mergeChunkResults_rt raisingGreater [createFallbackAnalysis_rt fiveServices]
            sevenFiles fiveServices"
    by (simp add: analyze_rt_def selectedFilesOf_seven c analyzeChunk_rt_failing Let_def)
  from g[unfolded a] have m: "fr_modules g =
      mergeWithAllFiles_rt (mergeModules_rt [createFallbackAnalysis_rt fiveServices])
        sevenFiles fiveServices"
    by (rule fr_modules_merge_rt)
  have "countPath_rt ''notes.md'' (fr_modules g) = 2"
    unfolding m countPath_rt_all
    by (simp add: mergeModules_rt_def createFallbackAnalysis_rt_def
        sevenFiles_def fiveServices_def mkFile_def hasKey_JStr)
  with g show ?thesis by (simp add: modulesWithPath_def)
qed

theorem one_module_per_input_path_witness:
  "mkFile ''a'' ''x'' \<in> set twoFiles \<and> distinct (map fc_path twoFiles)
   \<and> modulesWithPath ''a'' (analyze_rt raisingGreater raisingDecoder failingService twoFiles) = Inr 1"
proof -
  have m: "mkFile ''a'' ''x'' \<in> set twoFiles" by (simp add: twoFiles_def)
  have d: "distinct (map fc_path twoFiles)" by (simp add: twoFiles_def mkFile_def)
  note t = one_module_per_input_path[OF m, of raisingGreater raisingDecoder failingService]
  from t analyzeChunk_rt_failing obtain g where
    g: "analyze_rt raisingGreater raisingDecoder failingService twoFiles = Inr g"
    by blast
  with t d have "countPath_rt (fc_path (mkFile ''a'' ''x'')) (fr_modules g) = 1" by blast
  with g have "modulesWithPath ''a'' (analyze_rt raisingGreater raisingDecoder failingService twoFiles) = Inr 1"
    by (simp add: modulesWithPath_def mkFile_def)
  with m d show ?thesis by (intro conjI)
qed

end
